(* ===== verification/Prelude.thy ===== *)
theory Prelude
  imports "HOL-Library.Word"
begin

text \<open>
  Shared vocabulary of the development: Rust's machine integers at their widths, the two ways a
  contract call can fail, and the sequencing of fallible, state-changing calls.
\<close>

named_theorems tx_simps \<open>evaluation of contract calls\<close>
named_theorems tx_fails \<open>when a contract call fails, and how\<close>
named_theorems rust_int \<open>what Rust's integer operations compute, read as mathematical integers\<close>

section \<open>Machine integers\<close>

type_synonym u8 = "8 word"
type_synonym u32 = "32 word"
type_synonym u64 = "64 word"
type_synonym i128 = "128 word"

text \<open>
  An \<open>i128\<close> is read with \<^const>\<open>sint\<close>, an unsigned integer with \<^const>\<open>uint\<close>. The order of the
  type \<open>128 word\<close> is the unsigned one, so every comparison of \<open>i128\<close> values below goes
  through \<^const>\<open>sint\<close>.
\<close>

definition i128_fits :: "int \<Rightarrow> bool" where
  "i128_fits i \<longleftrightarrow> - (2 ^ 127) \<le> i \<and> i < 2 ^ 127"

definition i128_of :: "int \<Rightarrow> i128 option" where
  "i128_of i = (if i128_fits i then Some (word_of_int i) else None)"

definition checked_add_i128 :: "i128 \<Rightarrow> i128 \<Rightarrow> i128 option" where
  "checked_add_i128 a b = i128_of (sint a + sint b)"

definition checked_sub_i128 :: "i128 \<Rightarrow> i128 \<Rightarrow> i128 option" where
  "checked_sub_i128 a b = i128_of (sint a - sint b)"

definition checked_mul_i128 :: "i128 \<Rightarrow> i128 \<Rightarrow> i128 option" where
  "checked_mul_i128 a b = i128_of (sint a * sint b)"

definition saturating_sub_i128 :: "i128 \<Rightarrow> i128 \<Rightarrow> i128" where
  "saturating_sub_i128 a b =
     word_of_int (max (- (2 ^ 127)) (min (2 ^ 127 - 1) (sint a - sint b)))"

definition max_i128 :: "i128 \<Rightarrow> i128 \<Rightarrow> i128" where
  "max_i128 a b = (if sint a \<le> sint b then b else a)"

definition min_i128 :: "i128 \<Rightarrow> i128 \<Rightarrow> i128" where
  "min_i128 a b = (if sint a \<le> sint b then a else b)"

definition checked_add_u :: "'n::len word \<Rightarrow> 'n word \<Rightarrow> 'n word option" where
  "checked_add_u a b = (if uint a + uint b < 2 ^ LENGTH('n) then Some (a + b) else None)"

definition checked_sub_u :: "'n::len word \<Rightarrow> 'n word \<Rightarrow> 'n word option" where
  "checked_sub_u a b = (if uint b \<le> uint a then Some (a - b) else None)"

definition saturating_add_u :: "'n::len word \<Rightarrow> 'n word \<Rightarrow> 'n word" where
  "saturating_add_u a b = (if uint a + uint b < 2 ^ LENGTH('n) then a + b else - 1)"

definition saturating_sub_u :: "'n::len word \<Rightarrow> 'n word \<Rightarrow> 'n word" where
  "saturating_sub_u a b = (if uint b \<le> uint a then a - b else 0)"

definition u64_as_i128 :: "u64 \<Rightarrow> i128" where
  "u64_as_i128 = ucast"

lemma sint_i128_range: "- (2 ^ 127) \<le> sint (a :: i128)" "sint (a :: i128) < 2 ^ 127"
  using sint_ge [of a] sint_lt [of a] by simp_all

lemma i128_fits_sint [simp, intro]: "i128_fits (sint (a :: i128))"
  using sint_i128_range [of a] by (simp add: i128_fits_def)

lemma sint_word_of_int_fits [rust_int]:
  "i128_fits i \<Longrightarrow> sint (word_of_int i :: i128) = i"
  by (simp add: i128_fits_def sint_sbintrunc' signed_take_bit_int_eq_self)

lemma i128_exists: "i128_fits x \<Longrightarrow> \<exists>a :: i128. sint a = x"
  by (rule exI, rule sint_word_of_int_fits)

lemma i128_of_Some_iff [rust_int]: "i128_of i = Some c \<longleftrightarrow> sint c = i"
proof
  assume "i128_of i = Some c"
  then show "sint c = i" by (auto simp: i128_of_def sint_word_of_int_fits split: if_splits)
next
  assume "sint c = i"
  then show "i128_of i = Some c" by (auto simp: i128_of_def)
qed

lemma i128_of_None_iff [rust_int]: "i128_of i = None \<longleftrightarrow> \<not> i128_fits i"
  by (simp add: i128_of_def)

lemma i128_eq_iff: "(a :: i128) = b \<longleftrightarrow> sint a = sint b"
  using signed_word_eqI by blast

lemma sint_max_i128: "sint (max_i128 a b) = max (sint a) (sint b)"
  by (simp add: max_i128_def max_def)

lemma sint_min_i128: "sint (min_i128 a b) = min (sint a) (sint b)"
  by (simp add: min_i128_def min_def)

lemmas sint_minmax = sint_max_i128 sint_min_i128

lemma sint_saturating_sub_i128:
  "sint (saturating_sub_i128 a b) = max (- (2 ^ 127)) (min (2 ^ 127 - 1) (sint a - sint b))"
proof -
  have "i128_fits (max (- (2 ^ 127)) (min (2 ^ 127 - 1) (sint a - sint b)))"
    by (simp add: i128_fits_def)
  then show ?thesis by (simp add: saturating_sub_i128_def sint_word_of_int_fits)
qed

lemma max0_saturating_sub_i128:
  "0 \<le> sint b \<Longrightarrow> max 0 (sint (saturating_sub_i128 a b)) = max 0 (sint a - sint b)"
  using sint_i128_range [of a] by (simp add: sint_saturating_sub_i128)

lemma checked_add_u_Some_iff [rust_int]:
  "checked_add_u a b = Some c \<longleftrightarrow> uint c = uint a + uint (b :: 'n::len word)"
proof
  assume "checked_add_u a b = Some c"
  then show "uint c = uint a + uint b"
    by (auto simp: checked_add_u_def uint_plus_simple_iff uint_add_lem split: if_splits)
next
  assume *: "uint c = uint a + uint b"
  then have "uint a + uint b < 2 ^ LENGTH('n)" by (metis uint_lt2p)
  with * show "checked_add_u a b = Some c"
    by (auto simp: checked_add_u_def uint_add_lem word_uint_eq_iff)
qed

lemma checked_sub_u_Some_iff [rust_int]:
  "checked_sub_u a b = Some c \<longleftrightarrow> uint c = uint a - uint (b :: 'n::len word)"
proof
  assume "checked_sub_u a b = Some c"
  then show "uint c = uint a - uint b"
    by (auto simp: checked_sub_u_def uint_sub_lem split: if_splits)
next
  assume *: "uint c = uint a - uint b"
  then have "uint b \<le> uint a" by (metis unsigned_greater_eq diff_ge_0_iff_ge)
  with * show "checked_sub_u a b = Some c"
    by (auto simp: checked_sub_u_def uint_sub_lem word_uint_eq_iff)
qed

lemma checked_sub_u_None_iff [rust_int]: "checked_sub_u a b = None \<longleftrightarrow> uint a < uint b"
  by (auto simp: checked_sub_u_def)

lemma checked_add_u_None_iff [rust_int]:
  "checked_add_u a (b :: 'n::len word) = None \<longleftrightarrow> 2 ^ LENGTH('n) \<le> uint a + uint b"
  by (auto simp: checked_add_u_def)

lemma uint_minus_le: "uint b \<le> uint a \<Longrightarrow> uint (a - b) = uint a - uint b"
  by (simp add: uint_sub_lem)

lemma uint_plus_less: "uint a + uint b < 2 ^ LENGTH('n) \<Longrightarrow> uint (a + b) = uint a + uint (b :: 'n::len word)"
  by (simp add: uint_add_lem)

lemma uint_pos_iff: "0 < uint (a :: 'n::len word) \<longleftrightarrow> a \<noteq> 0"
  using word_gt_0 [of a] by (simp add: word_less_alt)

lemma sint_u64_as_i128 [simp]: "sint (u64_as_i128 t) = uint t"
proof -
  have less: "uint t < 2 ^ 64" using uint_lt2p [of t] by simp
  have "- (2 ^ 127) \<le> uint t" by (rule order_trans [of _ 0]) simp_all
  moreover have "uint t < 2 ^ 127" using less by simp
  ultimately have "signed_take_bit 127 (uint t) = uint t"
    by (rule signed_take_bit_int_eq_self)
  with less show ?thesis
    by (simp add: u64_as_i128_def sint_uint unsigned_ucast_eq take_bit_int_eq_self)
qed

lemma uint_u64_range: "0 \<le> uint (t :: u64)" "uint (t :: u64) < 2 ^ 64"
  using uint_lt2p [of t] by simp_all


section \<open>Calls that change state and can fail\<close>

text \<open>
  A contract function either returns a value together with the new state of the host or fails.
  A failure carries no state: when a function returns \<open>Err\<close> or panics, the host rolls back
  everything the call has written, so the state after it is the state before. \<open>Err e\<close> is a
  contract error (an \<open>Err(e)\<close> return or \<open>panic_with_error!\<close>), \<open>Trap t\<close> a host trap.
\<close>

datatype trap =
    ArithmeticPanic     \<comment> \<open>overflow of a plain \<open>+\<close>, \<open>-\<close>: the release profile sets \<open>overflow-checks\<close>\<close>
  | AuthError           \<comment> \<open>\<open>require_auth\<close> of an address that did not authorize the call\<close>
  | UnwrapNone          \<comment> \<open>\<open>unwrap()\<close> of a missing storage entry\<close>
  | ConversionError     \<comment> \<open>a stored value of another type than the one asked for\<close>
  | MissingEntry        \<comment> \<open>\<open>extend_ttl\<close> of a persistent entry that does not exist\<close>
  | TokenFailure        \<comment> \<open>the token contract refused a transfer\<close>
  | DeployFailure       \<comment> \<open>the address of a new contract is already taken\<close>
  | SignatureFailure    \<comment> \<open>\<open>ed25519_verify\<close> rejected a signature\<close>
  | CallFailure         \<comment> \<open>an error of a called contract that the caller does not catch\<close>

datatype 'e failure = Err 'e | Trap trap

type_synonym ('h, 'e, 'a) tx = "'h \<Rightarrow> 'e failure + 'a \<times> 'h"

definition return :: "'a \<Rightarrow> ('h, 'e, 'a) tx" where
  "return a = (\<lambda>h. Inr (a, h))"

definition fail :: "'e failure \<Rightarrow> ('h, 'e, 'a) tx" where
  "fail e = (\<lambda>h. Inl e)"

definition bind :: "('h, 'e, 'a) tx \<Rightarrow> ('a \<Rightarrow> ('h, 'e, 'b) tx) \<Rightarrow> ('h, 'e, 'b) tx" where
  "bind m f = (\<lambda>h. case m h of Inl e \<Rightarrow> Inl e | Inr (a, h') \<Rightarrow> f a h')"

definition gets :: "('h \<Rightarrow> 'a) \<Rightarrow> ('h, 'e, 'a) tx" where
  "gets f = (\<lambda>h. Inr (f h, h))"

definition modify :: "('h \<Rightarrow> 'h) \<Rightarrow> ('h, 'e, unit) tx" where
  "modify f = (\<lambda>h. Inr ((), f h))"

text \<open>\<open>ensure b e\<close> is \<open>if !b { return Err(e) }\<close>; \<open>ok_or\<close> is \<open>.ok_or(e)?\<close>.\<close>

definition ensure :: "bool \<Rightarrow> 'e \<Rightarrow> ('h, 'e, unit) tx" where
  "ensure b e = (if b then return () else fail (Err e))"

definition ok_or :: "'a option \<Rightarrow> 'e \<Rightarrow> ('h, 'e, 'a) tx" where
  "ok_or x e = (case x of None \<Rightarrow> fail (Err e) | Some a \<Rightarrow> return a)"

definition expect :: "'a option \<Rightarrow> trap \<Rightarrow> ('h, 'e, 'a) tx" where
  "expect x t = (case x of None \<Rightarrow> fail (Trap t) | Some a \<Rightarrow> return a)"

definition lift_result :: "'e + 'a \<Rightarrow> ('h, 'e, 'a) tx" where
  "lift_result x = (case x of Inl e \<Rightarrow> fail (Err e) | Inr a \<Rightarrow> return a)"

definition when_tx :: "bool \<Rightarrow> ('h, 'e, unit) tx \<Rightarrow> ('h, 'e, unit) tx" where
  "when_tx b m = (if b then m else return ())"

definition unwrap_or :: "'a option \<Rightarrow> 'a \<Rightarrow> 'a" where
  "unwrap_or x d = (case x of None \<Rightarrow> d | Some a \<Rightarrow> a)"

definition result_unwrap_or :: "'e + 'a \<Rightarrow> 'a \<Rightarrow> 'a" where
  "result_unwrap_or x d = (case x of Inl e \<Rightarrow> d | Inr a \<Rightarrow> a)"

subsection \<open>When a call succeeds\<close>

lemma return_Inr_iff [tx_simps]: "return a h = Inr r \<longleftrightarrow> r = (a, h)"
  by (auto simp: return_def)

lemma fail_Inr_iff [tx_simps]: "fail e h = Inr r \<longleftrightarrow> False"
  by (simp add: fail_def)

lemma bind_Inr_iff [tx_simps]:
  "bind m f h = Inr r \<longleftrightarrow> (\<exists>a h1. m h = Inr (a, h1) \<and> f a h1 = Inr r)"
  by (auto simp: bind_def split: sum.splits)

lemma gets_Inr_iff [tx_simps]: "gets f h = Inr r \<longleftrightarrow> r = (f h, h)"
  by (auto simp: gets_def)

lemma modify_Inr_iff [tx_simps]: "modify f h = Inr r \<longleftrightarrow> r = ((), f h)"
  by (auto simp: modify_def)

lemma ensure_Inr_iff [tx_simps]: "ensure b e h = Inr r \<longleftrightarrow> b \<and> r = ((), h)"
  by (simp add: ensure_def return_Inr_iff fail_Inr_iff)

lemma ok_or_Inr_iff [tx_simps]: "ok_or x e h = Inr r \<longleftrightarrow> (\<exists>a. x = Some a \<and> r = (a, h))"
  by (auto simp: ok_or_def return_Inr_iff fail_Inr_iff split: option.splits)

lemma expect_Inr_iff [tx_simps]: "expect x t h = Inr r \<longleftrightarrow> (\<exists>a. x = Some a \<and> r = (a, h))"
  by (auto simp: expect_def return_Inr_iff fail_Inr_iff split: option.splits)

lemma lift_result_Inr_iff [tx_simps]:
  "lift_result x h = Inr r \<longleftrightarrow> (\<exists>a. x = Inr a \<and> r = (a, h))"
  by (auto simp: lift_result_def return_Inr_iff fail_Inr_iff split: sum.splits)

lemma when_tx_Inr_iff [tx_simps]:
  "when_tx b m h = Inr r \<longleftrightarrow> (if b then m h = Inr r else r = ((), h))"
  by (simp add: when_tx_def return_Inr_iff)

subsection \<open>When a call fails\<close>

lemma return_Inl_iff [tx_fails]: "return a h = Inl e \<longleftrightarrow> False"
  by (simp add: return_def)

lemma fail_Inl_iff [tx_fails]: "fail f h = Inl e \<longleftrightarrow> e = f"
  by (auto simp: fail_def)

lemma bind_Inl_iff [tx_fails]:
  "bind m f h = Inl e \<longleftrightarrow> m h = Inl e \<or> (\<exists>a h1. m h = Inr (a, h1) \<and> f a h1 = Inl e)"
  by (auto simp: bind_def split: sum.splits)

lemma gets_Inl_iff [tx_fails]: "gets f h = Inl e \<longleftrightarrow> False"
  by (simp add: gets_def)

lemma modify_Inl_iff [tx_fails]: "modify f h = Inl e \<longleftrightarrow> False"
  by (simp add: modify_def)

lemma ensure_Inl_iff [tx_fails]: "ensure b x h = Inl e \<longleftrightarrow> \<not> b \<and> e = Err x"
  by (simp add: ensure_def return_Inl_iff fail_Inl_iff)

lemma ok_or_Inl_iff [tx_fails]: "ok_or x f h = Inl e \<longleftrightarrow> x = None \<and> e = Err f"
  by (simp add: ok_or_def return_Inl_iff fail_Inl_iff split: option.splits)

lemma expect_Inl_iff [tx_fails]: "expect x t h = Inl e \<longleftrightarrow> x = None \<and> e = Trap t"
  by (simp add: expect_def return_Inl_iff fail_Inl_iff split: option.splits)

lemma lift_result_Inl_iff [tx_fails]:
  "lift_result x h = Inl e \<longleftrightarrow> (\<exists>f. x = Inl f \<and> e = Err f)"
  by (simp add: lift_result_def return_Inl_iff fail_Inl_iff split: sum.splits)

lemma when_tx_Inl_iff [tx_fails]: "when_tx b m h = Inl e \<longleftrightarrow> b \<and> m h = Inl e"
  by (simp add: when_tx_def return_Inl_iff)

subsection \<open>Evaluation of a call on a given state\<close>

named_theorems tx_eval \<open>computation rules for calls applied to a state\<close>

lemma return_eval [tx_eval]: "return a h = Inr (a, h)"
  by (simp add: return_def)

lemma fail_eval [tx_eval]: "fail e h = Inl e"
  by (simp add: fail_def)

lemma bind_eval [tx_eval]: "bind m f h = (case m h of Inl e \<Rightarrow> Inl e | Inr (a, h') \<Rightarrow> f a h')"
  by (simp add: bind_def)

lemma gets_eval [tx_eval]: "gets f h = Inr (f h, h)"
  by (simp add: gets_def)

lemma modify_eval [tx_eval]: "modify f h = Inr ((), f h)"
  by (simp add: modify_def)

lemma ensure_eval [tx_eval]: "ensure b e h = (if b then Inr ((), h) else Inl (Err e))"
  by (simp add: ensure_def return_eval fail_eval)

lemma ok_or_eval [tx_eval]:
  "ok_or x e h = (case x of None \<Rightarrow> Inl (Err e) | Some a \<Rightarrow> Inr (a, h))"
  by (simp add: ok_or_def return_eval fail_eval split: option.splits)

lemma expect_eval [tx_eval]:
  "expect x t h = (case x of None \<Rightarrow> Inl (Trap t) | Some a \<Rightarrow> Inr (a, h))"
  by (simp add: expect_def return_eval fail_eval split: option.splits)

lemma lift_result_eval [tx_eval]:
  "lift_result x h = (case x of Inl e \<Rightarrow> Inl (Err e) | Inr a \<Rightarrow> Inr (a, h))"
  by (simp add: lift_result_def return_eval fail_eval split: sum.splits)

lemma when_tx_eval [tx_eval]: "when_tx b m h = (if b then m h else Inr ((), h))"
  by (simp add: when_tx_def return_eval)

lemma unwrap_or_simps [simp]: "unwrap_or None d = d" "unwrap_or (Some a) d = a"
  by (simp_all add: unwrap_or_def)

lemma result_unwrap_or_simps [simp]:
  "result_unwrap_or (Inl e) d = d" "result_unwrap_or (Inr a) d = a"
  by (simp_all add: result_unwrap_or_def)

lemma Inl_or_Inr: "(\<exists>e. x = Inl e) \<or> (\<exists>r. x = Inr r)"
  by (cases x) auto

end
