(* ===== verification/Soroban_Host.thy ===== *)
theory Soroban_Host
  imports Prelude
begin

text \<open>
  What the three contracts see of the Soroban host: the call environment (\<open>Env\<close>), instance and
  persistent storage, time-to-live requests, published events and token contracts. The host and the
  token contracts are not part of this repository. The token contracts are a parameter: the two
  functions of the token client, with what the contracts rely on as the named hypotheses
  \<open>token_conserves\<close> and \<open>token_live\<close>. The ledger time, the contract's own address and the
  set of addresses that authorized the call are fields of the environment.
\<close>

section \<open>Environment and host state\<close>

text \<open>A contract compares addresses for equality and does nothing else with them.\<close>

type_synonym address = nat

record 'w token_ops =
  token_balance :: "'w \<Rightarrow> address \<Rightarrow> address \<Rightarrow> i128"
  token_transfer :: "'w \<Rightarrow> address \<Rightarrow> address \<Rightarrow> address \<Rightarrow> i128 \<Rightarrow> 'w option"

record 'w env =
  ledger_timestamp :: u64
  current_contract_address :: address
  has_authorized :: "address \<Rightarrow> bool"
  token_client :: "'w token_ops"

text \<open>
  \<open>ttl_log\<close> records every \<open>extend_ttl\<close> request in order: the entry (\<^const>\<open>None\<close> for the
  contract instance), the threshold and the target. What the host does with a request is its
  own affair. \<open>world\<close> is what lies outside the contract's own storage: the state of the token
  contracts, and for the factory the other contracts of the ledger as well.
\<close>

record ('k, 'v, 'e, 'w) host =
  instance_store :: "'k \<Rightarrow> 'v option"
  persistent_store :: "'k \<Rightarrow> 'v option"
  ttl_log :: "('k option \<times> u32 \<times> u32) list"
  event_log :: "'e list"
  world :: 'w

section \<open>Stored values\<close>

text \<open>
  The values that the contracts store, with the conversions that reading them back uses;
  \<open>VStruct\<close> is the value of a contract type of the one that stores it.
\<close>

datatype 's stored =
    VAddress address
  | VI128 i128
  | VU64 u64
  | VU32 u32
  | VBool bool
  | VBytes "u8 list"
  | VStruct 's

fun as_address :: "'s stored \<Rightarrow> address option" where
  "as_address (VAddress a) = Some a"
| "as_address _ = None"

fun as_i128 :: "'s stored \<Rightarrow> i128 option" where
  "as_i128 (VI128 a) = Some a"
| "as_i128 _ = None"

fun as_u64 :: "'s stored \<Rightarrow> u64 option" where
  "as_u64 (VU64 a) = Some a"
| "as_u64 _ = None"

fun as_u32 :: "'s stored \<Rightarrow> u32 option" where
  "as_u32 (VU32 a) = Some a"
| "as_u32 _ = None"

fun as_bool :: "'s stored \<Rightarrow> bool option" where
  "as_bool (VBool a) = Some a"
| "as_bool _ = None"

fun as_bytes :: "'s stored \<Rightarrow> u8 list option" where
  "as_bytes (VBytes a) = Some a"
| "as_bytes _ = None"

fun as_struct :: "'s stored \<Rightarrow> 's option" where
  "as_struct (VStruct a) = Some a"
| "as_struct _ = None"

section \<open>Host functions\<close>

definition require_auth :: "('w, 'n) env_scheme \<Rightarrow> address \<Rightarrow> ('h, 'err, unit) tx" where
  "require_auth env a = (if has_authorized env a then return () else fail (Trap AuthError))"

definition read_as :: "('v \<Rightarrow> 'a option) \<Rightarrow> 'v option \<Rightarrow> ('h, 'err, 'a option) tx" where
  "read_as dec x =
     (case x of None \<Rightarrow> return None
      | Some v \<Rightarrow> (case dec v of None \<Rightarrow> fail (Trap ConversionError) | Some a \<Rightarrow> return (Some a)))"

definition instance_has :: "'k \<Rightarrow> (('k, 'v, 'e, 'w, 'm) host_scheme, 'err, bool) tx" where
  "instance_has k = gets (\<lambda>h. instance_store h k \<noteq> None)"

definition instance_get ::
  "('v \<Rightarrow> 'a option) \<Rightarrow> 'k \<Rightarrow> (('k, 'v, 'e, 'w, 'm) host_scheme, 'err, 'a option) tx" where
  "instance_get dec k = bind (gets (\<lambda>h. instance_store h k)) (read_as dec)"

definition instance_set :: "'k \<Rightarrow> 'v \<Rightarrow> (('k, 'v, 'e, 'w, 'm) host_scheme, 'err, unit) tx" where
  "instance_set k v = modify (\<lambda>h. h\<lparr>instance_store := (instance_store h)(k \<mapsto> v)\<rparr>)"

definition instance_remove :: "'k \<Rightarrow> (('k, 'v, 'e, 'w, 'm) host_scheme, 'err, unit) tx" where
  "instance_remove k = modify (\<lambda>h. h\<lparr>instance_store := (instance_store h)(k := None)\<rparr>)"

definition instance_extend_ttl ::
  "u32 \<Rightarrow> u32 \<Rightarrow> (('k, 'v, 'e, 'w, 'm) host_scheme, 'err, unit) tx" where
  "instance_extend_ttl thr ext = modify (\<lambda>h. h\<lparr>ttl_log := ttl_log h @ [(None, thr, ext)]\<rparr>)"

definition persistent_has :: "'k \<Rightarrow> (('k, 'v, 'e, 'w, 'm) host_scheme, 'err, bool) tx" where
  "persistent_has k = gets (\<lambda>h. persistent_store h k \<noteq> None)"

definition persistent_get ::
  "('v \<Rightarrow> 'a option) \<Rightarrow> 'k \<Rightarrow> (('k, 'v, 'e, 'w, 'm) host_scheme, 'err, 'a option) tx" where
  "persistent_get dec k = bind (gets (\<lambda>h. persistent_store h k)) (read_as dec)"

definition persistent_set :: "'k \<Rightarrow> 'v \<Rightarrow> (('k, 'v, 'e, 'w, 'm) host_scheme, 'err, unit) tx" where
  "persistent_set k v = modify (\<lambda>h. h\<lparr>persistent_store := (persistent_store h)(k \<mapsto> v)\<rparr>)"

definition persistent_extend_ttl ::
  "'k \<Rightarrow> u32 \<Rightarrow> u32 \<Rightarrow> (('k, 'v, 'e, 'w, 'm) host_scheme, 'err, unit) tx" where
  "persistent_extend_ttl k thr ext =
     (\<lambda>h. if persistent_store h k = None then Inl (Trap MissingEntry)
          else Inr ((), h\<lparr>ttl_log := ttl_log h @ [(Some k, thr, ext)]\<rparr>))"

definition publish :: "'e \<Rightarrow> (('k, 'v, 'e, 'w, 'm) host_scheme, 'err, unit) tx" where
  "publish ev = modify (\<lambda>h. h\<lparr>event_log := event_log h @ [ev]\<rparr>)"

definition tk_balance ::
  "('w, 'n) env_scheme \<Rightarrow> address \<Rightarrow> address \<Rightarrow> (('k, 'v, 'e, 'w, 'm) host_scheme, 'err, i128) tx" where
  "tk_balance env tk who = gets (\<lambda>h. token_balance (token_client env) (world h) tk who)"

definition tk_transfer ::
  "('w, 'n) env_scheme \<Rightarrow> address \<Rightarrow> address \<Rightarrow> address \<Rightarrow> i128 \<Rightarrow>
     (('k, 'v, 'e, 'w, 'm) host_scheme, 'err, unit) tx" where
  "tk_transfer env tk src dst amount =
     (\<lambda>h. case token_transfer (token_client env) (world h) tk src dst amount of
            None \<Rightarrow> Inl (Trap TokenFailure)
          | Some w \<Rightarrow> Inr ((), h\<lparr>world := w\<rparr>))"

lemma require_auth_Inr_iff [tx_simps]:
  "require_auth env a h = Inr r \<longleftrightarrow> has_authorized env a \<and> r = ((), h)"
  by (simp add: require_auth_def tx_simps)

lemma read_as_Inr_iff [tx_simps]:
  "read_as dec x h = Inr r \<longleftrightarrow>
     (x = None \<and> r = (None, h)) \<or> (\<exists>v a. x = Some v \<and> dec v = Some a \<and> r = (Some a, h))"
  by (auto simp: read_as_def tx_simps split: option.splits)

lemma instance_get_Inr_iff [tx_simps]:
  "instance_get dec k h = Inr r \<longleftrightarrow>
     (instance_store h k = None \<and> r = (None, h)) \<or>
     (\<exists>v a. instance_store h k = Some v \<and> dec v = Some a \<and> r = (Some a, h))"
  by (simp add: instance_get_def tx_simps)

lemma persistent_get_Inr_iff [tx_simps]:
  "persistent_get dec k h = Inr r \<longleftrightarrow>
     (persistent_store h k = None \<and> r = (None, h)) \<or>
     (\<exists>v a. persistent_store h k = Some v \<and> dec v = Some a \<and> r = (Some a, h))"
  by (simp add: persistent_get_def tx_simps)

lemma instance_has_Inr_iff [tx_simps]:
  "instance_has k h = Inr r \<longleftrightarrow> r = (instance_store h k \<noteq> None, h)"
  by (simp add: instance_has_def tx_simps)

lemma persistent_has_Inr_iff [tx_simps]:
  "persistent_has k h = Inr r \<longleftrightarrow> r = (persistent_store h k \<noteq> None, h)"
  by (simp add: persistent_has_def tx_simps)

lemma instance_set_Inr_iff [tx_simps]:
  "instance_set k v h = Inr r \<longleftrightarrow> r = ((), h\<lparr>instance_store := (instance_store h)(k \<mapsto> v)\<rparr>)"
  by (simp add: instance_set_def tx_simps)

lemma instance_remove_Inr_iff [tx_simps]:
  "instance_remove k h = Inr r \<longleftrightarrow> r = ((), h\<lparr>instance_store := (instance_store h)(k := None)\<rparr>)"
  by (simp add: instance_remove_def tx_simps)

lemma persistent_set_Inr_iff [tx_simps]:
  "persistent_set k v h = Inr r \<longleftrightarrow> r = ((), h\<lparr>persistent_store := (persistent_store h)(k \<mapsto> v)\<rparr>)"
  by (simp add: persistent_set_def tx_simps)

lemma instance_extend_ttl_Inr_iff [tx_simps]:
  "instance_extend_ttl thr ext h = Inr r \<longleftrightarrow> r = ((), h\<lparr>ttl_log := ttl_log h @ [(None, thr, ext)]\<rparr>)"
  by (simp add: instance_extend_ttl_def tx_simps)

lemma persistent_extend_ttl_Inr_iff [tx_simps]:
  "persistent_extend_ttl k thr ext h = Inr r \<longleftrightarrow>
     persistent_store h k \<noteq> None \<and> r = ((), h\<lparr>ttl_log := ttl_log h @ [(Some k, thr, ext)]\<rparr>)"
  by (auto simp: persistent_extend_ttl_def)

lemma publish_Inr_iff [tx_simps]:
  "publish ev h = Inr r \<longleftrightarrow> r = ((), h\<lparr>event_log := event_log h @ [ev]\<rparr>)"
  by (simp add: publish_def tx_simps)

lemma tk_balance_Inr_iff [tx_simps]:
  "tk_balance env tk who h = Inr r \<longleftrightarrow>
     r = (token_balance (token_client env) (world h) tk who, h)"
  by (simp add: tk_balance_def tx_simps)

lemma tk_transfer_Inr_iff [tx_simps]:
  "tk_transfer env tk src dst amount h = Inr r \<longleftrightarrow>
     (\<exists>w. token_transfer (token_client env) (world h) tk src dst amount = Some w \<and>
          r = ((), h\<lparr>world := w\<rparr>))"
  by (auto simp: tk_transfer_def split: option.splits)

lemma require_auth_Inl_iff [tx_fails]:
  "require_auth env a h = Inl e \<longleftrightarrow> \<not> has_authorized env a \<and> e = Trap AuthError"
  by (simp add: require_auth_def tx_fails)

lemma read_as_Inl_iff [tx_fails]:
  "read_as dec x h = Inl e \<longleftrightarrow> (\<exists>v. x = Some v \<and> dec v = None) \<and> e = Trap ConversionError"
  by (auto simp: read_as_def tx_fails split: option.splits)

lemma instance_get_Inl_iff [tx_fails]:
  "instance_get dec k h = Inl e \<longleftrightarrow>
     (\<exists>v. instance_store h k = Some v \<and> dec v = None) \<and> e = Trap ConversionError"
  by (simp add: instance_get_def tx_fails tx_simps)

lemma persistent_get_Inl_iff [tx_fails]:
  "persistent_get dec k h = Inl e \<longleftrightarrow>
     (\<exists>v. persistent_store h k = Some v \<and> dec v = None) \<and> e = Trap ConversionError"
  by (simp add: persistent_get_def tx_fails tx_simps)

lemma store_Inl_iff [tx_fails]:
  "instance_has k h = Inl e \<longleftrightarrow> False"
  "instance_set k v h = Inl e \<longleftrightarrow> False"
  "instance_remove k h = Inl e \<longleftrightarrow> False"
  "instance_extend_ttl thr ext h = Inl e \<longleftrightarrow> False"
  "persistent_has k h = Inl e \<longleftrightarrow> False"
  "persistent_set k v h = Inl e \<longleftrightarrow> False"
  "publish ev h = Inl e \<longleftrightarrow> False"
  "tk_balance env tk who h = Inl e \<longleftrightarrow> False"
  by (simp_all add: instance_has_def instance_set_def instance_remove_def instance_extend_ttl_def
      persistent_has_def persistent_set_def publish_def tk_balance_def tx_fails)

lemma persistent_extend_ttl_Inl_iff [tx_fails]:
  "persistent_extend_ttl k thr ext h = Inl e \<longleftrightarrow>
     persistent_store h k = None \<and> e = Trap MissingEntry"
  by (auto simp: persistent_extend_ttl_def)

lemma tk_transfer_Inl_iff [tx_fails]:
  "tk_transfer env tk src dst a h = Inl e \<longleftrightarrow>
     token_transfer (token_client env) (world h) tk src dst a = None \<and> e = Trap TokenFailure"
  by (auto simp: tk_transfer_def split: option.splits)

lemmas host_eval =
  require_auth_def read_as_def instance_has_def instance_get_def instance_set_def
  instance_remove_def instance_extend_ttl_def persistent_has_def persistent_get_def
  persistent_set_def persistent_extend_ttl_def publish_def tk_balance_def tk_transfer_def

section \<open>What is relied on of a token contract\<close>

text \<open>
  \<open>token_conserves T\<close>: no balance is negative, and a transfer that succeeds moves a
  non-negative amount from the source to the destination in the token it is called on, and
  changes no other balance (the \<open>transfer\<close> of the Stellar token interface).
\<close>

definition moved :: "address \<Rightarrow> address \<Rightarrow> int \<Rightarrow> address \<Rightarrow> int" where
  "moved src dst a who = (if who = dst then a else 0) - (if who = src then a else 0)"

definition token_conserves :: "'w token_ops \<Rightarrow> bool" where
  "token_conserves T \<longleftrightarrow>
     (\<forall>w tk who. 0 \<le> sint (token_balance T w tk who)) \<and>
     (\<forall>w tk src dst a w'. token_transfer T w tk src dst a = Some w' \<longrightarrow>
        0 \<le> sint a \<and>
        (\<forall>tk' who. sint (token_balance T w' tk' who) =
           sint (token_balance T w tk' who) + (if tk' = tk then moved src dst (sint a) who else 0)))"

text \<open>\<open>token_live T\<close>: a transfer the source can pay and the destination can hold goes through.\<close>

definition token_live :: "'w token_ops \<Rightarrow> bool" where
  "token_live T \<longleftrightarrow>
     (\<forall>w tk src dst a.
        0 \<le> sint a \<and> sint a \<le> sint (token_balance T w tk src) \<and>
        (src = dst \<or> sint (token_balance T w tk dst) + sint a < 2 ^ 127) \<longrightarrow>
        token_transfer T w tk src dst a \<noteq> None)"

lemma token_balance_nonneg: "token_conserves T \<Longrightarrow> 0 \<le> sint (token_balance T w tk who)"
  by (simp add: token_conserves_def)

lemma token_transfer_amount:
  "token_conserves T \<Longrightarrow> token_transfer T w tk src dst a = Some w' \<Longrightarrow> 0 \<le> sint a"
  unfolding token_conserves_def by blast

lemma token_transfer_balance:
  "token_conserves T \<Longrightarrow> token_transfer T w tk src dst a = Some w' \<Longrightarrow>
   sint (token_balance T w' tk' who) =
     sint (token_balance T w tk' who) + (if tk' = tk then moved src dst (sint a) who else 0)"
  unfolding token_conserves_def by blast

lemma moved_simps [simp]:
  "src \<noteq> dst \<Longrightarrow> moved src dst a src = - a"
  "src \<noteq> dst \<Longrightarrow> moved src dst a dst = a"
  "who \<noteq> src \<Longrightarrow> who \<noteq> dst \<Longrightarrow> moved src dst a who = 0"
  "moved src src a who = 0"
  by (auto simp: moved_def)

lemma token_transfer_paid:
  assumes "token_conserves T" and "token_transfer T w tk src dst a = Some w'" and "src \<noteq> dst"
  shows "sint a \<le> sint (token_balance T w tk src)"
  using token_transfer_balance [OF assms(1,2), of tk src] token_balance_nonneg [OF assms(1), of w' tk src]
    assms(3) by simp

section \<open>A concrete token, for witnesses\<close>

text \<open>A table of 127-bit balances per token and holder satisfies both hypotheses.\<close>

type_synonym balance_table = "address \<Rightarrow> address \<Rightarrow> 127 word"

definition ledger_transfer ::
  "balance_table \<Rightarrow> address \<Rightarrow> address \<Rightarrow> address \<Rightarrow> i128 \<Rightarrow> balance_table option" where
  "ledger_transfer w tk src dst a =
     (if 0 \<le> sint a \<and> sint a \<le> uint (w tk src) \<and>
         (src = dst \<or> uint (w tk dst) + sint a < 2 ^ 127)
      then Some (w(tk := (if src = dst then w tk
           else (w tk)(src := w tk src - ucast a, dst := w tk dst + ucast a))))
      else None)"

definition ledger_token :: "balance_table token_ops" where
  "ledger_token = \<lparr>token_balance = (\<lambda>w tk who. ucast (w tk who)), token_transfer = ledger_transfer\<rparr>"

lemma sint_ucast_127 [simp]: "sint (ucast (x :: 127 word) :: i128) = uint x"
proof -
  have less: "uint x < 2 ^ 127" using uint_lt2p [of x] by simp
  have "- (2 ^ 127) \<le> uint x" by (rule order_trans [of _ 0]) simp_all
  then have "signed_take_bit 127 (uint x) = uint x"
    using less by (rule signed_take_bit_int_eq_self)
  with less show ?thesis
    by (simp add: sint_uint unsigned_ucast_eq take_bit_int_eq_self)
qed

lemma uint_i128_nonneg: "0 \<le> sint (a :: i128) \<Longrightarrow> uint a = sint a"
  using sint_i128_range [of a] by (simp add: uint_sint take_bit_int_eq_self)

lemma uint_ucast_i128 [simp]: "0 \<le> sint a \<Longrightarrow> uint (ucast (a :: i128) :: 127 word) = sint a"
  using sint_i128_range [of a]
  by (simp add: unsigned_ucast_eq uint_i128_nonneg take_bit_int_eq_self)

lemma ledger_token_live: "token_live ledger_token"
  by (simp add: token_live_def ledger_token_def ledger_transfer_def)

lemma ledger_transfer_balance:
  assumes "ledger_transfer w tk src dst a = Some w'"
  shows "uint (w' tk' who) = uint (w tk' who) + (if tk' = tk then moved src dst (sint a) who else 0)"
proof (cases "src = dst")
  case True
  then show ?thesis using assms by (auto simp: ledger_transfer_def split: if_splits)
next
  case False
  with assms have a: "0 \<le> sint a" "sint a \<le> uint (w tk src)" "uint (w tk dst) + sint a < 2 ^ 127"
    and w': "w' = w(tk := (w tk)(src := w tk src - ucast a, dst := w tk dst + ucast a))"
    by (auto simp: ledger_transfer_def split: if_splits)
  have "uint (w tk src - ucast a) = uint (w tk src) - sint a"
    using a uint_sub_lem [of "ucast a" "w tk src"] by simp
  moreover have "uint (w tk dst + ucast a) = uint (w tk dst) + sint a"
    using a uint_add_lem [of "w tk dst" "ucast a"] by simp
  ultimately show ?thesis using False by (auto simp: w' moved_def)
qed

lemma ledger_transfer_nonneg: "ledger_transfer w tk src dst a = Some w' \<Longrightarrow> 0 \<le> sint a"
  by (auto simp: ledger_transfer_def split: if_splits)

lemma ledger_token_conserves: "token_conserves ledger_token"
  unfolding token_conserves_def ledger_token_def
  using ledger_transfer_balance ledger_transfer_nonneg by simp

end
