(* ===== verification/Machine.thy ===== *)
theory Machine
  imports Prelude
begin

text \<open>
  Reachable states and invariants of a contract seen as a state machine, shared by the three
  contracts: a set of initial states and a step relation.
\<close>

inductive reaches :: "('s \<Rightarrow> bool) \<Rightarrow> ('s \<Rightarrow> 's \<Rightarrow> bool) \<Rightarrow> 's \<Rightarrow> bool"
  for init :: "'s \<Rightarrow> bool" and step :: "'s \<Rightarrow> 's \<Rightarrow> bool" where
  reaches_init: "init s \<Longrightarrow> reaches init step s"
| reaches_step: "reaches init step s \<Longrightarrow> step s s' \<Longrightarrow> reaches init step s'"

text \<open>\<open>later step s s'\<close>: \<open>s'\<close> is reached from \<open>s\<close> by any number of steps.\<close>

inductive later :: "('s \<Rightarrow> 's \<Rightarrow> bool) \<Rightarrow> 's \<Rightarrow> 's \<Rightarrow> bool" for step :: "'s \<Rightarrow> 's \<Rightarrow> bool" where
  later_refl: "later step s s"
| later_step: "later step s s' \<Longrightarrow> step s' s'' \<Longrightarrow> later step s s''"

lemma reaches_later: "reaches init step s \<Longrightarrow> later step s s' \<Longrightarrow> reaches init step s'"
  by (rotate_tac, induction rule: later.induct) (auto intro: reaches_step)

lemma later_trans: "later step s' s'' \<Longrightarrow> later step s s' \<Longrightarrow> later step s s''"
  by (induction rule: later.induct) (auto intro: later_step)

text \<open>
  The contract of an invariant: what has to be shown of the initial states and of one step, and
  what follows for every reachable state.
\<close>

locale invariant =
  fixes init :: "'s \<Rightarrow> bool" and step :: "'s \<Rightarrow> 's \<Rightarrow> bool" and inv :: "'s \<Rightarrow> bool"
  assumes inv_init: "init s \<Longrightarrow> inv s"
    and inv_step: "step s s' \<Longrightarrow> inv s \<Longrightarrow> inv s'"
begin

lemma inv_reaches: "reaches init step s \<Longrightarrow> inv s"
  by (induction rule: reaches.induct) (auto intro: inv_init inv_step)

lemma inv_later: "later step s s' \<Longrightarrow> inv s \<Longrightarrow> inv s'"
  by (induction rule: later.induct) (auto intro: inv_step)

end

text \<open>A quantity that no step decreases, as long as the invariant holds.\<close>

locale monotone_invariant = invariant init step inv
  for init :: "'s \<Rightarrow> bool" and step :: "'s \<Rightarrow> 's \<Rightarrow> bool" and inv :: "'s \<Rightarrow> bool" +
  fixes measured :: "'s \<Rightarrow> 'm::order"
  assumes measured_step: "step s s' \<Longrightarrow> inv s \<Longrightarrow> measured s \<le> measured s'"
begin

lemma measured_later: "later step s s' \<Longrightarrow> inv s \<Longrightarrow> measured s \<le> measured s'"
proof (induction rule: later.induct)
  case later_refl
  then show ?case by simp
next
  case (later_step s s' s'')
  then have "inv s'" by (blast intro: inv_later)
  with later_step show ?case by (blast intro: measured_step order_trans)
qed

end

text \<open>
  A simulation: as long as a part of a state is present, it stays present, and each step of the whole
  is any number of steps of the part.
\<close>

locale simulation =
  fixes step :: "'s \<Rightarrow> 's \<Rightarrow> bool" and present :: "'s \<Rightarrow> bool" and view :: "'s \<Rightarrow> 't"
    and step' :: "'t \<Rightarrow> 't \<Rightarrow> bool"
  assumes sim_step: "step s s' \<Longrightarrow> present s \<Longrightarrow> present s' \<and> later step' (view s) (view s')"
begin

lemma sim_later: "later step s s' \<Longrightarrow> present s \<Longrightarrow> present s' \<and> later step' (view s) (view s')"
proof (induction rule: later.induct)
  case later_refl
  then show ?case by (simp add: later.later_refl)
next
  case (later_step s s' s'')
  then have "present s'" and "later step' (view s) (view s')" by blast+
  with sim_step [OF later_step(2)] show ?case by (blast intro: later_trans)
qed

end

end
