(* ===== verification/Lockstep.thy ===== *)
theory Lockstep
  imports Soroban_Host Machine
begin

text \<open>
  Calls that do the same on states that cannot be told apart. \<open>lockstep R m\<close>: from two states
  related by \<open>R\<close> the call \<open>m\<close> fails in the same way, or succeeds with the same value and states
  that are related again. The rules follow the structure of a call, so that an entry point is in
  lockstep as soon as the host functions it uses are.
\<close>

named_theorems lockstep_intros \<open>calls in lockstep\<close>

definition lockstep :: "('h \<Rightarrow> 'h \<Rightarrow> bool) \<Rightarrow> ('h, 'e, 'a) tx \<Rightarrow> bool" where
  "lockstep R m \<longleftrightarrow> (\<forall>h k. R h k \<longrightarrow> rel_sum (=) (rel_prod (=) R) (m h) (m k))"

lemma lockstepI:
  "(\<And>h k. R h k \<Longrightarrow> rel_sum (=) (rel_prod (=) R) (m h) (m k)) \<Longrightarrow> lockstep R m"
  by (simp add: lockstep_def)

lemma lockstepD: "lockstep R m \<Longrightarrow> R h k \<Longrightarrow> rel_sum (=) (rel_prod (=) R) (m h) (m k)"
  by (simp add: lockstep_def)

lemma lockstep_return [lockstep_intros]: "lockstep R (return a)"
  by (simp add: lockstep_def return_def)

lemma lockstep_fail [lockstep_intros]: "lockstep R (fail e)"
  by (simp add: lockstep_def fail_def)

lemma lockstep_bind [lockstep_intros]:
  assumes "lockstep R m" and "\<And>a. lockstep R (f a)"
  shows "lockstep R (bind m f)"
proof (rule lockstepI)
  fix h k
  assume "R h k"
  with assms(1) have "rel_sum (=) (rel_prod (=) R) (m h) (m k)" by (rule lockstepD)
  then show "rel_sum (=) (rel_prod (=) R) (bind m f h) (bind m f k)"
    by (cases rule: rel_sum.cases) (auto simp: bind_def intro: lockstepD [OF assms(2)])
qed

lemma lockstep_let [lockstep_intros]: "lockstep R (f a) \<Longrightarrow> lockstep R (Let a f)"
  by simp

lemma lockstep_if [lockstep_intros]:
  "(b \<Longrightarrow> lockstep R m) \<Longrightarrow> (\<not> b \<Longrightarrow> lockstep R m') \<Longrightarrow> lockstep R (if b then m else m')"
  by simp

lemma lockstep_option [lockstep_intros]:
  "lockstep R m \<Longrightarrow> (\<And>a. lockstep R (f a)) \<Longrightarrow> lockstep R (case x of None \<Rightarrow> m | Some a \<Rightarrow> f a)"
  by (simp split: option.split)

lemma lockstep_checks [lockstep_intros]:
  "lockstep R (ensure b e)" "lockstep R (ok_or x e)" "lockstep R (expect x t)" "lockstep R (lift_result y)"
  by (simp_all add: lockstep_def ensure_eval ok_or_eval expect_eval lift_result_eval
      split: option.splits sum.splits)

lemma lockstep_when [lockstep_intros]: "lockstep R m \<Longrightarrow> lockstep R (when_tx b m)"
  by (auto simp: when_tx_def intro: lockstep_intros)

lemma lockstep_auth [lockstep_intros]: "lockstep R (require_auth env a)"
  by (auto simp: require_auth_def intro: lockstep_intros)

lemma lockstep_gets: "(\<And>h k. R h k \<Longrightarrow> f h = f k) \<Longrightarrow> lockstep R (gets f)"
  by (simp add: lockstep_def gets_def)

lemma lockstep_modify: "(\<And>h k. R h k \<Longrightarrow> R (f h) (f k)) \<Longrightarrow> lockstep R (modify f)"
  by (simp add: lockstep_def modify_def)

text \<open>Calls in lockstep give the same outcome.\<close>

lemma lockstep_Inl: "lockstep R m \<Longrightarrow> R h k \<Longrightarrow> m h = Inl e \<longleftrightarrow> m k = Inl e"
  by (force simp: lockstep_def rel_sum.simps)

lemma lockstep_Inr:
  assumes "lockstep R m" and "R h k" and "m h = Inr (a, h')"
  obtains k' where "m k = Inr (a, k')" and "R h' k'"
  using assms by (fastforce simp: lockstep_def rel_sum.simps)

end
