(* ===== verification/Stream_Types.thy ===== *)
theory Stream_Types
  imports Soroban_Host
begin

text \<open>
  The data of \<open>DripStream\<close>: its error codes (\<open>contracts/stream/src/errors.rs\<close>), its storage
  keys, the flag bits and the \<open>StreamInfo\<close> struct (\<open>contracts/stream/src/storage.rs\<close>).
\<close>

unbundle bit_operations_syntax

section \<open>Errors\<close>

datatype stream_error =
    NotAuthorized
  | StreamNotFound
  | StreamCancelled
  | StreamNotStarted
  | StreamEnded
  | NothingToWithdraw
  | InsufficientDeposit
  | InvalidTimeRange
  | AlreadyPaused
  | NotPaused
  | ClawbackDisabled
  | ArithmeticOverflow
  | PauseThresholdNotMet
  | AlreadyInitialized
  | InvalidAmount

fun stream_error_code :: "stream_error \<Rightarrow> nat" where
  "stream_error_code NotAuthorized = 1"
| "stream_error_code StreamNotFound = 2"
| "stream_error_code StreamCancelled = 3"
| "stream_error_code StreamNotStarted = 4"
| "stream_error_code StreamEnded = 5"
| "stream_error_code NothingToWithdraw = 6"
| "stream_error_code InsufficientDeposit = 7"
| "stream_error_code InvalidTimeRange = 8"
| "stream_error_code AlreadyPaused = 9"
| "stream_error_code NotPaused = 10"
| "stream_error_code ClawbackDisabled = 11"
| "stream_error_code ArithmeticOverflow = 12"
| "stream_error_code PauseThresholdNotMet = 13"
| "stream_error_code AlreadyInitialized = 14"
| "stream_error_code InvalidAmount = 15"

lemma stream_error_code_inject: "stream_error_code e = stream_error_code e' \<Longrightarrow> e = e'"
  by (cases e; cases e'; simp)

text \<open>The derived \<open>Ord\<close> compares the discriminants.\<close>

instantiation stream_error :: linorder
begin

definition less_eq_stream_error :: "stream_error \<Rightarrow> stream_error \<Rightarrow> bool" where
  "e \<le> e' \<longleftrightarrow> stream_error_code e \<le> stream_error_code e'"

definition less_stream_error :: "stream_error \<Rightarrow> stream_error \<Rightarrow> bool" where
  "e < e' \<longleftrightarrow> stream_error_code e < stream_error_code e'"

instance
  by standard (auto simp: less_eq_stream_error_def less_stream_error_def
      dest: stream_error_code_inject)

end

section \<open>Storage keys and the stream record\<close>

datatype stream_key =
    Sender
  | Recipient
  | Token
  | RatePerSecond
  | StartTime
  | EndTime
  | Withdrawn
  | PausedAt
  | Flags
  | ClawbackEnabled
  | Cancelled
  | Config
  | EventSequence

definition FLAG_PAUSED :: u32 where
  "FLAG_PAUSED = 1"

definition FLAG_CLAWBACK_ENABLED :: u32 where
  "FLAG_CLAWBACK_ENABLED = push_bit 1 1"

definition FLAG_CANCELLED :: u32 where
  "FLAG_CANCELLED = push_bit 2 1"

record stream_info =
  sender :: address
  recipient :: address
  token :: address
  rate_per_second :: i128
  start_time :: u64
  end_time :: u64
  withdrawn :: i128
  paused_at :: u64
  flags :: u32

definition is_paused :: "stream_info \<Rightarrow> bool" where
  "is_paused info \<longleftrightarrow> flags info AND FLAG_PAUSED \<noteq> 0"

definition is_cancelled :: "stream_info \<Rightarrow> bool" where
  "is_cancelled info \<longleftrightarrow> flags info AND FLAG_CANCELLED \<noteq> 0"

definition is_clawback_enabled :: "stream_info \<Rightarrow> bool" where
  "is_clawback_enabled info \<longleftrightarrow> flags info AND FLAG_CLAWBACK_ENABLED \<noteq> 0"

text \<open>The struct is stored under one key, its fields under the others.\<close>

type_synonym stream_val = "stream_info stored"

text \<open>
  The events of \<open>contracts/stream/src/events.rs\<close>: the address and the sequence number of the
  topics, then the data.
\<close>

datatype stream_event =
    WithdrawnEvent address u64 i128 i128 i128
  | CancelledEvent address u64 i128 i128
  | PausedEvent address u64 u64 i128
  | ResumedEvent address u64 u64
  | ToppedUpEvent address u64 i128 i128
  | ClawbackEvent address u64 i128
  | RecipientTransferredEvent address u64 address

fun event_sequence_of :: "stream_event \<Rightarrow> u64" where
  "event_sequence_of (WithdrawnEvent _ n _ _ _) = n"
| "event_sequence_of (CancelledEvent _ n _ _) = n"
| "event_sequence_of (PausedEvent _ n _ _) = n"
| "event_sequence_of (ResumedEvent _ n _) = n"
| "event_sequence_of (ToppedUpEvent _ n _ _) = n"
| "event_sequence_of (ClawbackEvent _ n _) = n"
| "event_sequence_of (RecipientTransferredEvent _ n _) = n"

type_synonym 'w stream_host = "(stream_key, stream_val, stream_event, 'w) host"

type_synonym ('w, 'a) stream_tx = "('w stream_host, stream_error, 'a) tx"

section \<open>The flag bits\<close>

lemma bit_flags [simp]:
  "bit FLAG_PAUSED n \<longleftrightarrow> n = 0"
  "bit FLAG_CLAWBACK_ENABLED n \<longleftrightarrow> n = 1"
  "bit FLAG_CANCELLED n \<longleftrightarrow> n = 2"
  unfolding FLAG_PAUSED_def FLAG_CLAWBACK_ENABLED_def FLAG_CANCELLED_def bit_push_bit_iff
  by (auto simp: bit_simps)

lemma flag_bits:
  "f AND FLAG_PAUSED \<noteq> 0 \<longleftrightarrow> bit f 0"
  "f AND FLAG_CLAWBACK_ENABLED \<noteq> 0 \<longleftrightarrow> bit f 1"
  "f AND FLAG_CANCELLED \<noteq> 0 \<longleftrightarrow> bit f 2"
  using bit_iff_and_push_bit_not_eq_0 [of f 0] bit_iff_and_push_bit_not_eq_0 [of f 1]
    bit_iff_and_push_bit_not_eq_0 [of f 2]
  by (simp_all add: FLAG_PAUSED_def FLAG_CLAWBACK_ENABLED_def FLAG_CANCELLED_def)

lemma flags_nonzero [simp]: "FLAG_PAUSED \<noteq> 0" "FLAG_CANCELLED \<noteq> 0"
  by (simp_all add: FLAG_PAUSED_def FLAG_CANCELLED_def)

lemmas flag_tests = is_paused_def is_cancelled_def is_clawback_enabled_def flag_bits

lemma flag_updates [simp]:
  "is_paused (i\<lparr>flags := f OR FLAG_PAUSED\<rparr>)"
  "\<not> is_paused (i\<lparr>flags := f AND NOT FLAG_PAUSED\<rparr>)"
  "is_cancelled (i\<lparr>flags := f OR FLAG_PAUSED\<rparr>) \<longleftrightarrow> is_cancelled (i\<lparr>flags := f\<rparr>)"
  "is_cancelled (i\<lparr>flags := f AND NOT FLAG_PAUSED\<rparr>) \<longleftrightarrow> is_cancelled (i\<lparr>flags := f\<rparr>)"
  "is_clawback_enabled (i\<lparr>flags := f OR FLAG_PAUSED\<rparr>) \<longleftrightarrow> is_clawback_enabled (i\<lparr>flags := f\<rparr>)"
  "is_clawback_enabled (i\<lparr>flags := f AND NOT FLAG_PAUSED\<rparr>) \<longleftrightarrow>
     is_clawback_enabled (i\<lparr>flags := f\<rparr>)"
  "is_cancelled (i\<lparr>flags := f OR FLAG_CANCELLED\<rparr>)"
  "is_paused (i\<lparr>flags := f OR FLAG_CANCELLED\<rparr>) \<longleftrightarrow> is_paused (i\<lparr>flags := f\<rparr>)"
  "is_clawback_enabled (i\<lparr>flags := f OR FLAG_CANCELLED\<rparr>) \<longleftrightarrow> is_clawback_enabled (i\<lparr>flags := f\<rparr>)"
  by (simp_all add: flag_tests bit_simps)

lemma flag_frames [simp]:
  "is_paused (i\<lparr>sender := x1\<rparr>) = is_paused i"
  "is_paused (i\<lparr>recipient := x1\<rparr>) = is_paused i"
  "is_paused (i\<lparr>start_time := t\<rparr>) = is_paused i"
  "is_paused (i\<lparr>end_time := t\<rparr>) = is_paused i"
  "is_paused (i\<lparr>withdrawn := a\<rparr>) = is_paused i"
  "is_paused (i\<lparr>paused_at := t\<rparr>) = is_paused i"
  "is_cancelled (i\<lparr>recipient := x1\<rparr>) = is_cancelled i"
  "is_cancelled (i\<lparr>start_time := t\<rparr>) = is_cancelled i"
  "is_cancelled (i\<lparr>end_time := t\<rparr>) = is_cancelled i"
  "is_cancelled (i\<lparr>withdrawn := a\<rparr>) = is_cancelled i"
  "is_cancelled (i\<lparr>paused_at := t\<rparr>) = is_cancelled i"
  "is_clawback_enabled (i\<lparr>recipient := x1\<rparr>) = is_clawback_enabled i"
  "is_clawback_enabled (i\<lparr>start_time := t\<rparr>) = is_clawback_enabled i"
  "is_clawback_enabled (i\<lparr>end_time := t\<rparr>) = is_clawback_enabled i"
  "is_clawback_enabled (i\<lparr>withdrawn := a\<rparr>) = is_clawback_enabled i"
  "is_clawback_enabled (i\<lparr>paused_at := t\<rparr>) = is_clawback_enabled i"
  by (simp_all add: flag_tests)

end
