(* ===== verification/Stream_State.thy ===== *)
theory Stream_State
  imports Stream_Types
begin

text \<open>
  \<open>contracts/stream/src/state.rs\<close> and \<open>ttl.rs\<close>: the whole stream is kept as one struct under
  the key \<open>Config\<close>, with the individual keys of the older layout kept in step. \<open>load\<close>
  prefers \<open>Config\<close> and falls back to the individual keys.
\<close>

section \<open>Time to live\<close>

definition STREAM_TTL_THRESHOLD :: u32 where
  "STREAM_TTL_THRESHOLD = 100000"

definition STREAM_TTL_EXTEND_TO :: u32 where
  "STREAM_TTL_EXTEND_TO = 200000"

definition stream_ttl_bump :: "('w, unit) stream_tx" where
  "stream_ttl_bump = instance_extend_ttl STREAM_TTL_THRESHOLD STREAM_TTL_EXTEND_TO"

section \<open>Load and save\<close>

definition unwrap_key :: "(stream_val \<Rightarrow> 'a option) \<Rightarrow> stream_key \<Rightarrow> ('w, 'a) stream_tx" where
  "unwrap_key dec k = bind (instance_get dec k) (\<lambda>x. expect x UnwrapNone)"

definition state_load_legacy :: "('w, stream_info) stream_tx" where
  "state_load_legacy =
     bind (instance_get as_u32 Flags) (\<lambda>f0.
     bind (instance_get as_bool ClawbackEnabled) (\<lambda>claw.
     bind (instance_get as_bool Cancelled) (\<lambda>canc.
     let f1 = unwrap_or f0 0;
         f2 = (if unwrap_or claw False then f1 OR FLAG_CLAWBACK_ENABLED else f1);
         f3 = (if unwrap_or canc False then f2 OR FLAG_CANCELLED else f2) in
     bind (unwrap_key as_address Sender) (\<lambda>s.
     bind (unwrap_key as_address Recipient) (\<lambda>r.
     bind (unwrap_key as_address Token) (\<lambda>tk.
     bind (unwrap_key as_i128 RatePerSecond) (\<lambda>rate.
     bind (unwrap_key as_u64 StartTime) (\<lambda>t0.
     bind (unwrap_key as_u64 EndTime) (\<lambda>t1.
     bind (instance_get as_i128 Withdrawn) (\<lambda>wd.
     bind (instance_get as_u64 PausedAt) (\<lambda>pa.
     return \<lparr>sender = s, recipient = r, token = tk, rate_per_second = rate, start_time = t0,
       end_time = t1, withdrawn = unwrap_or wd 0, paused_at = unwrap_or pa 0,
       flags = f3\<rparr>)))))))))))"

definition state_load :: "('w, stream_info) stream_tx" where
  "state_load =
     bind (instance_has Config) (\<lambda>has.
     bind (if has then instance_get as_struct Config else return None) (\<lambda>fast.
     case fast of Some info \<Rightarrow> return info | None \<Rightarrow> state_load_legacy))"

definition state_save :: "stream_info \<Rightarrow> ('w, unit) stream_tx" where
  "state_save info =
     bind (instance_set Config (VStruct info)) (\<lambda>_.
     bind (instance_set Sender (VAddress (sender info))) (\<lambda>_.
     bind (instance_set Recipient (VAddress (recipient info))) (\<lambda>_.
     bind (instance_set Token (VAddress (token info))) (\<lambda>_.
     bind (instance_set RatePerSecond (VI128 (rate_per_second info))) (\<lambda>_.
     bind (instance_set StartTime (VU64 (start_time info))) (\<lambda>_.
     bind (instance_set EndTime (VU64 (end_time info))) (\<lambda>_.
     bind (instance_set Withdrawn (VI128 (withdrawn info))) (\<lambda>_.
     bind (instance_set PausedAt (VU64 (paused_at info))) (\<lambda>_.
     instance_set Flags (VU32 (flags info)))))))))))"

definition state_save_withdrawn :: "i128 \<Rightarrow> ('w, unit) stream_tx" where
  "state_save_withdrawn amount =
     bind state_load (\<lambda>info.
     state_save (info\<lparr>withdrawn := amount\<rparr>))"

definition state_set_paused :: "bool \<Rightarrow> ('w, unit) stream_tx" where
  "state_set_paused paused =
     bind state_load (\<lambda>info.
     state_save (if paused then info\<lparr>flags := flags info OR FLAG_PAUSED\<rparr>
                 else info\<lparr>flags := flags info AND NOT FLAG_PAUSED\<rparr>))"

definition state_set_cancelled :: "('w, unit) stream_tx" where
  "state_set_cancelled =
     bind state_load (\<lambda>info.
     state_save (info\<lparr>flags := flags info OR FLAG_CANCELLED\<rparr>))"

definition assert_not_cancelled :: "stream_info \<Rightarrow> ('w, unit) stream_tx" where
  "assert_not_cancelled info = (if is_cancelled info then fail (Err StreamCancelled) else return ())"

section \<open>What is stored\<close>

text \<open>
  \<open>saved_keys i m\<close> is the store \<open>m\<close> after writing the struct \<open>i\<close>. \<open>holds i n m\<close> says that
  the store is that of an initialized stream in the current layout: the struct \<open>i\<close>, every
  individual key in step with it, the event counter \<open>n\<close>, and neither of the two keys that only
  the older layout wrote.
\<close>

definition saved_keys ::
  "stream_info \<Rightarrow> (stream_key \<Rightarrow> stream_val option) \<Rightarrow> (stream_key \<Rightarrow> stream_val option)" where
  "saved_keys i m = m(
     Config \<mapsto> VStruct i, Sender \<mapsto> VAddress (sender i), Recipient \<mapsto> VAddress (recipient i),
     Token \<mapsto> VAddress (token i), RatePerSecond \<mapsto> VI128 (rate_per_second i),
     StartTime \<mapsto> VU64 (start_time i), EndTime \<mapsto> VU64 (end_time i),
     Withdrawn \<mapsto> VI128 (withdrawn i), PausedAt \<mapsto> VU64 (paused_at i), Flags \<mapsto> VU32 (flags i))"

definition holds :: "stream_info \<Rightarrow> u64 \<Rightarrow> (stream_key \<Rightarrow> stream_val option) \<Rightarrow> bool" where
  "holds i n m \<longleftrightarrow> m = saved_keys i [EventSequence \<mapsto> VU64 n]"

lemma state_save_eq: "state_save i h = Inr ((), h\<lparr>instance_store := saved_keys i (instance_store h)\<rparr>)"
  by (simp add: state_save_def tx_simps saved_keys_def)

lemma state_save_Inr_iff [tx_simps]:
  "state_save i h = Inr r \<longleftrightarrow> r = ((), h\<lparr>instance_store := saved_keys i (instance_store h)\<rparr>)"
  by (auto simp: state_save_eq)

lemma saved_keys_Config [simp]: "saved_keys i m Config = Some (VStruct i)"
  by (simp add: saved_keys_def)

lemma saved_keys_EventSequence [simp]: "saved_keys i m EventSequence = m EventSequence"
  by (simp add: saved_keys_def)

lemma saved_keys_twice [simp]: "saved_keys i (saved_keys j m) = saved_keys i m"
  by (auto simp: saved_keys_def fun_eq_iff)

lemma saved_keys_upd_EventSequence:
  "(saved_keys i m)(EventSequence \<mapsto> v) = saved_keys i (m(EventSequence \<mapsto> v))"
  by (auto simp: saved_keys_def fun_eq_iff)

lemma state_load_Config:
  "instance_store h Config = Some (VStruct i) \<Longrightarrow> state_load h = Inr (i, h)"
  by (simp add: state_load_def tx_eval host_eval)

lemma holds_load: "holds i n (instance_store h) \<Longrightarrow> state_load h = Inr (i, h)"
  by (simp add: holds_def state_load_Config)

lemma holds_saved: "holds i n m \<Longrightarrow> holds j n (saved_keys j m)"
  by (simp add: holds_def)

lemma holds_sequence: "holds i n m \<Longrightarrow> holds i n' (m(EventSequence \<mapsto> VU64 n'))"
  by (auto simp: holds_def saved_keys_def fun_eq_iff)

lemma holds_EventSequence: "holds i n m \<Longrightarrow> m EventSequence = Some (VU64 n)"
  by (simp add: holds_def)

lemma holds_inject: "holds i n m \<Longrightarrow> holds j k m \<Longrightarrow> i = j \<and> n = k"
  unfolding holds_def
  by (metis saved_keys_Config saved_keys_EventSequence fun_upd_same option.inject
      stored.inject)

text \<open>The individual keys of the older layout read back as the same struct.\<close>

lemma state_load_legacy_holds:
  assumes "holds i n m"
  shows "state_load_legacy (h\<lparr>instance_store := m(Config := None)\<rparr>) =
    Inr (i, h\<lparr>instance_store := m(Config := None)\<rparr>)"
  using assms
  by (simp add: holds_def saved_keys_def state_load_legacy_def unwrap_key_def tx_simps Let_def)

section \<open>The interface of the state module\<close>

text \<open>
  What the entry points rely on: saving always succeeds, reading gives back the last value saved,
  reading changes nothing, a later save replaces an earlier one, and everything else
  (\<open>frame\<close>) is left alone.
\<close>

locale struct_store =
  fixes load :: "('h, 'e, 'a) tx"
    and save :: "'a \<Rightarrow> ('h, 'e, unit) tx"
    and frame :: "'h \<Rightarrow> 'f"
  assumes save_total: "\<exists>h'. save a h = Inr ((), h')"
    and load_after_save: "save a h = Inr (u, h') \<Longrightarrow> load h' = Inr (a, h')"
    and load_pure: "load h = Inr (a, h') \<Longrightarrow> h' = h"
    and save_replaces: "save a h = Inr (u, h') \<Longrightarrow> save b h' = save b h"
    and save_frame: "save a h = Inr (u, h') \<Longrightarrow> frame h' = frame h"
begin

lemma update_loads:
  assumes "load h = Inr (a, h)" and "bind load (\<lambda>x. save (f x)) h = Inr (u, h')"
  shows "load h' = Inr (f a, h') \<and> frame h' = frame h"
  using assms load_after_save save_frame by (fastforce simp: tx_simps)

lemma update_total:
  assumes "load h = Inr (a, h)"
  shows "\<exists>h'. bind load (\<lambda>x. save (f x)) h = Inr ((), h')"
  using assms save_total by (simp add: tx_simps)

lemma update_update:
  assumes "load h = Inr (a, h)" and "bind load (\<lambda>x. save (f x)) h = Inr (u, h1)"
  shows "bind load (\<lambda>x. save (g x)) h1 = save (g (f a)) h"
proof -
  from assms have saved: "save (f a) h = Inr (u, h1)" by (auto simp: tx_simps)
  then have "load h1 = Inr (f a, h1)" by (rule load_after_save)
  then show ?thesis using saved by (simp add: tx_eval save_replaces)
qed

end

lemma state_load_pure: "state_load h = Inr (i, h') \<Longrightarrow> h' = h"
  by (auto simp: state_load_def state_load_legacy_def unwrap_key_def tx_simps Let_def
      split: option.splits if_splits)

interpretation stream_store: struct_store state_load state_save
  "\<lambda>h. (h\<lparr>instance_store := (\<lambda>_. None)\<rparr>, instance_store h EventSequence, instance_store h Cancelled,
        instance_store h ClawbackEnabled)"
  by unfold_locales
    (auto simp: state_save_Inr_iff state_save_eq state_load_Config state_load_pure saved_keys_def)

end
