(* ===== verification/Stream_Math.thy ===== *)
theory Stream_Math
  imports Stream_State
begin

text \<open>
  \<open>contracts/stream/src/math.rs\<close>: how much has been streamed and how much of it can be withdrawn.
\<close>

definition math_streamed_amount :: "('w, 'n) env_scheme \<Rightarrow> stream_info \<Rightarrow> stream_error + i128" where
  "math_streamed_amount env info =
     (let now = ledger_timestamp env in
      if now < start_time info then Inr 0
      else
        let effective_now =
          (if 0 < end_time info \<and> end_time info < now then end_time info
           else if is_paused info then paused_at info
           else now) in
        case checked_sub_u effective_now (start_time info) of
          None \<Rightarrow> Inl ArithmeticOverflow
        | Some elapsed \<Rightarrow>
            (case checked_mul_i128 (rate_per_second info) (u64_as_i128 elapsed) of
               None \<Rightarrow> Inl ArithmeticOverflow
             | Some streamed \<Rightarrow> Inr streamed))"

definition math_withdrawable :: "('w, 'n) env_scheme \<Rightarrow> stream_info \<Rightarrow> stream_error + i128" where
  "math_withdrawable env info =
     (case math_streamed_amount env info of
        Inl e \<Rightarrow> Inl e
      | Inr streamed \<Rightarrow>
          (let available = saturating_sub_i128 streamed (withdrawn info) in
           Inr (max_i128 available 0)))"

section \<open>Reading the result\<close>

text \<open>The instant up to which the stream accrues, once it has started.\<close>

definition accrual_time :: "u64 \<Rightarrow> stream_info \<Rightarrow> u64" where
  "accrual_time now info =
     (if 0 < end_time info \<and> end_time info < now then end_time info
      else if is_paused info then paused_at info else now)"

text \<open>What has accrued, as a mathematical integer.\<close>

definition accrued :: "u64 \<Rightarrow> stream_info \<Rightarrow> int" where
  "accrued now info =
     (if now < start_time info then 0
      else sint (rate_per_second info) *
        (uint (accrual_time now info) - uint (start_time info)))"

lemma streamed_amount_Inr_iff:
  "math_streamed_amount env info = Inr s \<longleftrightarrow>
     sint s = accrued (ledger_timestamp env) info \<and>
     (start_time info \<le> ledger_timestamp env \<longrightarrow>
        start_time info \<le> accrual_time (ledger_timestamp env) info)"
proof (cases "ledger_timestamp env < start_time info")
  case True
  then show ?thesis
    by (auto simp: math_streamed_amount_def accrued_def i128_eq_iff Let_def)
next
  case False
  let ?e = "accrual_time (ledger_timestamp env) info"
  have "math_streamed_amount env info =
     (case checked_sub_u ?e (start_time info) of
          None \<Rightarrow> Inl ArithmeticOverflow
        | Some elapsed \<Rightarrow>
            (case checked_mul_i128 (rate_per_second info) (u64_as_i128 elapsed) of
               None \<Rightarrow> Inl ArithmeticOverflow
             | Some streamed \<Rightarrow> Inr streamed))"
    using False by (simp add: math_streamed_amount_def accrual_time_def Let_def)
  also have "\<dots> = Inr s \<longleftrightarrow>
      (\<exists>d. checked_sub_u ?e (start_time info) = Some d \<and>
           checked_mul_i128 (rate_per_second info) (u64_as_i128 d) = Some s)"
    by (auto split: option.splits)
  also have "\<dots> \<longleftrightarrow> start_time info \<le> ?e \<and> sint s = accrued (ledger_timestamp env) info"
    using False
    by (auto simp: checked_sub_u_def checked_mul_i128_def i128_of_Some_iff accrued_def word_le_def
        uint_minus_le)
  finally show ?thesis using False by auto
qed

lemma streamed_amount_Inl_iff:
  "math_streamed_amount env info = Inl e \<longleftrightarrow>
     e = ArithmeticOverflow \<and> start_time info \<le> ledger_timestamp env \<and>
     (accrual_time (ledger_timestamp env) info < start_time info \<or>
      \<not> i128_fits (accrued (ledger_timestamp env) info))"
proof (cases "math_streamed_amount env info")
  case (Inl e')
  then have e': "e' = ArithmeticOverflow"
    by (auto simp: math_streamed_amount_def Let_def split: if_splits option.splits)
  have started: "start_time info \<le> ledger_timestamp env"
    using Inl by (auto simp: math_streamed_amount_def Let_def not_less split: if_splits)
  let ?a = "accrued (ledger_timestamp env) info"
  have "\<not> (sint (word_of_int ?a :: i128) = ?a \<and>
      start_time info \<le> accrual_time (ledger_timestamp env) info)"
    using Inl started streamed_amount_Inr_iff [of env info "word_of_int ?a"] by simp
  then show ?thesis
    using Inl e' started by (auto simp: sint_word_of_int_fits not_le)
next
  case (Inr s)
  then have "i128_fits (accrued (ledger_timestamp env) info)"
    using streamed_amount_Inr_iff [of env info s] i128_fits_sint [of s] by simp
  then show ?thesis
    using Inr streamed_amount_Inr_iff [of env info s] by auto
qed

lemma withdrawable_Inr_iff:
  assumes "0 \<le> sint (withdrawn info)"
  shows "math_withdrawable env info = Inr a \<longleftrightarrow>
    (\<exists>s. math_streamed_amount env info = Inr s \<and> sint a = max 0 (sint s - sint (withdrawn info)))"
  using assms max0_saturating_sub_i128 [OF assms]
  by (auto simp: math_withdrawable_def Let_def i128_eq_iff sint_minmax max.commute split: sum.splits)

text \<open>While a stream is not paused, what has accrued never decreases.\<close>

lemma accrual_time_mono:
  "\<not> is_paused info \<Longrightarrow> t \<le> t' \<Longrightarrow> accrual_time t info \<le> accrual_time t' info"
  by (auto simp: accrual_time_def)

lemma accrued_nonneg:
  assumes "0 \<le> sint (rate_per_second info)"
    and "start_time info \<le> now \<Longrightarrow> start_time info \<le> accrual_time now info"
  shows "0 \<le> accrued now info"
  using assms by (auto simp: accrued_def word_le_def word_less_alt intro!: mult_nonneg_nonneg)

end
