(* ===== verification/Stream_Events.thy ===== *)
theory Stream_Events
  imports Stream_State
begin

text \<open>
  \<open>contracts/stream/src/events.rs\<close>: every event carries the next value of a counter that lives in
  the contract's own storage, so that a consumer can see that it has missed one.
\<close>

definition next_sequence :: "('w, u64) stream_tx" where
  "next_sequence =
     bind (instance_get as_u64 EventSequence) (\<lambda>x.
     let current = unwrap_or x 0 in
     case checked_add_u current 1 of
       None \<Rightarrow> fail (Err ArithmeticOverflow)
     | Some nxt \<Rightarrow>
         bind (instance_set EventSequence (VU64 nxt)) (\<lambda>_.
         return nxt))"

definition event_withdrawn :: "address \<Rightarrow> i128 \<Rightarrow> i128 \<Rightarrow> i128 \<Rightarrow> ('w, unit) stream_tx" where
  "event_withdrawn rcp amount total_withdrawn remaining =
     bind next_sequence (\<lambda>sequence.
     publish (WithdrawnEvent rcp sequence amount total_withdrawn remaining))"

definition event_cancelled :: "address \<Rightarrow> i128 \<Rightarrow> i128 \<Rightarrow> ('w, unit) stream_tx" where
  "event_cancelled sndr refund_amount withdrawn_so_far =
     bind next_sequence (\<lambda>sequence.
     publish (CancelledEvent sndr sequence refund_amount withdrawn_so_far))"

definition event_paused :: "address \<Rightarrow> u64 \<Rightarrow> i128 \<Rightarrow> ('w, unit) stream_tx" where
  "event_paused sndr at available =
     bind next_sequence (\<lambda>sequence.
     publish (PausedEvent sndr sequence at available))"

definition event_resumed :: "address \<Rightarrow> u64 \<Rightarrow> ('w, unit) stream_tx" where
  "event_resumed sndr at =
     bind next_sequence (\<lambda>sequence.
     publish (ResumedEvent sndr sequence at))"

definition event_topped_up :: "address \<Rightarrow> i128 \<Rightarrow> i128 \<Rightarrow> ('w, unit) stream_tx" where
  "event_topped_up sndr amount new_balance =
     bind next_sequence (\<lambda>sequence.
     publish (ToppedUpEvent sndr sequence amount new_balance))"

definition event_clawback :: "address \<Rightarrow> i128 \<Rightarrow> ('w, unit) stream_tx" where
  "event_clawback sndr amount =
     bind next_sequence (\<lambda>sequence.
     publish (ClawbackEvent sndr sequence amount))"

definition event_recipient_transferred :: "address \<Rightarrow> address \<Rightarrow> ('w, unit) stream_tx" where
  "event_recipient_transferred old_recipient new_recipient =
     bind next_sequence (\<lambda>sequence.
     publish (RecipientTransferredEvent old_recipient sequence new_recipient))"

section \<open>One event\<close>

text \<open>
  \<open>emitted i mk h h'\<close>: from a store that holds the struct \<open>i\<close>, the counter moves on by one
  and the event \<open>mk\<close> of the new count is appended to the log; nothing else changes.
\<close>

definition emitted ::
  "(u64 \<Rightarrow> stream_event) \<Rightarrow> stream_info \<Rightarrow> u64 \<Rightarrow> 'w stream_host \<Rightarrow> 'w stream_host \<Rightarrow> bool" where
  "emitted mk i n h h' \<longleftrightarrow>
     uint n + 1 < 2 ^ 64 \<and>
     h' = h\<lparr>instance_store := saved_keys i [EventSequence \<mapsto> VU64 (n + 1)],
            event_log := event_log h @ [mk (n + 1)]\<rparr>"

lemma next_sequence_Inr_iff:
  assumes "holds i n (instance_store h)"
  shows "next_sequence h = Inr r \<longleftrightarrow>
    uint n + 1 < 2 ^ 64 \<and>
    r = (n + 1, h\<lparr>instance_store := saved_keys i [EventSequence \<mapsto> VU64 (n + 1)]\<rparr>)"
proof -
  have stored: "instance_store h = saved_keys i [EventSequence \<mapsto> VU64 n]"
    using assms by (simp add: holds_def)
  have "(instance_store h)(EventSequence \<mapsto> v) = saved_keys i [EventSequence \<mapsto> v]" for v
    by (simp add: stored saved_keys_upd_EventSequence)
  then show ?thesis
    by (auto simp: next_sequence_def tx_eval host_eval stored checked_add_u_def
        saved_keys_upd_EventSequence)
qed

lemma event_Inr_iff:
  assumes "holds i n (instance_store h)"
  shows "bind next_sequence (\<lambda>sequence. publish (mk sequence)) h = Inr (u, h') \<longleftrightarrow> emitted mk i n h h'"
  using assms by (auto simp: tx_simps next_sequence_Inr_iff emitted_def)

lemmas event_defs = event_withdrawn_def event_cancelled_def event_paused_def event_resumed_def
  event_topped_up_def event_clawback_def event_recipient_transferred_def

end
