(* ===== verification/Stream_Contract.thy ===== *)
theory Stream_Contract
  imports Stream_Math Stream_Events
begin

text \<open>
  The entry points of \<open>contracts/stream/src/lib.rs\<close>, in the order of the source, every check and
  every write in its place.
\<close>

definition stream_initialize ::
  "address \<Rightarrow> address \<Rightarrow> address \<Rightarrow> i128 \<Rightarrow> u64 \<Rightarrow> u64 \<Rightarrow> bool \<Rightarrow> ('w, unit) stream_tx" where
  "stream_initialize sndr rcp tok rate t0 t1 clawback =
     bind (instance_has Config) (\<lambda>initialized.
     bind (ensure (\<not> initialized) AlreadyInitialized) (\<lambda>_.
     bind (ensure (0 < sint rate) InvalidAmount) (\<lambda>_.
     bind (ensure (\<not> (0 < t1 \<and> t1 \<le> t0)) InvalidTimeRange) (\<lambda>_.
     bind stream_ttl_bump (\<lambda>_.
     let fl = (if clawback then 0 OR FLAG_CLAWBACK_ENABLED else 0) in
     bind (instance_set Sender (VAddress sndr)) (\<lambda>_.
     bind (instance_set Recipient (VAddress rcp)) (\<lambda>_.
     bind (instance_set Token (VAddress tok)) (\<lambda>_.
     bind (instance_set RatePerSecond (VI128 rate)) (\<lambda>_.
     bind (instance_set StartTime (VU64 t0)) (\<lambda>_.
     bind (instance_set EndTime (VU64 t1)) (\<lambda>_.
     bind (instance_set Withdrawn (VI128 0)) (\<lambda>_.
     bind (instance_set PausedAt (VU64 0)) (\<lambda>_.
     bind (instance_set Flags (VU32 fl)) (\<lambda>_.
     bind (instance_set EventSequence (VU64 0)) (\<lambda>_.
     state_save \<lparr>sender = sndr, recipient = rcp, token = tok, rate_per_second = rate,
       start_time = t0, end_time = t1, withdrawn = 0, paused_at = 0, flags = fl\<rparr>)))))))))))))))"

definition stream_withdraw :: "('w, 'n) env_scheme \<Rightarrow> i128 \<Rightarrow> ('w, i128) stream_tx" where
  "stream_withdraw env amount =
     bind (ensure (\<not> sint amount \<le> 0) InvalidAmount) (\<lambda>_.
     bind stream_ttl_bump (\<lambda>_.
     bind state_load (\<lambda>info.
     bind (assert_not_cancelled info) (\<lambda>_.
     bind (require_auth env (recipient info)) (\<lambda>_.
     bind (lift_result (math_withdrawable env info)) (\<lambda>available.
     bind (ensure (available \<noteq> 0) NothingToWithdraw) (\<lambda>_.
     let to_send = min_i128 amount available in
     bind (ok_or (checked_add_i128 (withdrawn info) to_send) ArithmeticOverflow) (\<lambda>new_withdrawn.
     bind (state_save_withdrawn new_withdrawn) (\<lambda>_.
     let contract_addr = current_contract_address env in
     bind (tk_balance env (token info) contract_addr) (\<lambda>balance.
     bind (expect (checked_sub_i128 balance to_send) ArithmeticPanic) (\<lambda>remaining.
     bind (tk_transfer env (token info) contract_addr (recipient info) to_send) (\<lambda>_.
     bind (event_withdrawn (recipient info) to_send new_withdrawn remaining) (\<lambda>_.
     return to_send)))))))))))))"

text \<open>
  \<open>cancel\<close> and \<open>force_cancel\<close> settle in the same way; the shared part of the two bodies, from
  \<open>token::Client::new\<close> on, is written once.
\<close>

definition stream_settle :: "('w, 'n) env_scheme \<Rightarrow> stream_info \<Rightarrow> ('w, unit) stream_tx" where
  "stream_settle env info =
     (let contract_addr = current_contract_address env in
      bind (tk_balance env (token info) contract_addr) (\<lambda>balance.
      bind (lift_result (math_streamed_amount env info)) (\<lambda>streamed.
      bind (expect (checked_sub_i128 streamed (withdrawn info)) ArithmeticPanic) (\<lambda>earned.
      let owed_to_recipient = min_i128 (max_i128 earned 0) balance in
      bind (expect (checked_sub_i128 balance owed_to_recipient) ArithmeticPanic) (\<lambda>rest.
      let refund_to_sender = max_i128 rest 0 in
      bind state_set_cancelled (\<lambda>_.
      bind (state_save (info\<lparr>flags := flags info OR FLAG_CANCELLED\<rparr>)) (\<lambda>_.
      bind (when_tx (0 < sint owed_to_recipient)
              (tk_transfer env (token info) contract_addr (recipient info) owed_to_recipient)) (\<lambda>_.
      bind (when_tx (0 < sint refund_to_sender)
              (tk_transfer env (token info) contract_addr (sender info) refund_to_sender)) (\<lambda>_.
      event_cancelled (sender info) refund_to_sender (withdrawn info))))))))))"

definition stream_cancel :: "('w, 'n) env_scheme \<Rightarrow> ('w, unit) stream_tx" where
  "stream_cancel env =
     bind stream_ttl_bump (\<lambda>_.
     bind state_load (\<lambda>info.
     bind (assert_not_cancelled info) (\<lambda>_.
     bind (require_auth env (sender info)) (\<lambda>_.
     stream_settle env info))))"

definition stream_pause :: "('w, 'n) env_scheme \<Rightarrow> ('w, unit) stream_tx" where
  "stream_pause env =
     bind stream_ttl_bump (\<lambda>_.
     bind state_load (\<lambda>info.
     bind (assert_not_cancelled info) (\<lambda>_.
     bind (ensure (\<not> is_paused info) AlreadyPaused) (\<lambda>_.
     bind (require_auth env (sender info)) (\<lambda>_.
     let now = ledger_timestamp env in
     bind (lift_result (math_withdrawable env info)) (\<lambda>w.
     bind (state_save (info\<lparr>flags := flags info OR FLAG_PAUSED, paused_at := now\<rparr>)) (\<lambda>_.
     event_paused (sender info) now w)))))))"

definition stream_resume :: "('w, 'n) env_scheme \<Rightarrow> ('w, unit) stream_tx" where
  "stream_resume env =
     bind stream_ttl_bump (\<lambda>_.
     bind state_load (\<lambda>info.
     bind (assert_not_cancelled info) (\<lambda>_.
     bind (ensure (is_paused info) NotPaused) (\<lambda>_.
     bind (require_auth env (sender info)) (\<lambda>_.
     let now = ledger_timestamp env in
     bind (expect (checked_sub_u now (paused_at info)) ArithmeticPanic) (\<lambda>paused_duration.
     bind (expect (checked_add_u (start_time info) paused_duration) ArithmeticPanic) (\<lambda>new_start.
     let updated = info\<lparr>start_time := new_start, flags := flags info AND NOT FLAG_PAUSED,
       paused_at := 0\<rparr> in
     bind (if 0 < end_time info
           then expect (checked_add_u (end_time info) paused_duration) ArithmeticPanic
           else return (end_time info)) (\<lambda>new_end.
     bind (state_save (updated\<lparr>end_time := new_end\<rparr>)) (\<lambda>_.
     event_resumed (sender info) now)))))))))"

definition stream_top_up :: "('w, 'n) env_scheme \<Rightarrow> i128 \<Rightarrow> ('w, unit) stream_tx" where
  "stream_top_up env amount =
     bind (ensure (\<not> sint amount \<le> 0) InvalidAmount) (\<lambda>_.
     bind state_load (\<lambda>info.
     bind (require_auth env (sender info)) (\<lambda>_.
     bind stream_ttl_bump (\<lambda>_.
     bind (assert_not_cancelled info) (\<lambda>_.
     let contract_addr = current_contract_address env in
     bind (tk_transfer env (token info) (sender info) contract_addr amount) (\<lambda>_.
     bind (tk_balance env (token info) contract_addr) (\<lambda>new_balance.
     event_topped_up (sender info) amount new_balance)))))))"

definition stream_extend_duration :: "('w, 'n) env_scheme \<Rightarrow> u64 \<Rightarrow> ('w, unit) stream_tx" where
  "stream_extend_duration env extra_time_seconds =
     bind (ensure (extra_time_seconds \<noteq> 0) InvalidTimeRange) (\<lambda>_.
     bind stream_ttl_bump (\<lambda>_.
     bind state_load (\<lambda>info.
     bind (assert_not_cancelled info) (\<lambda>_.
     bind (require_auth env (sender info)) (\<lambda>_.
     bind (ensure (end_time info \<noteq> 0) InvalidTimeRange) (\<lambda>_.
     bind (ok_or (checked_mul_i128 (u64_as_i128 extra_time_seconds) (rate_per_second info))
             ArithmeticOverflow) (\<lambda>required_deposit.
     let contract_addr = current_contract_address env in
     bind (tk_transfer env (token info) (sender info) contract_addr required_deposit) (\<lambda>_.
     bind (ok_or (checked_add_u (end_time info) extra_time_seconds) ArithmeticOverflow) (\<lambda>new_end.
     bind (state_save (info\<lparr>end_time := new_end\<rparr>)) (\<lambda>_.
     bind (tk_balance env (token info) contract_addr) (\<lambda>new_balance.
     event_topped_up (sender info) required_deposit new_balance)))))))))))"

definition stream_clawback :: "('w, 'n) env_scheme \<Rightarrow> ('w, i128) stream_tx" where
  "stream_clawback env =
     bind stream_ttl_bump (\<lambda>_.
     bind state_load (\<lambda>info.
     bind (assert_not_cancelled info) (\<lambda>_.
     bind (ensure (is_clawback_enabled info) ClawbackDisabled) (\<lambda>_.
     bind (require_auth env (sender info)) (\<lambda>_.
     bind (lift_result (math_streamed_amount env info)) (\<lambda>streamed.
     bind (expect (checked_sub_i128 streamed (withdrawn info)) ArithmeticPanic) (\<lambda>earned.
     let owed = max_i128 earned 0; contract_addr = current_contract_address env in
     bind (tk_balance env (token info) contract_addr) (\<lambda>balance.
     bind (expect (checked_sub_i128 balance owed) ArithmeticPanic) (\<lambda>rest.
     let amount = max_i128 rest 0 in
     bind (when_tx (0 < sint amount)
             (tk_transfer env (token info) contract_addr (sender info) amount)) (\<lambda>_.
     bind (event_clawback (sender info) amount) (\<lambda>_.
     return amount)))))))))))"

definition stream_withdrawable :: "('w, 'n) env_scheme \<Rightarrow> ('w, i128) stream_tx" where
  "stream_withdrawable env =
     bind state_load (\<lambda>info.
     return (if is_cancelled info then 0 else result_unwrap_or (math_withdrawable env info) 0))"

definition PAUSE_THRESHOLD_SECS :: u64 where
  "PAUSE_THRESHOLD_SECS = 2592000"

definition stream_force_cancel :: "('w, 'n) env_scheme \<Rightarrow> ('w, unit) stream_tx" where
  "stream_force_cancel env =
     bind stream_ttl_bump (\<lambda>_.
     bind state_load (\<lambda>info.
     bind (assert_not_cancelled info) (\<lambda>_.
     bind (ensure (is_paused info) NotPaused) (\<lambda>_.
     let paused_secs = saturating_sub_u (ledger_timestamp env) (paused_at info) in
     bind (ensure (\<not> paused_secs < PAUSE_THRESHOLD_SECS) PauseThresholdNotMet) (\<lambda>_.
     bind (require_auth env (recipient info)) (\<lambda>_.
     stream_settle env info))))))"

definition stream_transfer_recipient :: "('w, 'n) env_scheme \<Rightarrow> address \<Rightarrow> ('w, unit) stream_tx" where
  "stream_transfer_recipient env new_recipient =
     bind stream_ttl_bump (\<lambda>_.
     bind state_load (\<lambda>info.
     bind (assert_not_cancelled info) (\<lambda>_.
     bind (require_auth env (recipient info)) (\<lambda>_.
     bind (state_save (info\<lparr>recipient := new_recipient\<rparr>)) (\<lambda>_.
     event_recipient_transferred (recipient info) new_recipient)))))"

definition stream_streamed_total :: "('w, 'n) env_scheme \<Rightarrow> ('w, i128) stream_tx" where
  "stream_streamed_total env =
     bind state_load (\<lambda>info.
     return (if is_cancelled info then 0 else result_unwrap_or (math_streamed_amount env info) 0))"

definition stream_get_info :: "('w, stream_info) stream_tx" where
  "stream_get_info = state_load"

definition stream_event_sequence :: "('w, u64) stream_tx" where
  "stream_event_sequence =
     bind (instance_get as_u64 EventSequence) (\<lambda>x. return (unwrap_or x 0))"

end
