(* ===== verification/Stream_Step.thy ===== *)
theory Stream_Step
  imports Stream_Contract
begin

text \<open>
  The state machine of one stream. \<open>stream_exec\<close> dispatches a call to its entry point;
  \<open>stream_step\<close> is the abstract specification: a step relation on the stream's struct and the
  token world, one rule per entry point, with no storage, no event counter and no failure.
  \<open>stream_exec_iff_step\<close> shows that the entry points implement it.
\<close>

section \<open>Calls\<close>

datatype stream_call =
    Withdraw i128
  | Cancel
  | Pause
  | Resume
  | TopUp i128
  | ExtendDuration u64
  | Clawback
  | ForceCancel
  | TransferRecipient address

datatype call_result = Done | Amount i128

definition done_tx :: "('h, 'err, unit) tx \<Rightarrow> ('h, 'err, call_result) tx" where
  "done_tx m = bind m (\<lambda>_. return Done)"

definition amount_tx :: "('h, 'err, i128) tx \<Rightarrow> ('h, 'err, call_result) tx" where
  "amount_tx m = bind m (\<lambda>a. return (Amount a))"

fun stream_exec :: "('w, 'n) env_scheme \<Rightarrow> stream_call \<Rightarrow> ('w, call_result) stream_tx" where
  "stream_exec env (Withdraw amount) = amount_tx (stream_withdraw env amount)"
| "stream_exec env Cancel = done_tx (stream_cancel env)"
| "stream_exec env Pause = done_tx (stream_pause env)"
| "stream_exec env Resume = done_tx (stream_resume env)"
| "stream_exec env (TopUp amount) = done_tx (stream_top_up env amount)"
| "stream_exec env (ExtendDuration secs) = done_tx (stream_extend_duration env secs)"
| "stream_exec env Clawback = amount_tx (stream_clawback env)"
| "stream_exec env ForceCancel = done_tx (stream_force_cancel env)"
| "stream_exec env (TransferRecipient rcp) = done_tx (stream_transfer_recipient env rcp)"

lemma done_tx_Inr_iff [tx_simps]:
  "done_tx m h = Inr r \<longleftrightarrow> (\<exists>h'. m h = Inr ((), h') \<and> r = (Done, h'))"
  by (auto simp: done_tx_def tx_simps)

lemma amount_tx_Inr_iff [tx_simps]:
  "amount_tx m h = Inr r \<longleftrightarrow> (\<exists>a h'. m h = Inr (a, h') \<and> r = (Amount a, h'))"
  by (auto simp: amount_tx_def tx_simps)

section \<open>The abstract step relation\<close>

text \<open>The contract pays nothing when there is nothing to pay.\<close>

definition pay :: "'w token_ops \<Rightarrow> 'w \<Rightarrow> address \<Rightarrow> address \<Rightarrow> address \<Rightarrow> i128 \<Rightarrow> 'w option" where
  "pay T w tk src dst a = (if 0 < sint a then token_transfer T w tk src dst a else Some w)"

text \<open>What the contract holds of the stream's token.\<close>

definition escrow :: "('w, 'n) env_scheme \<Rightarrow> stream_info \<Rightarrow> 'w \<Rightarrow> i128" where
  "escrow env i w = token_balance (token_client env) w (token i) (current_contract_address env)"

text \<open>Settlement: the recipient gets what is earned, capped by the escrow; the sender the rest.\<close>

inductive settles ::
  "('w, 'n) env_scheme \<Rightarrow> stream_info \<Rightarrow> 'w \<Rightarrow> i128 \<Rightarrow> i128 \<Rightarrow> 'w \<Rightarrow> bool" where
  settle:
    "\<lbrakk> math_streamed_amount env i = Inr s;
       sint earned = sint s - sint (withdrawn i);
       owed = min_i128 (max_i128 earned 0) (escrow env i w);
       sint rest = sint (escrow env i w) - sint owed;
       refund = max_i128 rest 0;
       pay (token_client env) w (token i) (current_contract_address env) (recipient i) owed = Some w1;
       pay (token_client env) w1 (token i) (current_contract_address env) (sender i) refund = Some w2 \<rbrakk>
     \<Longrightarrow> settles env i w owed refund w2"

inductive stream_step ::
  "('w, 'n) env_scheme \<Rightarrow> stream_info \<Rightarrow> 'w \<Rightarrow> stream_call \<Rightarrow> call_result \<Rightarrow>
     (u64 \<Rightarrow> stream_event) \<Rightarrow> stream_info \<Rightarrow> 'w \<Rightarrow> bool" for env where
  withdraw:
    "\<lbrakk> 0 < sint amount; \<not> is_cancelled i; has_authorized env (recipient i);
       math_withdrawable env i = Inr available; available \<noteq> 0;
       to_send = min_i128 amount available;
       sint new_withdrawn = sint (withdrawn i) + sint to_send;
       sint remaining = sint (escrow env i w) - sint to_send;
       token_transfer (token_client env) w (token i) (current_contract_address env)
         (recipient i) to_send = Some w' \<rbrakk>
     \<Longrightarrow> stream_step env i w (Withdraw amount) (Amount to_send)
           (\<lambda>n. WithdrawnEvent (recipient i) n to_send new_withdrawn remaining)
           (i\<lparr>withdrawn := new_withdrawn\<rparr>) w'"
| cancel:
    "\<lbrakk> \<not> is_cancelled i; has_authorized env (sender i); settles env i w owed refund w' \<rbrakk>
     \<Longrightarrow> stream_step env i w Cancel Done
           (\<lambda>n. CancelledEvent (sender i) n refund (withdrawn i))
           (i\<lparr>flags := flags i OR FLAG_CANCELLED\<rparr>) w'"
| pause:
    "\<lbrakk> \<not> is_cancelled i; \<not> is_paused i; has_authorized env (sender i);
       math_withdrawable env i = Inr a \<rbrakk>
     \<Longrightarrow> stream_step env i w Pause Done
           (\<lambda>n. PausedEvent (sender i) n (ledger_timestamp env) a)
           (i\<lparr>flags := flags i OR FLAG_PAUSED, paused_at := ledger_timestamp env\<rparr>) w"
| resume:
    "\<lbrakk> \<not> is_cancelled i; is_paused i; has_authorized env (sender i);
       uint (dur :: u64) = uint (ledger_timestamp env) - uint (paused_at i);
       uint new_start = uint (start_time i) + uint dur;
       uint new_end = (if 0 < end_time i then uint (end_time i) + uint dur else 0) \<rbrakk>
     \<Longrightarrow> stream_step env i w Resume Done
           (\<lambda>n. ResumedEvent (sender i) n (ledger_timestamp env))
           (i\<lparr>start_time := new_start, flags := flags i AND NOT FLAG_PAUSED, paused_at := 0,
              end_time := new_end\<rparr>) w"
| top_up:
    "\<lbrakk> 0 < sint amount; \<not> is_cancelled i; has_authorized env (sender i);
       token_transfer (token_client env) w (token i) (sender i)
         (current_contract_address env) amount = Some w' \<rbrakk>
     \<Longrightarrow> stream_step env i w (TopUp amount) Done
           (\<lambda>n. ToppedUpEvent (sender i) n amount (escrow env i w')) i w'"
| extend_duration:
    "\<lbrakk> 0 < secs; \<not> is_cancelled i; has_authorized env (sender i); 0 < end_time i;
       sint deposit = uint secs * sint (rate_per_second i);
       token_transfer (token_client env) w (token i) (sender i)
         (current_contract_address env) deposit = Some w';
       uint new_end = uint (end_time i) + uint secs \<rbrakk>
     \<Longrightarrow> stream_step env i w (ExtendDuration secs) Done
           (\<lambda>n. ToppedUpEvent (sender i) n deposit (escrow env i w'))
           (i\<lparr>end_time := new_end\<rparr>) w'"
| clawback:
    "\<lbrakk> \<not> is_cancelled i; is_clawback_enabled i; has_authorized env (sender i);
       math_streamed_amount env i = Inr s;
       sint earned = sint s - sint (withdrawn i);
       sint rest = sint (escrow env i w) - sint (max_i128 earned 0);
       amount = max_i128 rest 0;
       pay (token_client env) w (token i) (current_contract_address env) (sender i) amount = Some w' \<rbrakk>
     \<Longrightarrow> stream_step env i w Clawback (Amount amount)
           (\<lambda>n. ClawbackEvent (sender i) n amount) i w'"
| force_cancel:
    "\<lbrakk> \<not> is_cancelled i; is_paused i;
       uint PAUSE_THRESHOLD_SECS \<le> uint (ledger_timestamp env) - uint (paused_at i);
       has_authorized env (recipient i); settles env i w owed refund w' \<rbrakk>
     \<Longrightarrow> stream_step env i w ForceCancel Done
           (\<lambda>n. CancelledEvent (sender i) n refund (withdrawn i))
           (i\<lparr>flags := flags i OR FLAG_CANCELLED\<rparr>) w'"
| transfer_recipient:
    "\<lbrakk> \<not> is_cancelled i; has_authorized env (recipient i) \<rbrakk>
     \<Longrightarrow> stream_step env i w (TransferRecipient rcp) Done
           (\<lambda>n. RecipientTransferredEvent (recipient i) n rcp)
           (i\<lparr>recipient := rcp\<rparr>) w"

inductive_cases step_Withdraw: "stream_step env i w (Withdraw amount) r ev i' w'"
inductive_cases step_Cancel: "stream_step env i w Cancel r ev i' w'"
inductive_cases step_Pause: "stream_step env i w Pause r ev i' w'"
inductive_cases step_Resume: "stream_step env i w Resume r ev i' w'"
inductive_cases step_TopUp: "stream_step env i w (TopUp amount) r ev i' w'"
inductive_cases step_ExtendDuration: "stream_step env i w (ExtendDuration secs) r ev i' w'"
inductive_cases step_Clawback: "stream_step env i w Clawback r ev i' w'"
inductive_cases step_ForceCancel: "stream_step env i w ForceCancel r ev i' w'"
inductive_cases step_TransferRecipient: "stream_step env i w (TransferRecipient rcp) r ev i' w'"

section \<open>The entry points implement the steps\<close>

text \<open>The host after a call that leaves the struct \<open>i\<close> behind and has published one event.\<close>

definition after ::
  "stream_info \<Rightarrow> u64 \<Rightarrow> stream_event \<Rightarrow> 'w \<Rightarrow> 'w stream_host \<Rightarrow> 'w stream_host" where
  "after i n ev w h =
     h\<lparr>instance_store := saved_keys i [EventSequence \<mapsto> VU64 n],
       ttl_log := ttl_log h @ [(None, STREAM_TTL_THRESHOLD, STREAM_TTL_EXTEND_TO)],
       event_log := event_log h @ [ev], world := w\<rparr>"

lemma state_load_eval:
  "state_load h =
     (case instance_store h Config of
        Some (VStruct i) \<Rightarrow> Inr (i, h)
      | Some _ \<Rightarrow> Inl (Trap ConversionError)
      | None \<Rightarrow> state_load_legacy h)"
  by (simp add: state_load_def tx_eval host_eval split: option.splits stored.splits)

lemma assert_not_cancelled_Inr_iff [tx_simps]:
  "assert_not_cancelled i h = Inr r \<longleftrightarrow> \<not> is_cancelled i \<and> r = ((), h)"
  by (simp add: assert_not_cancelled_def tx_simps)

lemma next_sequence_eval:
  assumes "instance_store h EventSequence = Some (VU64 n)"
  shows "next_sequence h = Inr r \<longleftrightarrow>
    uint n + 1 < 2 ^ 64 \<and> r = (n + 1, h\<lparr>instance_store := (instance_store h)(EventSequence \<mapsto> VU64 (n + 1))\<rparr>)"
  using assms by (auto simp: next_sequence_def tx_eval host_eval checked_add_u_def)

lemmas op_unfold =
  tx_simps Let_def stream_ttl_bump_def state_load_eval state_save_withdrawn_def
  state_set_cancelled_def saved_keys_upd_EventSequence next_sequence_eval event_defs
  checked_add_i128_def checked_sub_i128_def checked_mul_i128_def rust_int after_def escrow_def


inductive_simps step_iffs:
  "stream_step env i w (Withdraw amount) r ev i' w'"
  "stream_step env i w Cancel r ev i' w'"
  "stream_step env i w Pause r ev i' w'"
  "stream_step env i w Resume r ev i' w'"
  "stream_step env i w (TopUp amount) r ev i' w'"
  "stream_step env i w (ExtendDuration secs) r ev i' w'"
  "stream_step env i w Clawback r ev i' w'"
  "stream_step env i w ForceCancel r ev i' w'"
  "stream_step env i w (TransferRecipient rcp) r ev i' w'"

inductive_simps settles_iff: "settles env i w owed refund w'"

definition implements :: "('w, 'n) env_scheme \<Rightarrow> stream_call \<Rightarrow> bool" where
  "implements env c \<longleftrightarrow> (\<forall>i n h r h'. holds i n (instance_store h) \<longrightarrow>
     (stream_exec env c h = Inr (r, h') \<longleftrightarrow>
       (\<exists>ev i' w'. stream_step env i (world h) c r ev i' w' \<and>
          uint n + 1 < 2 ^ 64 \<and> h' = after i' (n + 1) (ev (n + 1)) w' h)))"

lemma sint_eq_iff: "sint (a :: i128) = x \<longleftrightarrow> i128_fits x \<and> a = word_of_int x"
  by (auto simp: sint_word_of_int_fits)

lemma uint_eq_iff: "uint (a :: 'n::len word) = x \<longleftrightarrow> 0 \<le> x \<and> x < 2 ^ LENGTH('n) \<and> a = word_of_int x"
  by (auto simp: uint_lt2p word_of_int_inverse)

lemmas by_value = sint_eq_iff uint_eq_iff

lemma pay_tx_Inr_iff:
  "when_tx (0 < sint a) (tk_transfer env tk src dst a) h = Inr r \<longleftrightarrow>
     (\<exists>w. pay (token_client env) (world h) tk src dst a = Some w \<and>
          r = ((), h\<lparr>world := w\<rparr>))"
  by (auto simp: tx_simps pay_def)

lemma word_pos_iff: "0 < (a :: 'n::len word) \<longleftrightarrow> a \<noteq> 0"
  by (simp add: word_gt_0)

lemmas op_simps = op_unfold holds_def step_iffs settles_iff by_value word_pos_iff pay_tx_Inr_iff

lemma implements_Withdraw: "implements env (Withdraw amount)"
  unfolding implements_def
  by (auto simp: stream_withdraw_def op_simps not_le)

lemma implements_Cancel: "implements env Cancel"
  unfolding implements_def
  by (auto simp: stream_cancel_def stream_settle_def op_simps
      simp del: when_tx_Inr_iff)

lemma implements_Pause: "implements env Pause"
  unfolding implements_def
  by (auto simp: stream_pause_def op_simps)

lemma implements_Resume: "implements env Resume"
  unfolding implements_def
  by (auto simp: stream_resume_def op_simps)

lemma implements_TopUp: "implements env (TopUp amount)"
  unfolding implements_def
  by (auto simp: stream_top_up_def op_simps)

lemma implements_ExtendDuration: "implements env (ExtendDuration secs)"
  unfolding implements_def
  by (auto simp: stream_extend_duration_def op_simps)

lemma implements_Clawback: "implements env Clawback"
  unfolding implements_def
  by (auto simp: stream_clawback_def op_simps
      simp del: when_tx_Inr_iff)

lemma paused_long_enough_iff:
  "\<not> saturating_sub_u now p < PAUSE_THRESHOLD_SECS \<longleftrightarrow>
     uint PAUSE_THRESHOLD_SECS \<le> uint now - uint p"
  by (auto simp: saturating_sub_u_def PAUSE_THRESHOLD_SECS_def word_less_alt uint_minus_le)

lemma implements_ForceCancel: "implements env ForceCancel"
  unfolding implements_def
  by (auto simp: stream_force_cancel_def stream_settle_def paused_long_enough_iff op_simps
      simp del: when_tx_Inr_iff)

lemma implements_TransferRecipient: "implements env (TransferRecipient rcp)"
  unfolding implements_def
  by (auto simp: stream_transfer_recipient_def op_simps)

lemma implements_all: "implements env c"
  by (cases c)
    (simp_all only: implements_Withdraw implements_Cancel implements_Pause implements_Resume
      implements_TopUp implements_ExtendDuration implements_Clawback implements_ForceCancel
      implements_TransferRecipient)

end
