(* ===== verification/Stream_Invariant.thy ===== *)
theory Stream_Invariant
  imports Stream_Step Machine
begin

section \<open>What holds of the struct\<close>

definition duration :: "stream_info \<Rightarrow> int" where
  "duration i = uint (end_time i) - uint (start_time i)"

definition earned :: "u64 \<Rightarrow> stream_info \<Rightarrow> int" where
  "earned now i = max 0 (accrued now i)"

text \<open>
  The most that may have been paid out: the whole of a bounded stream, and what has been earned so
  far of an open-ended one.
\<close>

definition payable :: "u64 \<Rightarrow> stream_info \<Rightarrow> int" where
  "payable now i =
     (if end_time i = 0 then earned now i else sint (rate_per_second i) * duration i)"

definition info_inv :: "u64 \<Rightarrow> stream_info \<Rightarrow> bool" where
  "info_inv now i \<longleftrightarrow>
     0 < sint (rate_per_second i) \<and>
     (end_time i = 0 \<or> start_time i < end_time i) \<and>
     (is_paused i \<longrightarrow> paused_at i \<le> now) \<and>
     0 \<le> sint (withdrawn i) \<and> sint (withdrawn i) \<le> payable now i"

lemma earned_mono_open:
  assumes "end_time i = 0" and "is_paused i \<longrightarrow> paused_at i \<le> t" and "0 < sint (rate_per_second i)"
    and "t \<le> t'"
  shows "earned t i \<le> earned t' i"
  using assms mult_left_mono [of "uint t - uint (start_time i)" "uint t' - uint (start_time i)"
      "sint (rate_per_second i)"]
    mult_nonneg_nonneg [of "sint (rate_per_second i)" "uint t' - uint (start_time i)"]
    mult_nonneg_nonpos [of "sint (rate_per_second i)" "uint (paused_at i) - uint (start_time i)"]
  by (auto simp: earned_def accrued_def accrual_time_def word_le_def word_less_alt max_def not_less)

lemma info_inv_later: "info_inv t i \<Longrightarrow> t \<le> t' \<Longrightarrow> info_inv t' i"
  using earned_mono_open [of i t t'] by (auto simp: info_inv_def payable_def)

text \<open>A bounded stream never accrues more than its rate times its length.\<close>

lemma accrued_bounded:
  assumes "info_inv t i" and "t \<le> now" and "end_time i \<noteq> 0"
  shows "accrued now i \<le> sint (rate_per_second i) * duration i"
proof -
  have "0 < sint (rate_per_second i)" and less: "start_time i < end_time i"
    using assms by (auto simp: info_inv_def)
  moreover have "accrual_time now i \<le> end_time i"
    using assms by (auto simp: accrual_time_def info_inv_def word_gt_0)
  ultimately show ?thesis
    by (auto simp: accrued_def duration_def word_le_def word_less_alt intro!: mult_left_mono)
qed

lemma earned_payable: "info_inv t i \<Longrightarrow> t \<le> now \<Longrightarrow> earned now i \<le> payable now i"
  using accrued_bounded [of t i now]
  by (auto simp: earned_def payable_def duration_def info_inv_def word_less_alt)

lemma streamed_earned:
  assumes "math_streamed_amount env i = Inr s" and "0 < sint (rate_per_second i)"
  shows "sint s = earned (ledger_timestamp env) i"
  using assms accrued_nonneg [of i "ledger_timestamp env"]
  by (auto simp: earned_def streamed_amount_Inr_iff)

lemma withdrawable_earned:
  assumes "math_withdrawable env i = Inr a" and "info_inv t i"
  shows "sint a = max 0 (earned (ledger_timestamp env) i - sint (withdrawn i))"
  using assms by (auto simp: info_inv_def withdrawable_Inr_iff streamed_earned)

section \<open>One step\<close>

lemma payable_flags [simp]: "payable now (i\<lparr>withdrawn := a\<rparr>) = payable now i"
  "payable now (i\<lparr>recipient := x\<rparr>) = payable now i"
  "payable now (i\<lparr>flags := flags i OR FLAG_CANCELLED\<rparr>) = payable now i"
  by (simp_all add: payable_def duration_def earned_def accrued_def accrual_time_def)

lemma step_withdraw_inv:
  assumes "stream_step env i w (Withdraw amount) r ev i' w'" and "info_inv t i"
    and "t \<le> ledger_timestamp env"
  shows "info_inv (ledger_timestamp env) i'"
proof -
  have now: "info_inv (ledger_timestamp env) i" using assms(2,3) by (rule info_inv_later)
  then have "earned (ledger_timestamp env) i \<le> payable (ledger_timestamp env) i"
    by (rule earned_payable) simp
  with now assms(1) show ?thesis
    by (auto simp: info_inv_def sint_minmax dest: withdrawable_earned [OF _ now]
        elim!: step_Withdraw)
qed

lemma step_pause_inv:
  assumes "stream_step env i w Pause r ev i' w'" and "info_inv t i"
    and "t \<le> ledger_timestamp env"
  shows "info_inv (ledger_timestamp env) i'"
proof -
  have "info_inv (ledger_timestamp env) i" using assms(2,3) by (rule info_inv_later)
  with assms(1) show ?thesis
    by (auto simp: info_inv_def payable_def earned_def accrued_def accrual_time_def duration_def
        elim!: step_Pause)
qed

lemma accrued_resume:
  assumes "is_paused i" and "paused_at i \<le> now"
    and "uint (dur :: u64) = uint now - uint (paused_at i)"
    and "uint (start_time i') = uint (start_time i) + uint dur" and "\<not> is_paused i'"
    and "end_time i = 0" and "end_time i' = 0" and "rate_per_second i' = rate_per_second i"
    and "0 < sint (rate_per_second i)"
  shows "earned now i' = earned now i"
  using assms mult_nonneg_nonpos [of "sint (rate_per_second i)" "uint (paused_at i) - uint (start_time i)"]
  by (auto simp: earned_def accrued_def accrual_time_def word_le_def word_less_alt max_def)

lemma step_resume_inv:
  assumes "stream_step env i w Resume r ev i' w'" and "info_inv t i"
    and "t \<le> ledger_timestamp env"
  shows "info_inv (ledger_timestamp env) i'"
proof -
  let ?now = "ledger_timestamp env"
  have now: "info_inv ?now i" using assms(2,3) by (rule info_inv_later)
  from assms(1) obtain dur ne ns where paused: "is_paused i"
    and dur: "uint (dur :: u64) = uint ?now - uint (paused_at i)"
    and ns: "uint ns = uint (start_time i) + uint dur"
    and ne: "uint ne = (if 0 < end_time i then uint (end_time i) + uint dur else 0)"
    and i': "i' = i\<lparr>start_time := ns, flags := flags i AND NOT FLAG_PAUSED, paused_at := 0,
              end_time := ne\<rparr>"
    by (rule step_Resume) fastforce
  show ?thesis
  proof (cases "end_time i = 0")
    case True
    then have "uint ne = 0" using ne by simp
    then have ne0: "ne = 0" by (intro word_uint_eq_iff [THEN iffD2]) simp
    have "earned ?now i' = earned ?now i"
      using now paused dur ns True ne0
      by (intro accrued_resume [of i ?now dur]) (auto simp: i' info_inv_def)
    with now True show ?thesis by (simp add: info_inv_def payable_def i' ne0)
  next
    case False
    then have ne': "uint ne = uint (end_time i) + uint dur" using ne by (simp add: word_gt_0)
    then have "ne \<noteq> 0" using False by (auto simp: word_uint_eq_iff add_nonneg_eq_0_iff)
    with now False ne' ns show ?thesis
      by (simp add: info_inv_def payable_def i' duration_def word_less_alt)
  qed
qed

lemma step_extend_inv:
  assumes "stream_step env i w (ExtendDuration secs) r ev i' w'" and "info_inv t i"
    and "t \<le> ledger_timestamp env"
  shows "info_inv (ledger_timestamp env) i'"
proof -
  have now: "info_inv (ledger_timestamp env) i" using assms(2,3) by (rule info_inv_later)
  from assms(1) obtain ne where e: "0 < end_time i" and ne: "uint ne = uint (end_time i) + uint secs"
    and i': "i' = i\<lparr>end_time := ne\<rparr>"
    by (rule step_ExtendDuration) blast
  have "0 < uint (end_time i)" using e by (simp add: word_less_alt)
  moreover have secs: "0 \<le> uint secs" by simp
  ultimately have "0 < uint ne" using ne by linarith
  then have ne0: "ne \<noteq> 0" by auto
  have "sint (rate_per_second i) * duration i \<le> sint (rate_per_second i) * duration i'"
    using now by (intro mult_left_mono) (auto simp: i' duration_def ne info_inv_def)
  then have "payable (ledger_timestamp env) i \<le> payable (ledger_timestamp env) i'"
    using e ne0 by (auto simp: payable_def i')
  moreover have "uint (start_time i) < uint (end_time i)"
    using now e by (auto simp: info_inv_def word_less_alt)
  then have "start_time i < ne" using ne secs unfolding word_less_alt by linarith
  ultimately show ?thesis using now by (auto simp: info_inv_def i')
qed

lemma step_other_inv:
  assumes "stream_step env i w c r ev i' w'" and "info_inv t i"
    and "t \<le> ledger_timestamp env"
    and "c \<in> {Cancel, ForceCancel, Clawback} \<or> (\<exists>a. c = TopUp a) \<or> (\<exists>a. c = TransferRecipient a)"
  shows "info_inv (ledger_timestamp env) i'"
proof -
  have "info_inv (ledger_timestamp env) i" using assms(2,3) by (rule info_inv_later)
  with assms(1,4) show ?thesis
    by (auto simp: step_iffs) (simp_all add: info_inv_def)
qed

lemma step_info_inv:
  assumes "stream_step env i w c r ev i' w'" and "info_inv t i" and "t \<le> ledger_timestamp env"
  shows "info_inv (ledger_timestamp env) i'"
proof (cases c)
  case (Withdraw amount)
  show ?thesis using assms unfolding Withdraw by (rule step_withdraw_inv)
next
  case Pause
  show ?thesis using assms unfolding Pause by (rule step_pause_inv)
next
  case Resume
  show ?thesis using assms unfolding Resume by (rule step_resume_inv)
next
  case (ExtendDuration secs)
  show ?thesis using assms unfolding ExtendDuration by (rule step_extend_inv)
qed (use step_other_inv [OF assms] in simp_all)

end
