(* ===== verification/Stream_Machine.thy ===== *)
theory Stream_Machine
  imports Stream_Invariant
begin

section \<open>Initialization\<close>

definition initial_info ::
  "address \<Rightarrow> address \<Rightarrow> address \<Rightarrow> i128 \<Rightarrow> u64 \<Rightarrow> u64 \<Rightarrow> bool \<Rightarrow> stream_info" where
  "initial_info sndr rcp tok rate t0 t1 clawback =
     \<lparr>sender = sndr, recipient = rcp, token = tok, rate_per_second = rate, start_time = t0,
      end_time = t1, withdrawn = 0, paused_at = 0,
      flags = (if clawback then FLAG_CLAWBACK_ENABLED else 0)\<rparr>"

lemma stream_initialize_Inr_iff [tx_simps]:
  "stream_initialize sndr rcp tok rate t0 t1 clawback h = Inr (u, h') \<longleftrightarrow>
     instance_store h Config = None \<and> 0 < sint rate \<and> (t1 = 0 \<or> t0 < t1) \<and>
     h' = h\<lparr>instance_store := saved_keys (initial_info sndr rcp tok rate t0 t1 clawback)
              ((instance_store h)(EventSequence \<mapsto> VU64 0)),
            ttl_log := ttl_log h @ [(None, STREAM_TTL_THRESHOLD, STREAM_TTL_EXTEND_TO)]\<rparr>"
  by (auto simp: stream_initialize_def tx_simps stream_ttl_bump_def Let_def initial_info_def
      saved_keys_def fun_upd_twist word_pos_iff not_le)

lemma initial_flags [simp]:
  "\<not> is_cancelled (initial_info sndr rcp tok rate t0 t1 clawback)"
  "\<not> is_paused (initial_info sndr rcp tok rate t0 t1 clawback)"
  "is_clawback_enabled (initial_info sndr rcp tok rate t0 t1 clawback) \<longleftrightarrow> clawback"
  by (simp_all add: initial_info_def flag_tests)

lemma initial_info_inv:
  assumes "0 < sint rate" and "t1 = 0 \<or> t0 < t1"
  shows "info_inv now (initial_info sndr rcp tok rate t0 t1 clawback)"
  using assms
  by (auto simp: info_inv_def initial_info_def flag_tests payable_def duration_def earned_def
      word_less_alt)


section \<open>The stream as a state machine over the host\<close>

text \<open>
  A state is the ledger time and the host as the stream contract sees it. The machine starts with
  a successful \<open>initialize\<close> on a fresh instance, and then makes calls, each at a ledger time no
  earlier than the last; a call that fails leaves the state as it is. Between the calls, others may
  move tokens; they cannot take any from the contract, whose own balance only it can spend.
\<close>

type_synonym 'w stream_state = "u64 \<times> 'w stream_host"

inductive stream_init :: "'w stream_state \<Rightarrow> bool" where
  stream_initI:
    "\<lbrakk> instance_store h0 = Map.empty; event_log h0 = [];
       stream_initialize sndr rcp tok rate t0 t1 clawback h0 = Inr ((), h) \<rbrakk>
     \<Longrightarrow> stream_init (now, h)"

inductive stream_move ::
  "'w token_ops \<Rightarrow> address \<Rightarrow> 'w stream_state \<Rightarrow> 'w stream_state \<Rightarrow> bool" for T self where
  move_call:
    "\<lbrakk> now \<le> ledger_timestamp (env :: 'w env); token_client env = T; current_contract_address env = self;
       stream_exec env c h = Inr (r, h') \<rbrakk>
     \<Longrightarrow> stream_move T self (now, h) (ledger_timestamp env, h')"
| move_outside:
    "\<lbrakk> now \<le> now';
       \<And>tk. sint (token_balance T (world h) tk self) \<le> sint (token_balance T w tk self) \<rbrakk>
     \<Longrightarrow> stream_move T self (now, h) (now', h\<lparr>world := w\<rparr>)"

text \<open>
  The events carry the numbers \<open>1, 2, \<dots>\<close> in order, and the stored counter is the number of
  the last one.
\<close>

definition log_numbered :: "u64 \<Rightarrow> stream_event list \<Rightarrow> bool" where
  "log_numbered n es \<longleftrightarrow>
     uint n = int (length es) \<and>
     map (uint \<circ> event_sequence_of) es = map int [1 ..< Suc (length es)]"

definition stream_inv :: "'w stream_state \<Rightarrow> bool" where
  "stream_inv s \<longleftrightarrow>
     (\<exists>i n. holds i n (instance_store (snd s)) \<and> info_inv (fst s) i \<and>
        log_numbered n (event_log (snd s)))"

lemma step_event_sequence: "stream_step env i w c r ev i' w' \<Longrightarrow> event_sequence_of (ev n) = n"
  by (auto elim!: stream_step.cases)

lemma log_numbered_snoc:
  assumes "log_numbered n es" and "uint n + 1 < 2 ^ 64" and "event_sequence_of e = n + 1"
  shows "log_numbered (n + 1) (es @ [e])"
proof -
  have "uint (n + 1) = uint n + 1" using assms(2) by (simp add: uint_plus_less)
  with assms show ?thesis by (simp add: log_numbered_def)
qed

lemma stream_invI:
  "holds i n (instance_store h) \<Longrightarrow> info_inv now i \<Longrightarrow> log_numbered n (event_log h) \<Longrightarrow>
   stream_inv (now, h)"
  by (auto simp: stream_inv_def)

lemma stream_invE:
  assumes "stream_inv (now, h)"
  obtains i n where "holds i n (instance_store h)" and "info_inv now i"
    and "log_numbered n (event_log h)"
  using assms by (auto simp: stream_inv_def)

lemma stream_init_inv: "stream_init s \<Longrightarrow> stream_inv s"
proof (induction rule: stream_init.induct)
  case (stream_initI h0 sndr rcp tok rate t0 t1 clawback h now)
  let ?i = "initial_info sndr rcp tok rate t0 t1 clawback"
  have "0 < sint rate" and "t1 = 0 \<or> t0 < t1" and store: "instance_store h = saved_keys ?i [EventSequence \<mapsto> VU64 0]"
    and "event_log h = []"
    using stream_initI by (auto simp: tx_simps)
  then show ?case
    by (intro stream_invI [of ?i 0]) (auto simp: holds_def initial_info_inv log_numbered_def)
qed

text \<open>A successful call is a step of the abstract machine.\<close>

lemma stream_exec_step:
  assumes "holds i n (instance_store h)" and "stream_exec env c h = Inr (r, h')"
  obtains ev i' w' where "stream_step env i (world h) c r ev i' w'" and "uint n + 1 < 2 ^ 64"
    and "h' = after i' (n + 1) (ev (n + 1)) w' h"
  using assms implements_all [of env c] unfolding implements_def by blast

lemma holds_after: "holds i' n' (instance_store (after i' n' ev w' h))"
  by (simp add: after_def holds_def)

lemma stream_move_inv: "stream_move T self s s' \<Longrightarrow> stream_inv s \<Longrightarrow> stream_inv s'"
proof (induction rule: stream_move.induct)
  case (move_call now env c h r h')
  then obtain i n where inv: "holds i n (instance_store h)" "info_inv now i"
    "log_numbered n (event_log h)"
    by (blast elim: stream_invE)
  from inv(1) move_call(4) obtain ev i' w' where step: "stream_step env i (world h) c r ev i' w'"
    and n: "uint n + 1 < 2 ^ 64" and h': "h' = after i' (n + 1) (ev (n + 1)) w' h"
    by (rule stream_exec_step)
  have "info_inv (ledger_timestamp env) i'" using step inv(2) move_call(1) by (rule step_info_inv)
  moreover have "log_numbered (n + 1) (event_log h')"
    using log_numbered_snoc [OF inv(3) n step_event_sequence [OF step]] by (simp add: h' after_def)
  ultimately show ?case unfolding h' by (intro stream_invI [OF holds_after])
next
  case (move_outside now now' h w)
  then show ?case by (auto simp: stream_inv_def intro: info_inv_later)
qed

interpretation stream_machine: invariant stream_init "stream_move T self" stream_inv for T self
  by unfold_locales (auto intro: stream_init_inv stream_move_inv)

end
