(* ===== verification/Stream_Payments.thy ===== *)
theory Stream_Payments
  imports Stream_Machine
begin

text \<open>
  What the calls of a stream do to token balances: settlement, withdrawal, clawback, and the
  solvency of a funded stream.
\<close>

section \<open>Balances after a payment\<close>

definition bal :: "('w, 'n) env_scheme \<Rightarrow> 'w \<Rightarrow> address \<Rightarrow> address \<Rightarrow> int" where
  "bal env w tk who = sint (token_balance (token_client env) w tk who)"

lemma moved_zero [simp]: "moved src dst 0 who = 0"
  by (simp add: moved_def)

lemma bal_nonneg: "token_conserves (token_client env) \<Longrightarrow> 0 \<le> bal env w tk who"
  by (simp add: bal_def token_balance_nonneg)

lemma transfer_bal:
  assumes "token_conserves (token_client env)"
    and "token_transfer (token_client env) w tk src dst a = Some w'"
  shows "bal env w' tk' who = bal env w tk' who + (if tk' = tk then moved src dst (sint a) who else 0)"
  using token_transfer_balance [OF assms] by (simp add: bal_def)

lemma pay_bal:
  assumes "token_conserves (token_client env)" and "pay (token_client env) w tk src dst a = Some w'"
    and "0 \<le> sint a"
  shows "bal env w' tk' who = bal env w tk' who + (if tk' = tk then moved src dst (sint a) who else 0)"
proof (cases "0 < sint a")
  case True
  then have "token_transfer (token_client env) w tk src dst a = Some w'"
    using assms(2) by (simp add: pay_def)
  then show ?thesis by (rule transfer_bal [OF assms(1)])
next
  case False
  then show ?thesis using assms by (simp add: pay_def)
qed

lemma escrow_bal: "sint (escrow env i w) = bal env w (token i) (current_contract_address env)"
  by (simp add: escrow_def bal_def)

text \<open>What the recipient is owed: what has been earned and not withdrawn, as far as the escrow goes.\<close>

definition owed :: "('w, 'n) env_scheme \<Rightarrow> stream_info \<Rightarrow> 'w \<Rightarrow> int" where
  "owed env i w =
     min (max 0 (earned (ledger_timestamp env) i - sint (withdrawn i)))
       (bal env w (token i) (current_contract_address env))"

lemma after_world [simp]: "world (after i n ev w h) = w"
  by (simp add: after_def)

section \<open>Settlement\<close>

lemma settles_balances:
  assumes "settles env i w a b w2" and "token_conserves (token_client env)"
    and "0 < sint (rate_per_second i)"
  shows "sint a = owed env i w"
    and "sint b = bal env w (token i) (current_contract_address env) - owed env i w"
    and "bal env w2 tk who = bal env w tk who + (if tk = token i
          then moved (current_contract_address env) (recipient i) (sint a) who +
               moved (current_contract_address env) (sender i) (sint b) who else 0)"
proof -
  let ?self = "current_contract_address env"
  from assms(1) obtain s e rst w1 where s: "math_streamed_amount env i = Inr s"
    and e: "sint e = sint s - sint (withdrawn i)"
    and a: "a = min_i128 (max_i128 e 0) (escrow env i w)"
    and rst: "sint rst = sint (escrow env i w) - sint a" and b: "b = max_i128 rst 0"
    and w1: "pay (token_client env) w (token i) ?self (recipient i) a = Some w1"
    and w2: "pay (token_client env) w1 (token i) ?self (sender i) b = Some w2"
    by (rule settles.cases) blast
  show sa: "sint a = owed env i w"
    using streamed_earned [OF s assms(3)]
    by (simp add: a e sint_minmax owed_def escrow_bal max.commute)
  then show sb: "sint b = bal env w (token i) ?self - owed env i w"
    by (simp add: b rst sint_minmax escrow_bal owed_def max_def)
  have "0 \<le> sint a" using bal_nonneg [OF assms(2)] by (simp add: sa owed_def)
  moreover have "0 \<le> sint b" by (simp add: sb owed_def)
  ultimately show "bal env w2 tk who = bal env w tk who + (if tk = token i
          then moved ?self (recipient i) (sint a) who + moved ?self (sender i) (sint b) who else 0)"
    using pay_bal [OF assms(2) w1] pay_bal [OF assms(2) w2] by simp
qed

text \<open>Property C2. \<open>cancel\<close> and \<open>force_cancel\<close> settle exactly: in the stream's token the
  recipient receives what is owed (earned and not withdrawn, capped by the escrow) and the sender
  all the rest of the escrow, no other balance of any token moves, the escrow is empty when neither
  party is the contract itself, and the stream is stored as cancelled.\<close>

theorem settlement_is_exact:
  assumes "holds i n (instance_store h)" and "info_inv t i"
    and "token_conserves (token_client env)"
    and "c = Cancel \<or> c = ForceCancel" and "stream_exec env c h = Inr (r, h')"
  shows "bal env (world h') tk who = bal env (world h) tk who +
      (if tk = token i
       then moved (current_contract_address env) (recipient i) (owed env i (world h)) who +
            moved (current_contract_address env) (sender i)
              (bal env (world h) tk (current_contract_address env) -
                 owed env i (world h)) who
       else 0) \<and>
    (current_contract_address env \<notin> {sender i, recipient i} \<longrightarrow>
       bal env (world h') (token i) (current_contract_address env) = 0) \<and>
    holds (i\<lparr>flags := flags i OR FLAG_CANCELLED\<rparr>) (n + 1) (instance_store h')"
proof -
  from assms(1,5) obtain ev i' w' where step: "stream_step env i (world h) c r ev i' w'"
    and h': "h' = after i' (n + 1) (ev (n + 1)) w' h"
    by (rule stream_exec_step)
  from step assms(4) obtain a b where settled: "settles env i (world h) a b w'"
    and i': "i' = i\<lparr>flags := flags i OR FLAG_CANCELLED\<rparr>"
    by (auto simp: step_iffs)
  have "0 < sint (rate_per_second i)" using assms(2) by (simp add: info_inv_def)
  note bals = settles_balances [OF settled assms(3) this]
  show ?thesis
    using bals holds_after [of i' "n + 1" "ev (n + 1)" w' h] by (simp add: h' i' after_world)
qed

section \<open>Withdrawal\<close>

text \<open>A withdrawal pays the recipient exactly the smaller of the requested amount and
  what has been earned and not yet withdrawn, records it in \<open>withdrawn\<close>, moves nothing else, and
  publishes the amount, the new total and the escrow that remains.\<close>

theorem withdraw_pays_earned:
  assumes "holds i n (instance_store h)" and "info_inv t i" and "t \<le> ledger_timestamp env"
    and "token_conserves (token_client env)" and "stream_withdraw env amount h = Inr (paid, h')"
  shows "0 < sint paid \<and>
    sint paid = min (sint amount) (earned (ledger_timestamp env) i - sint (withdrawn i)) \<and>
    (\<exists>total rest. sint total = sint (withdrawn i) + sint paid \<and>
       sint rest = bal env (world h) (token i) (current_contract_address env) - sint paid \<and>
       holds (i\<lparr>withdrawn := total\<rparr>) (n + 1) (instance_store h') \<and>
       event_log h' = event_log h @ [WithdrawnEvent (recipient i) (n + 1) paid total rest]) \<and>
    bal env (world h') tk who = bal env (world h) tk who +
      (if tk = token i
       then moved (current_contract_address env) (recipient i) (sint paid) who else 0)"
proof -
  have "stream_exec env (Withdraw amount) h = Inr (Amount paid, h')"
    using assms(5) by (simp add: tx_simps)
  with assms(1) obtain ev i' w' where
    step: "stream_step env i (world h) (Withdraw amount) (Amount paid) ev i' w'"
    and h': "h' = after i' (n + 1) (ev (n + 1)) w' h"
    by (rule stream_exec_step)
  from step obtain available total rest where amount: "0 < sint amount"
    and available: "math_withdrawable env i = Inr available" "available \<noteq> 0"
    and paid: "paid = min_i128 amount available"
    and total: "sint total = sint (withdrawn i) + sint paid"
    and rest: "sint rest = sint (escrow env i (world h)) - sint paid"
    and transfer: "token_transfer (token_client env) (world h) (token i)
      (current_contract_address env) (recipient i) paid = Some w'"
    and ev: "ev = (\<lambda>k. WithdrawnEvent (recipient i) k paid total rest)"
    and i': "i' = i\<lparr>withdrawn := total\<rparr>"
    by (rule step_Withdraw) fastforce
  have a: "sint available = max 0 (earned (ledger_timestamp env) i - sint (withdrawn i))"
    using available(1) assms(2) by (rule withdrawable_earned)
  moreover have "sint available \<noteq> 0" using available(2) by (simp add: i128_eq_iff)
  ultimately have p: "0 < sint paid"
    "sint paid = min (sint amount) (earned (ledger_timestamp env) i - sint (withdrawn i))"
    using amount by (auto simp: paid sint_minmax)
  show ?thesis
    using p total rest holds_after [of i' "n + 1" "ev (n + 1)" w' h] transfer_bal [OF assms(4) transfer]
    by (auto simp: h' ev i' after_def escrow_bal)
qed

section \<open>Clawback\<close>

text \<open>A clawback leaves the recipient's share alone: the escrow that remains is exactly
  what is owed, all above it goes to the sender, and the struct does not change.\<close>

theorem clawback_leaves_owed:
  assumes "holds i n (instance_store h)" and "info_inv t i"
    and "token_conserves (token_client env)" and "current_contract_address env \<noteq> sender i"
    and "stream_clawback env h = Inr (amount, h')"
  shows "bal env (world h') (token i) (current_contract_address env) =
      owed env i (world h) \<and>
    sint amount = bal env (world h) (token i) (current_contract_address env) -
      owed env i (world h) \<and>
    bal env (world h') (token i) (sender i) =
      bal env (world h) (token i) (sender i) + sint amount \<and>
    holds i (n + 1) (instance_store h') \<and> owed env i (world h') = owed env i (world h)"
proof -
  let ?self = "current_contract_address env"
  have "stream_exec env Clawback h = Inr (Amount amount, h')"
    using assms(5) by (simp add: tx_simps)
  with assms(1) obtain ev i' w' where
    step: "stream_step env i (world h) Clawback (Amount amount) ev i' w'"
    and h': "h' = after i' (n + 1) (ev (n + 1)) w' h"
    by (rule stream_exec_step)
  from step obtain s e rst where s: "math_streamed_amount env i = Inr s"
    and e: "sint e = sint s - sint (withdrawn i)"
    and rst: "sint rst = sint (escrow env i (world h)) - sint (max_i128 e 0)"
    and amount: "amount = max_i128 rst 0"
    and paid: "pay (token_client env) (world h) (token i) ?self (sender i) amount = Some w'"
    and i': "i' = i"
    by (rule step_Clawback) fastforce
  have "sint amount = bal env (world h) (token i) ?self - owed env i (world h)"
    using streamed_earned [OF s] assms(2)
    by (auto simp: amount rst e sint_minmax escrow_bal owed_def info_inv_def)
  moreover have "0 \<le> sint amount" by (simp add: amount sint_minmax)
  note pay_bal [OF assms(3) paid this]
  ultimately show ?thesis
    using holds_after [of i' "n + 1" "ev (n + 1)" w' h] assms(4)
    by (simp add: h' i' after_world owed_def)
qed

end
