(* ===== verification/Stream_Solvency.thy ===== *)
theory Stream_Solvency
  imports Stream_Payments
begin

text \<open>
  A bounded stream without clawback whose escrow covers what it still has to pay stays funded
  through every call and every outside payment, and its recipient can always withdraw all that has
  been earned.
\<close>

section \<open>Funded streams\<close>

definition remaining_due :: "stream_info \<Rightarrow> int" where
  "remaining_due i = sint (rate_per_second i) * duration i - sint (withdrawn i)"

definition funded :: "'w token_ops \<Rightarrow> address \<Rightarrow> stream_info \<Rightarrow> 'w \<Rightarrow> bool" where
  "funded T self i w \<longleftrightarrow>
     end_time i \<noteq> 0 \<and> \<not> is_clawback_enabled i \<and> self \<noteq> sender i \<and>
     (is_cancelled i \<or> remaining_due i \<le> sint (token_balance T w (token i) self))"

lemma funded_bal:
  "funded (token_client env) (current_contract_address env) i w \<longleftrightarrow>
     end_time i \<noteq> 0 \<and> \<not> is_clawback_enabled i \<and> current_contract_address env \<noteq> sender i \<and>
     (is_cancelled i \<or> remaining_due i \<le> bal env w (token i) (current_contract_address env))"
  by (simp add: funded_def bal_def)

lemma remaining_due_frames [simp]:
  "remaining_due (i\<lparr>recipient := x\<rparr>) = remaining_due i"
  "remaining_due (i\<lparr>flags := f\<rparr>) = remaining_due i"
  "remaining_due (i\<lparr>flags := f, paused_at := t\<rparr>) = remaining_due i"
  by (simp_all add: remaining_due_def duration_def)

lemma step_withdraw_funded:
  assumes "stream_step env i w (Withdraw amount) r ev i' w'" and "token_conserves (token_client env)"
    and "funded (token_client env) (current_contract_address env) i w"
  shows "funded (token_client env) (current_contract_address env) i' w'"
proof -
  let ?self = "current_contract_address env"
  from assms(1) obtain total paid where total: "sint total = sint (withdrawn i) + sint paid"
    and transfer: "token_transfer (token_client env) w (token i) ?self (recipient i) paid = Some w'"
    and i': "i' = i\<lparr>withdrawn := total\<rparr>"
    by (rule step_Withdraw) blast
  have "bal env w' (token i) ?self = bal env w (token i) ?self +
      moved ?self (recipient i) (sint paid) ?self"
    using transfer_bal [OF assms(2) transfer, of "token i" ?self] by simp
  moreover have "- sint paid \<le> moved ?self (recipient i) (sint paid) ?self"
    using token_transfer_amount [OF assms(2) transfer] by (simp add: moved_def)
  ultimately show ?thesis
    using assms(3) total by (auto simp: funded_bal i' remaining_due_def duration_def)
qed

lemma step_resume_funded:
  assumes "stream_step env i w Resume r ev i' w'"
    and "funded (token_client env) (current_contract_address env) i w"
  shows "funded (token_client env) (current_contract_address env) i' w'"
proof -
  from assms(1) obtain dur ns ne where
    dur: "uint (dur :: u64) = uint (ledger_timestamp env) - uint (paused_at i)"
    and ns: "uint ns = uint (start_time i) + uint dur"
    and ne: "uint ne = (if 0 < end_time i then uint (end_time i) + uint dur else 0)"
    and i': "i' = i\<lparr>start_time := ns, flags := flags i AND NOT FLAG_PAUSED, paused_at := 0,
              end_time := ne\<rparr>" and w': "w' = w"
    by (rule step_Resume) fastforce
  have "uint ne = uint (end_time i) + uint dur" "0 < uint (end_time i)" "0 \<le> uint dur"
    using ne assms(2) by (auto simp: funded_def word_gt_0 word_neq_0_conv word_less_alt)
  then have ne': "uint ne = uint (end_time i) + uint dur" "0 < uint ne" by linarith+
  then have "ne \<noteq> 0" by auto
  with assms(2) ne' ns show ?thesis
    by (simp add: funded_def i' w' remaining_due_def duration_def)
qed

lemma step_extend_funded:
  assumes "stream_step env i w (ExtendDuration secs) r ev i' w'"
    and "token_conserves (token_client env)"
    and "funded (token_client env) (current_contract_address env) i w"
  shows "funded (token_client env) (current_contract_address env) i' w'"
proof -
  let ?self = "current_contract_address env"
  from assms(1) obtain deposit ne where e: "0 < end_time i"
    and deposit: "sint deposit = uint secs * sint (rate_per_second i)"
    and transfer: "token_transfer (token_client env) w (token i) (sender i) ?self deposit = Some w'"
    and ne: "uint ne = uint (end_time i) + uint secs" and i': "i' = i\<lparr>end_time := ne\<rparr>"
    by (rule step_ExtendDuration) blast
  have "0 < uint (end_time i)" "0 \<le> uint secs" using e by (simp_all add: word_less_alt)
  then have "0 < uint ne" using ne by linarith
  then have "ne \<noteq> 0" by auto
  moreover have "bal env w' (token i) ?self = bal env w (token i) ?self + sint deposit"
    using transfer_bal [OF assms(2) transfer, of "token i" ?self] assms(3) by (simp add: funded_def)
  moreover have "remaining_due i' = remaining_due i + sint deposit"
    by (simp add: remaining_due_def duration_def i' ne deposit algebra_simps)
  ultimately show ?thesis
    using assms(3) by (auto simp: funded_bal i')
qed

lemma step_top_up_funded:
  assumes "stream_step env i w (TopUp amount) r ev i' w'" and "token_conserves (token_client env)"
    and "funded (token_client env) (current_contract_address env) i w"
  shows "funded (token_client env) (current_contract_address env) i' w'"
proof -
  let ?self = "current_contract_address env"
  from assms(1) have "0 < sint amount" and i': "i' = i"
    and transfer: "token_transfer (token_client env) w (token i) (sender i) ?self amount = Some w'"
    by (auto simp: step_iffs)
  then have "bal env w (token i) ?self \<le> bal env w' (token i) ?self"
    using transfer_bal [OF assms(2) transfer, of "token i" ?self] by (simp add: moved_def)
  then show ?thesis using assms(3) by (auto simp: funded_bal i')
qed

lemma step_funded:
  assumes "stream_step env i w c r ev i' w'" and "token_conserves (token_client env)"
    and "funded (token_client env) (current_contract_address env) i w"
  shows "funded (token_client env) (current_contract_address env) i' w'"
proof (cases c)
  case (Withdraw amount)
  show ?thesis using assms unfolding Withdraw by (rule step_withdraw_funded)
next
  case Resume
  show ?thesis using assms(1,3) unfolding Resume by (rule step_resume_funded)
next
  case (ExtendDuration secs)
  show ?thesis using assms unfolding ExtendDuration by (rule step_extend_funded)
next
  case (TopUp amount)
  show ?thesis using assms unfolding TopUp by (rule step_top_up_funded)
qed (use assms in \<open>auto simp: step_iffs funded_def\<close>)

section \<open>Solvency\<close>

definition solvent :: "'w token_ops \<Rightarrow> address \<Rightarrow> 'w stream_state \<Rightarrow> bool" where
  "solvent T self s \<longleftrightarrow> token_conserves T \<and>
     (\<exists>i n. holds i n (instance_store (snd s)) \<and> info_inv (fst s) i \<and>
        funded T self i (world (snd s)))"

lemma solvent_move: "stream_move T self s s' \<Longrightarrow> solvent T self s \<Longrightarrow> solvent T self s'"
proof (induction rule: stream_move.induct)
  case (move_call now env c h r h')
  then obtain i n where inv: "holds i n (instance_store h)" "info_inv now i"
    "funded T self i (world h)" "token_conserves T"
    by (auto simp: solvent_def)
  from inv(1) move_call(4) obtain ev i' w' where step: "stream_step env i (world h) c r ev i' w'"
    and h': "h' = after i' (n + 1) (ev (n + 1)) w' h"
    by (rule stream_exec_step)
  have "info_inv (ledger_timestamp env) i'" using step inv(2) move_call(1) by (rule step_info_inv)
  moreover have "funded T self i' w'"
    using step_funded [OF step] inv(3,4) move_call(2,3) by simp
  moreover have "holds i' (n + 1) (instance_store h')" unfolding h' by (rule holds_after)
  moreover have "world h' = w'" by (simp add: h')
  ultimately show ?case using inv(4) by (auto simp: solvent_def)
next
  case (move_outside now now' h w)
  then obtain i n where inv: "holds i n (instance_store h)" "info_inv now i"
    "funded T self i (world h)" "token_conserves T"
    by (auto simp: solvent_def)
  moreover have "info_inv now' i" using inv(2) move_outside(1) by (rule info_inv_later)
  moreover have "funded T self i w"
    using inv(3) move_outside(2) [of "token i"] by (auto simp: funded_def)
  ultimately show ?case by (auto simp: solvent_def)
qed

interpretation funded_machine: invariant "solvent T self" "stream_move T self" "solvent T self"
  for T self
  by unfold_locales (auto intro: solvent_move)

text \<open>Solvency: once a bounded stream without clawback is funded (the escrow covers
  rate times length less what was withdrawn), it is funded in every later state, whatever is called
  in whatever order, until it is cancelled; so what the recipient has earned and not withdrawn is
  always in the escrow.\<close>

theorem funded_stream_stays_solvent:
  assumes "token_conserves T" and "holds i n (instance_store h)" and "info_inv t i"
    and "end_time i \<noteq> 0" and "\<not> is_clawback_enabled i" and "self \<noteq> sender i"
    and "sint (rate_per_second i) * duration i - sint (withdrawn i) \<le>
      sint (token_balance T (world h) (token i) self)"
    and "later (stream_move T self) (t, h) (t', h')"
  shows "\<exists>i' n'. holds i' n' (instance_store h') \<and> info_inv t' i' \<and>
    (is_cancelled i' \<or>
     sint (rate_per_second i') * duration i' - sint (withdrawn i') \<le>
       sint (token_balance T (world h') (token i') self) \<and>
     earned t' i' - sint (withdrawn i') \<le> sint (token_balance T (world h') (token i') self))"
proof -
  have "solvent T self (t, h)"
    using assms(1-7) by (auto simp: solvent_def funded_def remaining_due_def)
  with assms(8) have "solvent T self (t', h')" by (rule funded_machine.inv_later)
  then obtain i' n' where i': "holds i' n' (instance_store h')" "info_inv t' i'"
    "funded T self i' (world h')"
    by (auto simp: solvent_def)
  moreover have "earned t' i' \<le> sint (rate_per_second i') * duration i'"
    using earned_payable [OF i'(2) order.refl] i'(3) by (simp add: payable_def funded_def)
  ultimately show ?thesis by (fastforce simp: funded_def remaining_due_def)
qed

section \<open>The recipient can withdraw\<close>

lemma withdraw_step_exists:
  assumes inv: "info_inv t i" and live: "token_live (token_client env)"
    and "token_conserves (token_client env)"
    and "\<not> is_cancelled i" and "has_authorized env (recipient i)" and "0 < sint amount"
    and "math_streamed_amount env i = Inr s"
    and owes: "sint (withdrawn i) < earned (ledger_timestamp env) i"
    and escrowed: "min (sint amount) (earned (ledger_timestamp env) i - sint (withdrawn i)) \<le>
      bal env w (token i) (current_contract_address env)"
    and room: "recipient i = current_contract_address env \<or>
      bal env w (token i) (recipient i) + sint amount < 2 ^ 127"
  obtains paid ev i' w' where "stream_step env i w (Withdraw amount) (Amount paid) ev i' w'"
    and "sint paid = min (sint amount) (earned (ledger_timestamp env) i - sint (withdrawn i))"
proof -
  let ?self = "current_contract_address env"
  let ?due = "earned (ledger_timestamp env) i - sint (withdrawn i)"
  have wd: "0 \<le> sint (withdrawn i)" using inv by (simp add: info_inv_def)
  obtain available where available: "math_withdrawable env i = Inr available"
    using assms(7) by (auto simp: math_withdrawable_def Let_def)
  have a: "sint available = ?due"
    using withdrawable_earned [OF available inv] owes by simp
  then have a0: "available \<noteq> 0" using owes by auto
  define paid where "paid = min_i128 amount available"
  have p: "sint paid = min (sint amount) ?due" by (simp add: paid_def sint_minmax a)
  have p0: "0 \<le> sint paid" "sint paid \<le> ?due" using p assms(6) owes by simp_all
  have s: "sint s = earned (ledger_timestamp env) i"
    using assms(7) inv by (simp add: streamed_earned info_inv_def)
  have "i128_fits (sint (withdrawn i) + sint paid)"
    using p0 wd sint_i128_range [of s] s by (simp add: i128_fits_def)
  from i128_exists [OF this] obtain total :: i128
    where total: "sint total = sint (withdrawn i) + sint paid" ..
  have "0 \<le> sint (escrow env i w) - sint paid"
    using escrowed p by (simp add: escrow_bal)
  then have "i128_fits (sint (escrow env i w) - sint paid)"
    using p0 sint_i128_range [of "escrow env i w"] by (simp add: i128_fits_def)
  from i128_exists [OF this] obtain rest :: i128
    where rest: "sint rest = sint (escrow env i w) - sint paid" ..
  have "0 \<le> sint paid \<and>
      sint paid \<le> sint (token_balance (token_client env) w (token i) ?self) \<and>
      (?self = recipient i \<or>
       sint (token_balance (token_client env) w (token i) (recipient i)) + sint paid < 2 ^ 127)"
    using p p0 escrowed room by (auto simp: bal_def)
  then obtain w' where "token_transfer (token_client env) w (token i) ?self (recipient i) paid = Some w'"
    using live unfolding token_live_def by blast
  with stream_step.withdraw [OF assms(6,4,5) available a0 paid_def total rest] p show ?thesis
    using that by blast
qed

text \<open>Liveness of withdrawal: as long as the token contract makes payable transfers,
  a recipient who authorizes a withdrawal from a stream that is not cancelled, has accrued more than
  was withdrawn (within 128 bits, and not through a pause set before the start), is solvent and has
  event numbers left, gets exactly the smaller of the requested and the earned amount.\<close>

theorem recipient_can_withdraw:
  assumes "holds i n (instance_store h)" and "info_inv t i"
    and "token_live (token_client env)" and "token_conserves (token_client env)"
    and "\<not> is_cancelled i" and "has_authorized env (recipient i)" and "0 < sint amount"
    and "\<not> (is_paused i \<and> paused_at i < start_time i)"
    and "i128_fits (accrued (ledger_timestamp env) i)"
    and "sint (withdrawn i) < earned (ledger_timestamp env) i"
    and "earned (ledger_timestamp env) i - sint (withdrawn i) \<le>
      bal env (world h) (token i) (current_contract_address env)"
    and "recipient i = current_contract_address env \<or>
      bal env (world h) (token i) (recipient i) + sint amount < 2 ^ 127"
    and "uint n + 1 < 2 ^ 64"
  shows "\<exists>paid h'. stream_withdraw env amount h = Inr (paid, h') \<and>
    sint paid = min (sint amount) (earned (ledger_timestamp env) i - sint (withdrawn i))"
proof -
  have "start_time i \<le> ledger_timestamp env \<longrightarrow> start_time i \<le> accrual_time (ledger_timestamp env) i"
    using assms(2,8) by (auto simp: accrual_time_def info_inv_def not_less)
  then have "math_streamed_amount env i = Inr (word_of_int (accrued (ledger_timestamp env) i))"
    using assms(9) by (simp add: streamed_amount_Inr_iff sint_word_of_int_fits)
  from withdraw_step_exists [OF assms(2-7) this assms(10) min.coboundedI2 [OF assms(11)] assms(12)] obtain paid ev i' w' where
    step: "stream_step env i (world h) (Withdraw amount) (Amount paid) ev i' w'"
    and paid: "sint paid = min (sint amount) (earned (ledger_timestamp env) i - sint (withdrawn i))" .
  have "stream_exec env (Withdraw amount) h =
      Inr (Amount paid, after i' (n + 1) (ev (n + 1)) w' h)"
    using implements_all [of env "Withdraw amount"] assms(1,13) step unfolding implements_def by blast
  then show ?thesis using paid by (auto simp: tx_simps)
qed

section \<open>Settlement goes through\<close>

lemma pay_exists:
  assumes "token_live T" and "sint a \<le> sint (token_balance T w tk src)"
    and "src = dst \<or> sint (token_balance T w tk dst) + sint a < 2 ^ 127"
  obtains w' where "pay T w tk src dst a = Some w'"
proof (cases "0 < sint a")
  case True
  then have "token_transfer T w tk src dst a \<noteq> None"
    using assms unfolding token_live_def by fastforce
  then show ?thesis using that True by (auto simp: pay_def)
next
  case False
  then show ?thesis using that by (simp add: pay_def)
qed

lemma settles_exists:
  assumes live: "token_live (token_client env)" and conserves: "token_conserves (token_client env)"
    and "math_streamed_amount env i = Inr s" and "0 \<le> sint s" and "0 \<le> sint (withdrawn i)"
    and room: "\<And>who. who = recipient i \<or> who = sender i \<Longrightarrow> who = current_contract_address env \<or>
      bal env w (token i) who + bal env w (token i) (current_contract_address env) < 2 ^ 127"
  obtains owed refund w' where "settles env i w owed refund w'"
proof -
  let ?self = "current_contract_address env"
  let ?B = "bal env w (token i) ?self"
  have B: "0 \<le> ?B" using conserves by (rule bal_nonneg)
  have "i128_fits (sint s - sint (withdrawn i))"
    using assms(4,5) sint_i128_range [of s] sint_i128_range [of "withdrawn i"] by (simp add: i128_fits_def)
  from i128_exists [OF this] obtain earned :: i128 where earned: "sint earned = sint s - sint (withdrawn i)" ..
  define owed where "owed = min_i128 (max_i128 earned 0) (escrow env i w)"
  have o: "0 \<le> sint owed" "sint owed \<le> ?B"
    using B by (simp_all add: owed_def sint_minmax escrow_bal)
  have "i128_fits (sint (escrow env i w) - sint owed)"
    using o sint_i128_range [of "escrow env i w"] by (simp add: i128_fits_def escrow_bal)
  from i128_exists [OF this] obtain rest :: i128 where rest: "sint rest = sint (escrow env i w) - sint owed" ..
  define refund where "refund = max_i128 rest 0"
  have r: "sint refund = ?B - sint owed"
    using o rest by (simp add: refund_def sint_minmax escrow_bal)
  obtain w1 where w1: "pay (token_client env) w (token i) ?self (recipient i) owed = Some w1"
    using pay_exists [OF live, of owed w "token i" ?self "recipient i"] o room [of "recipient i"]
    by (force simp: bal_def)
  have b1: "bal env w1 (token i) who = bal env w (token i) who + moved ?self (recipient i) (sint owed) who" for who
    using pay_bal [OF conserves w1] o by simp
  have "sint refund \<le> bal env w1 (token i) ?self"
    using b1 [of ?self] r o by (simp add: moved_def)
  moreover have "?self = sender i \<or> bal env w1 (token i) (sender i) + sint refund < 2 ^ 127"
    using b1 [of "sender i"] r o room [of "sender i"] by (auto simp: moved_def)
  ultimately obtain w2 where "pay (token_client env) w1 (token i) ?self (sender i) refund = Some w2"
    using pay_exists [OF live, of refund w1 "token i" ?self "sender i"] by (auto simp: bal_def)
  from settle [OF assms(3) earned owed_def rest refund_def w1 this] show ?thesis by (rule that)
qed

text \<open>Settlement goes through: with a token contract that makes payable transfers, the sender of
  a stream that is not cancelled can cancel it at any time, and the recipient of one that has been
  paused for thirty days can force it, provided that what has accrued can be computed (128 bits, not
  through a pause set before the start), that sender and recipient can hold what they get and that
  event numbers are left; the stream is then cancelled.\<close>

theorem settlement_goes_through:
  assumes "holds i n (instance_store h)" and "info_inv t i"
    and "token_live (token_client env)" and "token_conserves (token_client env)"
    and "\<not> is_cancelled i" and "\<not> (is_paused i \<and> paused_at i < start_time i)"
    and "i128_fits (accrued (ledger_timestamp env) i)"
    and "\<forall>who \<in> {recipient i, sender i} - {current_contract_address env}.
      bal env (world h) (token i) who +
      bal env (world h) (token i) (current_contract_address env) < 2 ^ 127"
    and "uint n + 1 < 2 ^ 64"
  shows "(has_authorized env (sender i) \<longrightarrow>
      (\<exists>h'. stream_cancel env h = Inr ((), h') \<and>
         holds (i\<lparr>flags := flags i OR FLAG_CANCELLED\<rparr>) (n + 1) (instance_store h'))) \<and>
    (has_authorized env (recipient i) \<and> is_paused i \<and>
     2592000 \<le> uint (ledger_timestamp env) - uint (paused_at i) \<longrightarrow>
      (\<exists>h'. stream_force_cancel env h = Inr ((), h') \<and>
         holds (i\<lparr>flags := flags i OR FLAG_CANCELLED\<rparr>) (n + 1) (instance_store h')))"
proof -
  have "start_time i \<le> ledger_timestamp env \<longrightarrow> start_time i \<le> accrual_time (ledger_timestamp env) i"
    using assms(2,6) by (auto simp: accrual_time_def info_inv_def not_less)
  then have s: "math_streamed_amount env i = Inr (word_of_int (accrued (ledger_timestamp env) i))"
    using assms(7) by (simp add: streamed_amount_Inr_iff sint_word_of_int_fits)
  have "0 \<le> sint (word_of_int (accrued (ledger_timestamp env) i) :: i128)"
    using streamed_earned [OF s] assms(2) by (simp add: info_inv_def earned_def)
  moreover have "0 \<le> sint (withdrawn i)" using assms(2) by (simp add: info_inv_def)
  moreover have "who = current_contract_address env \<or>
      bal env (world h) (token i) who +
      bal env (world h) (token i) (current_contract_address env) < 2 ^ 127"
    if "who = recipient i \<or> who = sender i" for who
    using assms(8) that by blast
  ultimately obtain owed refund w' where settles: "settles env i (world h) owed refund w'"
    by (rule settles_exists [OF assms(3,4) s])
  have run: "\<exists>h'. stream_exec env c h = Inr (Done, h') \<and>
      holds (i\<lparr>flags := flags i OR FLAG_CANCELLED\<rparr>) (n + 1) (instance_store h')"
    if "stream_step env i (world h) c Done ev (i\<lparr>flags := flags i OR FLAG_CANCELLED\<rparr>) w'" for c ev
  proof -
    have "stream_exec env c h =
        Inr (Done, after (i\<lparr>flags := flags i OR FLAG_CANCELLED\<rparr>) (n + 1) (ev (n + 1)) w' h)"
      using implements_all [of env c] assms(1,9) that unfolding implements_def by blast
    then show ?thesis by (simp add: holds_after)
  qed
  have thirty: "uint PAUSE_THRESHOLD_SECS = 2592000" by (simp add: PAUSE_THRESHOLD_SECS_def)
  have "\<exists>h'. stream_cancel env h = Inr ((), h') \<and>
      holds (i\<lparr>flags := flags i OR FLAG_CANCELLED\<rparr>) (n + 1) (instance_store h')"
    if "has_authorized env (sender i)"
    using run [OF stream_step.cancel [OF assms(5) that settles]] by (simp add: tx_simps)
  moreover have "\<exists>h'. stream_force_cancel env h = Inr ((), h') \<and>
      holds (i\<lparr>flags := flags i OR FLAG_CANCELLED\<rparr>) (n + 1) (instance_store h')"
    if "has_authorized env (recipient i)" "is_paused i"
      "2592000 \<le> uint (ledger_timestamp env) - uint (paused_at i)"
    using run [OF stream_step.force_cancel [OF assms(5) that(2) _ that(1) settles]] that(3) thirty
    by (simp add: tx_simps)
  ultimately show ?thesis by blast
qed

section \<open>Payment in full\<close>

lemma earned_at_end:
  assumes "info_inv t i" and "end_time i \<noteq> 0" and "end_time i < now"
  shows "earned now i = sint (rate_per_second i) * duration i"
proof -
  have "start_time i < end_time i" and "0 < sint (rate_per_second i)"
    using assms by (auto simp: info_inv_def)
  then have "\<not> now < start_time i" and "0 \<le> sint (rate_per_second i) * duration i"
    using assms(3) by (auto simp: duration_def word_less_alt)
  then show ?thesis
    using assms(2,3) by (simp add: earned_def accrued_def accrual_time_def duration_def word_gt_0)
qed

text \<open>A recipient is paid in full: once a solvent stream is past its end and not
  cancelled, at any later state one withdrawal of the largest amount pays all that is left of rate
  times length, as long as the token contract makes payable transfers and event numbers are left.\<close>

theorem recipient_is_paid_in_full:
  assumes "solvent (token_client env) (current_contract_address env) (t, k)"
    and "token_live (token_client env)" and "holds i m (instance_store k)"
    and "\<not> is_cancelled i" and "t \<le> ledger_timestamp env" and "end_time i < ledger_timestamp env"
    and "has_authorized env (recipient i)"
    and "sint (withdrawn i) < sint (rate_per_second i) * duration i"
    and "sint (rate_per_second i) * duration i = sint amount"
    and "recipient i = current_contract_address env \<or>
      bal env (world k) (token i) (recipient i) + sint amount < 2 ^ 127"
    and "uint m + 1 < 2 ^ 64"
  shows "\<exists>paid k' j. stream_withdraw env amount k = Inr (paid, k') \<and>
    sint paid = sint (rate_per_second i) * duration i - sint (withdrawn i) \<and>
    holds j (m + 1) (instance_store k') \<and>
    sint (withdrawn j) = sint (rate_per_second i) * duration i"
proof -
  have conserves: "token_conserves (token_client env)" using assms(1) by (simp add: solvent_def)
  obtain i' m' where i': "holds i' m' (instance_store k)" "info_inv t i'"
    "funded (token_client env) (current_contract_address env) i' (world k)"
    using assms(1) by (auto simp: solvent_def)
  have "i' = i" using holds_inject [OF i'(1) assms(3)] by simp
  with i' have inv: "info_inv t i"
    and funds: "funded (token_client env) (current_contract_address env) i (world k)" by simp_all
  let ?all = "sint (rate_per_second i) * duration i"
  have e0: "end_time i \<noteq> 0" using funds by (simp add: funded_def)
  have earned: "earned (ledger_timestamp env) i = ?all" using inv e0 assms(6) by (rule earned_at_end)
  have "accrual_time (ledger_timestamp env) i = end_time i"
    using e0 assms(6) by (simp add: accrual_time_def word_gt_0)
  moreover have "start_time i < end_time i" using inv e0 by (simp add: info_inv_def)
  moreover have "accrued (ledger_timestamp env) i = ?all"
    using \<open>start_time i < end_time i\<close> assms(6) calculation(1)
    by (auto simp: accrued_def duration_def)
  ultimately have amount: "math_streamed_amount env i = Inr amount"
    using assms(9) by (auto simp: streamed_amount_Inr_iff)
  have "0 \<le> sint (withdrawn i)" using inv by (simp add: info_inv_def)
  then have pos: "0 < sint amount" using assms(8,9) by linarith
  have escrowed: "earned (ledger_timestamp env) i - sint (withdrawn i) \<le>
      bal env (world k) (token i) (current_contract_address env)"
    using funds assms(4) by (simp add: earned funded_bal remaining_due_def)
  have owes: "sint (withdrawn i) < earned (ledger_timestamp env) i"
    using assms(8) by (simp add: earned)
  from withdraw_step_exists [OF inv assms(2) conserves assms(4,7) pos amount owes min.coboundedI2 [OF escrowed] assms(10)]
  obtain paid ev j w' where step: "stream_step env i (world k) (Withdraw amount) (Amount paid) ev j w'"
    and paid: "sint paid = min (sint amount) (earned (ledger_timestamp env) i - sint (withdrawn i))" .
  have paid': "sint paid = ?all - sint (withdrawn i)"
    using paid earned assms(9) \<open>0 \<le> sint (withdrawn i)\<close> by simp
  have "sint (withdrawn j) = sint (withdrawn i) + sint paid"
    using step by (rule step_Withdraw) auto
  moreover have "stream_exec env (Withdraw amount) k =
      Inr (Amount paid, after j (m + 1) (ev (m + 1)) w' k)"
    using implements_all [of env "Withdraw amount"] assms(3,11) step unfolding implements_def by blast
  then have "stream_withdraw env amount k = Inr (paid, after j (m + 1) (ev (m + 1)) w' k)"
    by (auto simp: tx_simps)
  ultimately show ?thesis using paid' holds_after by fastforce
qed

end
