(* ===== verification/Stream_Safety.thy ===== *)
theory Stream_Safety
  imports Stream_Payments
begin

text \<open>
  Safety of the entry points: they implement the abstract steps, only the right party can make a
  call, only the escrow or the paying sender can lose tokens, a cancelled stream is final, and the
  recorded withdrawals only grow.
\<close>

section \<open>Refinement\<close>

text \<open>Property C1. On a store that holds a stream, an entry point succeeds exactly when the abstract
  step relation has a step for the call and the event counter is not exhausted; the host after it
  is the one the step determines: the new struct under every key, one event with the next number,
  one extension of the instance's time to live, the new token balances and nothing else.\<close>

theorem stream_exec_refines_step:
  assumes "holds i n (instance_store h)"
  shows "stream_exec env c h = Inr (r, h') \<longleftrightarrow>
    (\<exists>ev i' w'. stream_step env i (world h) c r ev i' w' \<and> uint n + 1 < 2 ^ 64 \<and>
       h' = h\<lparr>instance_store := saved_keys i' [EventSequence \<mapsto> VU64 (n + 1)],
              ttl_log := ttl_log h @ [(None, STREAM_TTL_THRESHOLD, STREAM_TTL_EXTEND_TO)],
              event_log := event_log h @ [ev (n + 1)], world := w'\<rparr>)"
  using assms implements_all [of env c] unfolding implements_def after_def by blast

section \<open>Authorization\<close>

text \<open>The party whose authorization a call needs.\<close>

fun caller_of :: "stream_call \<Rightarrow> stream_info \<Rightarrow> address" where
  "caller_of (Withdraw _) i = recipient i"
| "caller_of ForceCancel i = recipient i"
| "caller_of (TransferRecipient _) i = recipient i"
| "caller_of _ i = sender i"

lemma step_authorized: "stream_step env i w c r ev i' w' \<Longrightarrow> has_authorized env (caller_of c i)"
  by (auto elim!: stream_step.cases)

lemma step_not_cancelled: "stream_step env i w c r ev i' w' \<Longrightarrow> \<not> is_cancelled i"
  by (auto elim!: stream_step.cases)

text \<open>No call takes effect without the authorization of the right party: the stored
  recipient for withdrawing, force-cancelling and handing over the recipient's role, the stored
  sender for everything else.\<close>

theorem calls_need_authorization:
  assumes "holds i n (instance_store h)" and "\<not> has_authorized env (caller_of c i)"
  shows "\<exists>e. stream_exec env c h = Inl e"
proof (cases "stream_exec env c h")
  case (Inr x)
  then obtain r h' where "stream_exec env c h = Inr (r, h')" by (cases x) auto
  with assms(1) obtain ev i' w' where "stream_step env i (world h) c r ev i' w'"
    by (rule stream_exec_step)
  then have "has_authorized env (caller_of c i)" by (rule step_authorized)
  then show ?thesis using assms(2) by simp
qed simp

section \<open>Who can lose tokens\<close>

text \<open>The calls that the sender pays for.\<close>

fun sender_pays :: "stream_call \<Rightarrow> bool" where
  "sender_pays (TopUp _) \<longleftrightarrow> True"
| "sender_pays (ExtendDuration _) \<longleftrightarrow> True"
| "sender_pays _ \<longleftrightarrow> False"

lemma settles_debits:
  assumes "settles env i w a b w2" and "token_conserves (token_client env)"
    and "who \<noteq> current_contract_address env"
  shows "bal env w tk who \<le> bal env w2 tk who"
proof -
  from assms(1) obtain w1 where
    w1: "pay (token_client env) w (token i) (current_contract_address env) (recipient i) a = Some w1"
    and w2: "pay (token_client env) w1 (token i) (current_contract_address env) (sender i) b = Some w2"
    by (rule settles.cases) blast
  have pay_mono: "bal env w tk who \<le> bal env w' tk who"
    if "pay (token_client env) w tk' (current_contract_address env) dst x = Some w'" for w w' tk' dst x
  proof (cases "0 < sint x")
    case True
    then show ?thesis using pay_bal [OF assms(2) that] assms(3) by (auto simp: moved_def)
  next
    case False
    then show ?thesis using that by (simp add: pay_def)
  qed
  show ?thesis using pay_mono [OF w1] pay_mono [OF w2] by (rule order_trans)
qed

lemma transfer_debits:
  assumes "token_conserves (token_client env)"
    and "token_transfer (token_client env) w tk' src dst a = Some w'" and "who \<noteq> src"
  shows "bal env w tk who \<le> bal env w' tk who"
  using transfer_bal [OF assms(1,2)] token_transfer_amount [OF assms(1,2)] assms(3)
  by (auto simp: moved_def)

lemma pay_debits:
  assumes "token_conserves (token_client env)"
    and "pay (token_client env) w tk' src dst a = Some w'" and "who \<noteq> src"
  shows "bal env w tk who \<le> bal env w' tk who"
  using transfer_debits [OF assms(1) _ assms(3)] assms(2) by (auto simp: pay_def split: if_splits)

lemma step_debits:
  assumes "stream_step env i w c r ev i' w'" and "token_conserves (token_client env)"
    and "who \<noteq> current_contract_address env"
    and "who \<noteq> sender i \<or> \<not> sender_pays c"
  shows "bal env w tk who \<le> bal env w' tk who"
  using assms
  by (cases c) (auto simp: step_iffs intro: settles_debits transfer_debits pay_debits)

text \<open>A call can lower only the contract's own balance, and the sender's when the sender
  is the one who tops up or extends; every other balance, of any holder in any token, is at least
  what it was.\<close>

theorem only_escrow_and_payer_debited:
  assumes "holds i n (instance_store h)" and "token_conserves (token_client env)"
    and "stream_exec env c h = Inr (r, h')" and "who \<noteq> current_contract_address env"
    and "who \<noteq> sender i \<or> \<not> sender_pays c"
  shows "bal env (world h) tk who \<le> bal env (world h') tk who"
  using stream_exec_step [OF assms(1,3)] step_debits [OF _ assms(2,4,5)]
  by (metis after_world)

section \<open>A cancelled stream is final\<close>

fun well_formed :: "stream_call \<Rightarrow> bool" where
  "well_formed (Withdraw amount) \<longleftrightarrow> 0 < sint amount"
| "well_formed (TopUp amount) \<longleftrightarrow> 0 < sint amount"
| "well_formed (ExtendDuration secs) \<longleftrightarrow> secs \<noteq> 0"
| "well_formed _ \<longleftrightarrow> True"

lemma cancelled_exec:
  assumes "holds i n (instance_store h)" and "is_cancelled i"
  shows "\<exists>e. stream_exec env c h = Inl e \<and>
    (well_formed c \<and> (\<forall>a. c = TopUp a \<longrightarrow> has_authorized env (sender i)) \<longrightarrow> e = Err StreamCancelled)"
proof -
  have load: "state_load (h\<lparr>ttl_log := l\<rparr>) = Inr (i, h\<lparr>ttl_log := l\<rparr>)" for l
    using assms(1) by (simp add: holds_load)
  show ?thesis
    using assms(2) load [of "ttl_log h"]
    by (cases c)
      (auto simp: stream_withdraw_def stream_cancel_def stream_pause_def stream_resume_def
        stream_top_up_def stream_extend_duration_def stream_clawback_def stream_force_cancel_def
        stream_transfer_recipient_def done_tx_def amount_tx_def tx_eval stream_ttl_bump_def
        instance_extend_ttl_def load assert_not_cancelled_def require_auth_def)
qed

definition same_stream :: "'w stream_host \<Rightarrow> 'w stream_state \<Rightarrow> bool" where
  "same_stream h0 s \<longleftrightarrow>
     instance_store (snd s) = instance_store h0 \<and> event_log (snd s) = event_log h0 \<and>
     (\<exists>i n. holds i n (instance_store h0) \<and> is_cancelled i)"

lemma same_stream_move: "stream_move T self s s' \<Longrightarrow> same_stream h0 s \<Longrightarrow> same_stream h0 s'"
proof (induction rule: stream_move.induct)
  case (move_call now env c h r h')
  then obtain i n where "holds i n (instance_store h)" and "is_cancelled i"
    by (auto simp: same_stream_def)
  from cancelled_exec [OF this, of env c] move_call(4) show ?case by auto
qed (simp add: same_stream_def)

interpretation cancelled_machine: invariant "\<lambda>s. s = (t0, h0) \<and> same_stream h0 s"
  "stream_move T self" "same_stream h0" for t0 h0 T self
  by unfold_locales (auto intro: same_stream_move)

text \<open>Property C23. Cancellation is final: every call on a cancelled stream fails, with
  \<open>StreamCancelled\<close> when its arguments are valid (a top-up also needs the sender's authorization to
  get that far), \<open>withdrawable\<close> and \<open>streamed_total\<close> read 0, and whatever
  is done later the stored stream and its events stay as they are.\<close>

theorem cancelled_is_final:
  assumes "holds i n (instance_store h)" and "is_cancelled i"
  shows "(\<exists>e. stream_exec env c h = Inl e \<and>
      (well_formed c \<and> (\<forall>a. c = TopUp a \<longrightarrow> has_authorized env (sender i)) \<longrightarrow>
         e = Err StreamCancelled)) \<and>
    stream_withdrawable env h = Inr (0, h) \<and> stream_streamed_total env h = Inr (0, h) \<and>
    (later (stream_move T self) (t, h) (t', h') \<longrightarrow>
       instance_store h' = instance_store h \<and> event_log h' = event_log h)"
proof -
  have "same_stream h (t, h)" using assms by (auto simp: same_stream_def)
  then have "later (stream_move T self) (t, h) (t', h') \<Longrightarrow> same_stream h (t', h')"
    by (rule cancelled_machine.inv_later [rotated])
  moreover have "stream_withdrawable env h = Inr (0, h)" "stream_streamed_total env h = Inr (0, h)"
    using assms holds_load [OF assms(1)]
    by (simp_all add: stream_withdrawable_def stream_streamed_total_def tx_eval)
  ultimately show ?thesis
    using cancelled_exec [OF assms, of env c] by (auto simp: same_stream_def)
qed

section \<open>Withdrawals only grow\<close>

definition recorded_withdrawn :: "'w stream_state \<Rightarrow> int" where
  "recorded_withdrawn s =
     (case instance_store (snd s) Withdrawn of Some (VI128 a) \<Rightarrow> sint a | _ \<Rightarrow> 0)"

lemma holds_recorded_withdrawn:
  "holds i n (instance_store h) \<Longrightarrow> recorded_withdrawn (t, h) = sint (withdrawn i)"
  by (simp add: holds_def saved_keys_def recorded_withdrawn_def)

lemma step_withdrawn_mono:
  assumes "stream_step env i w c r ev i' w'" and "info_inv t i"
  shows "sint (withdrawn i) \<le> sint (withdrawn i')"
proof (cases c)
  case (Withdraw amount)
  with assms show ?thesis
    by (auto simp: sint_minmax dest: withdrawable_earned [OF _ assms(2)] elim!: step_Withdraw)
qed (use assms in \<open>auto simp: step_iffs\<close>)

lemma recorded_withdrawn_move:
  "stream_move T self s s' \<Longrightarrow> stream_inv s \<Longrightarrow> recorded_withdrawn s \<le> recorded_withdrawn s'"
proof (induction rule: stream_move.induct)
  case (move_call now env c h r h')
  then obtain i n where inv: "holds i n (instance_store h)" "info_inv now i"
    by (blast elim: stream_invE)
  from inv(1) move_call(4) obtain ev i' w' where step: "stream_step env i (world h) c r ev i' w'"
    and h': "h' = after i' (n + 1) (ev (n + 1)) w' h"
    by (rule stream_exec_step)
  have "recorded_withdrawn (ledger_timestamp env, h') = sint (withdrawn i')"
    unfolding h' by (rule holds_recorded_withdrawn [OF holds_after])
  then show ?case
    using step_withdrawn_mono [OF step inv(2)] holds_recorded_withdrawn [OF inv(1)] by simp
qed (simp add: recorded_withdrawn_def)

interpretation stream_withdrawals: monotone_invariant stream_init "stream_move T self" stream_inv
  recorded_withdrawn for T self
  by unfold_locales (rule recorded_withdrawn_move)

text \<open>Property C15. In every state that any sequence of calls can reach, the store holds a stream
  with every key in step, a positive rate, an end after its start, a pause instant not in the
  future, withdrawals between zero and what the stream can pay (all it has accrued if open-ended,
  rate times length if bounded), and events numbered from one without a gap; and from there on the
  recorded withdrawals never decrease.\<close>

theorem reachable_streams_are_consistent:
  assumes "reaches stream_init (stream_move T self) s"
  shows "(\<exists>i n. holds i n (instance_store (snd s)) \<and> 0 < sint (rate_per_second i) \<and>
      (end_time i = 0 \<or> start_time i < end_time i) \<and>
      (is_paused i \<longrightarrow> paused_at i \<le> fst s) \<and>
      0 \<le> sint (withdrawn i) \<and> sint (withdrawn i) \<le> payable (fst s) i \<and>
      uint n = int (length (event_log (snd s))) \<and>
      map (uint \<circ> event_sequence_of) (event_log (snd s)) =
        map int [1 ..< Suc (length (event_log (snd s)))]) \<and>
    (\<forall>s'. later (stream_move T self) s s' \<longrightarrow> recorded_withdrawn s \<le> recorded_withdrawn s')"
proof -
  have inv: "stream_inv s" using assms by (rule stream_machine.inv_reaches)
  then have "\<forall>s'. later (stream_move T self) s s' \<longrightarrow> recorded_withdrawn s \<le> recorded_withdrawn s'"
    by (blast intro: stream_withdrawals.measured_later)
  moreover obtain i n where "holds i n (instance_store (snd s))" "info_inv (fst s) i"
    "log_numbered n (event_log (snd s))"
    using inv by (auto simp: stream_inv_def)
  ultimately show ?thesis by (auto simp: info_inv_def log_numbered_def)
qed

end
