(* ===== verification/Stream_Timing.thy ===== *)
theory Stream_Timing
  imports Stream_Safety
begin

text \<open>
  Pausing, resuming and the edges of the time line: what a pause freezes and what it does not, how
  a resume shifts the schedule, when a recipient can force-cancel, and in which order the entry
  points report their errors.
\<close>

section \<open>Accrual while paused\<close>

lemma withdrawable_total:
  assumes "math_streamed_amount env i = Inr s"
  shows "\<exists>a. math_withdrawable env i = Inr a"
  using assms by (auto simp: math_withdrawable_def Let_def)






text \<open>Property C26. A stream that was paused before it started cannot be settled or clawed back after
  its start, as long as it is not resumed and, if it is bounded, its end has not passed: signed
  calls of \<open>cancel\<close>, of \<open>force_cancel\<close> after the thirty days that are meant to free the recipient, and
  of \<open>clawback\<close> where it is enabled all fail with \<open>ArithmeticOverflow\<close>.\<close>

theorem pause_before_start_blocks_settlement:
  assumes "holds i n (instance_store h)" and "\<not> is_cancelled i" and "is_paused i"
    and "paused_at i < start_time i" and "start_time i \<le> ledger_timestamp env"
    and "end_time i = 0 \<or> ledger_timestamp env \<le> end_time i"
    and "has_authorized env (sender i)" and "has_authorized env (recipient i)"
  shows "stream_cancel env h = Inl (Err ArithmeticOverflow) \<and>
    (uint PAUSE_THRESHOLD_SECS \<le> uint (ledger_timestamp env) - uint (paused_at i) \<longrightarrow>
       stream_force_cancel env h = Inl (Err ArithmeticOverflow)) \<and>
    (is_clawback_enabled i \<longrightarrow> stream_clawback env h = Inl (Err ArithmeticOverflow))"
proof -
  have over: "math_streamed_amount env i = Inl ArithmeticOverflow"
    using assms(3-6) by (auto simp: streamed_amount_Inl_iff accrual_time_def)
  have load: "state_load (h\<lparr>ttl_log := l\<rparr>) = Inr (i, h\<lparr>ttl_log := l\<rparr>)" for l
    using assms(1) by (simp add: holds_load)
  show ?thesis
    using assms(2,3,7,8) paused_long_enough_iff
    by (simp add: stream_cancel_def stream_force_cancel_def stream_clawback_def stream_settle_def
        tx_eval stream_ttl_bump_def instance_extend_ttl_def load assert_not_cancelled_def
        require_auth_def tk_balance_def over Let_def)
qed

section \<open>Pause and resume\<close>

lemma accrued_shift:
  assumes "uint (start_time j) = uint (start_time i) + d" and "0 \<le> d"
    and "uint (end_time j) = (if 0 < end_time i then uint (end_time i) + d else 0)"
    and "rate_per_second j = rate_per_second i" and "\<not> is_paused i" and "\<not> is_paused j"
    and "uint t = uint t0 + d"
  shows "accrued t j = accrued t0 i"
proof -
  have start: "t < start_time j \<longleftrightarrow> t0 < start_time i"
    using assms(1,7) by (simp add: word_less_alt)
  have "0 < end_time j \<longleftrightarrow> 0 < end_time i"
    using assms(2,3) unfolding word_less_alt by (auto split: if_splits)
  moreover have "0 < end_time i \<Longrightarrow> end_time j < t \<longleftrightarrow> end_time i < t0"
    using assms(3,7) by (simp add: word_less_alt)
  ultimately have "uint (accrual_time t j) = uint (accrual_time t0 i) + d"
    using assms(3,5-7) by (auto simp: accrual_time_def)
  with start assms(1,4) show ?thesis by (simp add: accrued_def)
qed

text \<open>A pause followed by a resume shifts the whole schedule by the length of the pause:
  start and end move by it, everything else is as before the pause, and at any time after the
  resume the stream has accrued exactly what the unpaused stream had accrued that much earlier.\<close>

theorem resume_shifts_schedule:
  assumes "holds i n (instance_store h)" and "stream_pause env1 h = Inr (u1, h1)"
    and "ledger_timestamp env1 \<le> ledger_timestamp env2" and "stream_resume env2 h1 = Inr (u2, h2)"
  shows "\<exists>j. holds j (n + 1 + 1) (instance_store h2) \<and>
    uint (start_time j) = uint (start_time i) +
      (uint (ledger_timestamp env2) - uint (ledger_timestamp env1)) \<and>
    uint (end_time j) = (if 0 < end_time i then uint (end_time i) +
      (uint (ledger_timestamp env2) - uint (ledger_timestamp env1)) else 0) \<and>
    j\<lparr>start_time := start_time i, end_time := end_time i, paused_at := paused_at i\<rparr> = i \<and>
    (\<forall>t t0. uint t = uint t0 +
        (uint (ledger_timestamp env2) - uint (ledger_timestamp env1)) \<longrightarrow>
       accrued t j = accrued t0 i)"
proof -
  let ?d = "uint (ledger_timestamp env2) - uint (ledger_timestamp env1)"
  have "stream_exec env1 Pause h = Inr (Done, h1)" using assms(2) by (simp add: tx_simps)
  with assms(1) obtain ev i1 w1 where p: "stream_step env1 i (world h) Pause Done ev i1 w1"
    and h1: "h1 = after i1 (n + 1) (ev (n + 1)) w1 h"
    by (rule stream_exec_step)
  have holds1: "holds i1 (n + 1) (instance_store h1)" unfolding h1 by (rule holds_after)
  have "stream_exec env2 Resume h1 = Inr (Done, h2)" using assms(4) by (simp add: tx_simps)
  with holds1 obtain ev' j w2 where r: "stream_step env2 i1 (world h1) Resume Done ev' j w2"
    and h2: "h2 = after j (n + 1 + 1) (ev' (n + 1 + 1)) w2 h1"
    by (rule stream_exec_step)
  from p have i1: "i1 = i\<lparr>flags := flags i OR FLAG_PAUSED, paused_at := ledger_timestamp env1\<rparr>"
    and unpaused: "\<not> is_paused i"
    by (auto simp: step_iffs)
  from r obtain dur ns ne where dur: "uint (dur :: u64) = ?d"
    and ns: "uint ns = uint (start_time i1) + uint dur"
    and ne: "uint ne = (if 0 < end_time i1 then uint (end_time i1) + uint dur else 0)"
    and j: "j = i1\<lparr>start_time := ns, flags := flags i1 AND NOT FLAG_PAUSED, paused_at := 0,
              end_time := ne\<rparr>"
    by (rule step_Resume) (fastforce simp: i1)
  have "(flags i OR FLAG_PAUSED) AND NOT FLAG_PAUSED = flags i"
    using unpaused by (auto simp: flag_tests bit_eq_iff bit_simps)
  then have frame: "j\<lparr>start_time := start_time i, end_time := end_time i,
      paused_at := paused_at i\<rparr> = i"
    by (simp add: j i1)
  have "0 \<le> ?d" using assms(3) by (simp add: word_le_def)
  have "\<forall>t t0. uint t = uint t0 + ?d \<longrightarrow> accrued t j = accrued t0 i"
    using accrued_shift [of j i ?d] dur ns ne unpaused \<open>0 \<le> ?d\<close> by (simp add: j i1)
  moreover have "holds j (n + 1 + 1) (instance_store h2)" unfolding h2 by (rule holds_after)
  ultimately show ?thesis using frame dur ns ne by (auto simp: j i1)
qed

section \<open>Errors\<close>

text \<open>
  What an entry point checks before it moves tokens, in its order; the first failing check is the
  failure of the call.
\<close>

fun first_failure ::
  "('w, 'n) env_scheme \<Rightarrow> stream_info \<Rightarrow> stream_call \<Rightarrow> stream_error failure option" where
  "first_failure env i (Withdraw amount) =
     (if sint amount \<le> 0 then Some (Err InvalidAmount)
      else if is_cancelled i then Some (Err StreamCancelled)
      else if \<not> has_authorized env (recipient i) then Some (Trap AuthError)
      else case math_streamed_amount env i of
             Inl e \<Rightarrow> Some (Err ArithmeticOverflow)
           | Inr s \<Rightarrow> if sint s \<le> sint (withdrawn i) then Some (Err NothingToWithdraw) else None)"
| "first_failure env i Cancel =
     (if is_cancelled i then Some (Err StreamCancelled)
      else if \<not> has_authorized env (sender i) then Some (Trap AuthError)
      else case math_streamed_amount env i of
             Inl e \<Rightarrow> Some (Err ArithmeticOverflow) | Inr s \<Rightarrow> None)"
| "first_failure env i Pause =
     (if is_cancelled i then Some (Err StreamCancelled)
      else if is_paused i then Some (Err AlreadyPaused)
      else if \<not> has_authorized env (sender i) then Some (Trap AuthError)
      else case math_streamed_amount env i of
             Inl e \<Rightarrow> Some (Err ArithmeticOverflow) | Inr s \<Rightarrow> None)"
| "first_failure env i Resume =
     (if is_cancelled i then Some (Err StreamCancelled)
      else if \<not> is_paused i then Some (Err NotPaused)
      else if \<not> has_authorized env (sender i) then Some (Trap AuthError)
      else if ledger_timestamp env < paused_at i then Some (Trap ArithmeticPanic)
      else None)"
| "first_failure env i (TopUp amount) =
     (if sint amount \<le> 0 then Some (Err InvalidAmount)
      else if \<not> has_authorized env (sender i) then Some (Trap AuthError)
      else if is_cancelled i then Some (Err StreamCancelled) else None)"
| "first_failure env i (ExtendDuration secs) =
     (if secs = 0 then Some (Err InvalidTimeRange)
      else if is_cancelled i then Some (Err StreamCancelled)
      else if \<not> has_authorized env (sender i) then Some (Trap AuthError)
      else if end_time i = 0 then Some (Err InvalidTimeRange)
      else if \<not> i128_fits (uint secs * sint (rate_per_second i)) then Some (Err ArithmeticOverflow)
      else None)"
| "first_failure env i Clawback =
     (if is_cancelled i then Some (Err StreamCancelled)
      else if \<not> is_clawback_enabled i then Some (Err ClawbackDisabled)
      else if \<not> has_authorized env (sender i) then Some (Trap AuthError)
      else case math_streamed_amount env i of
             Inl e \<Rightarrow> Some (Err ArithmeticOverflow) | Inr s \<Rightarrow> None)"
| "first_failure env i ForceCancel =
     (if is_cancelled i then Some (Err StreamCancelled)
      else if \<not> is_paused i then Some (Err NotPaused)
      else if uint (ledger_timestamp env) < uint (paused_at i) + 30 * 24 * 60 * 60
        then Some (Err PauseThresholdNotMet)
      else if \<not> has_authorized env (recipient i) then Some (Trap AuthError)
      else case math_streamed_amount env i of
             Inl e \<Rightarrow> Some (Err ArithmeticOverflow) | Inr s \<Rightarrow> None)"
| "first_failure env i (TransferRecipient rcp) =
     (if is_cancelled i then Some (Err StreamCancelled)
      else if \<not> has_authorized env (recipient i) then Some (Trap AuthError) else None)"

lemma withdrawable_zero_iff:
  assumes "math_streamed_amount env i = Inr s" and "0 \<le> sint (withdrawn i)"
  shows "math_withdrawable env i = Inr 0 \<longleftrightarrow> sint s \<le> sint (withdrawn i)"
  using assms by (auto simp: withdrawable_Inr_iff)

lemma withdrawable_failure:
  "math_streamed_amount env i = Inl e \<Longrightarrow> math_withdrawable env i = Inl ArithmeticOverflow"
  using streamed_amount_Inl_iff [of env i e] by (simp add: math_withdrawable_def)

lemma next_sequence_Inl_iff:
  assumes "instance_store h EventSequence = Some (VU64 n)"
  shows "next_sequence h = Inl e \<longleftrightarrow> 2 ^ 64 \<le> uint n + 1 \<and> e = Err ArithmeticOverflow"
  using assms by (auto simp: next_sequence_def tx_eval host_eval checked_add_u_def)

lemma assert_not_cancelled_Inl_iff [tx_fails]:
  "assert_not_cancelled i h = Inl e \<longleftrightarrow> is_cancelled i \<and> e = Err StreamCancelled"
  by (simp add: assert_not_cancelled_def tx_fails)

lemma state_Inl_iff [tx_fails]:
  "state_save i h = Inl e \<longleftrightarrow> False"
  "stream_ttl_bump h = Inl e \<longleftrightarrow> False"
  by (simp_all add: state_save_eq stream_ttl_bump_def tx_fails)

lemma state_load_Inl:
  "instance_store h Config = Some (VStruct i) \<Longrightarrow> state_load h \<noteq> Inl e"
  by (simp add: state_load_Config)

lemmas failing =
  tx_fails tx_simps done_tx_def amount_tx_def stream_ttl_bump_def state_load_eval holds_def Let_def
  next_sequence_Inl_iff event_defs state_set_cancelled_def state_save_withdrawn_def

lemma streamed_overflow: "math_streamed_amount env i = Inl e \<Longrightarrow> e = ArithmeticOverflow"
  using streamed_amount_Inl_iff by blast

definition late_failures :: "stream_error failure set" where
  "late_failures = {Trap TokenFailure, Trap ArithmeticPanic, Err ArithmeticOverflow}"

definition fails_in_order :: "('w, 'n) env_scheme \<Rightarrow> stream_call \<Rightarrow> bool" where
  "fails_in_order env c \<longleftrightarrow>
     (\<forall>i n h e. holds i n (instance_store h) \<and> 0 \<le> sint (withdrawn i) \<longrightarrow>
        (first_failure env i c = Some e \<longrightarrow> stream_exec env c h = Inl e) \<and>
        (first_failure env i c = None \<and> stream_exec env c h = Inl e \<longrightarrow> e \<in> late_failures))"

lemmas failing_split = if_splits sum.splits

lemma settle_failure:
  assumes "holds i n (instance_store h)"
  shows "math_streamed_amount env i = Inl e \<Longrightarrow> stream_settle env i h = Inl (Err ArithmeticOverflow)"
    and "stream_settle env i h = Inl e' \<Longrightarrow> e' \<in> late_failures"
  using assms
  by (auto simp: stream_settle_def failing late_failures_def split: failing_split
      dest: streamed_overflow)

lemma holds_ttl: "holds i n (instance_store (h\<lparr>ttl_log := l\<rparr>)) \<longleftrightarrow> holds i n (instance_store h)"
  by simp

lemma paused_too_short_iff:
  "saturating_sub_u now p < PAUSE_THRESHOLD_SECS \<longleftrightarrow> uint now < uint p + 30 * 24 * 60 * 60"
  using paused_long_enough_iff [of now p] by (auto simp: PAUSE_THRESHOLD_SECS_def)

lemma failing_Cancel: "fails_in_order env Cancel"
  unfolding fails_in_order_def
  by (auto simp: stream_cancel_def done_tx_def tx_fails tx_simps stream_ttl_bump_def holds_load
      dest: settle_failure(2) [rotated] split: failing_split) 
    (auto simp: settle_failure(1))

lemma failing_ForceCancel: "fails_in_order env ForceCancel"
  unfolding fails_in_order_def
  by (auto simp: stream_force_cancel_def done_tx_def tx_fails tx_simps stream_ttl_bump_def holds_load
      Let_def paused_too_short_iff dest: settle_failure(2) [rotated] split: failing_split) 
    (auto simp: settle_failure(1))

lemma failing_Withdraw: "fails_in_order env (Withdraw amount)"
  unfolding fails_in_order_def
  using withdrawable_zero_iff [of env] withdrawable_total [of env] withdrawable_failure [of env]
  by (fastforce simp: stream_withdraw_def failing late_failures_def not_le split: failing_split
      dest: streamed_overflow)

lemma failing_Pause: "fails_in_order env Pause"
  unfolding fails_in_order_def
  using withdrawable_total [of env] withdrawable_failure [of env]
  by (fastforce simp: stream_pause_def failing late_failures_def split: failing_split
      dest: streamed_overflow)

lemma failing_Resume: "fails_in_order env Resume"
  unfolding fails_in_order_def
  by (auto simp: stream_resume_def failing late_failures_def checked_sub_u_None_iff word_less_alt
      split: if_splits)

lemma failing_TopUp: "fails_in_order env (TopUp amount)"
  unfolding fails_in_order_def
  by (auto simp: stream_top_up_def failing late_failures_def split: if_splits)

lemma failing_ExtendDuration: "fails_in_order env (ExtendDuration secs)"
  unfolding fails_in_order_def
  by (auto simp: stream_extend_duration_def failing late_failures_def checked_mul_i128_def
      i128_of_None_iff split: if_splits)

lemma failing_Clawback: "fails_in_order env Clawback"
  unfolding fails_in_order_def
  by (auto simp: stream_clawback_def failing late_failures_def split: failing_split
      dest: streamed_overflow)

lemma failing_TransferRecipient: "fails_in_order env (TransferRecipient rcp)"
  unfolding fails_in_order_def
  by (auto simp: stream_transfer_recipient_def failing late_failures_def split: if_splits)

text \<open>Property C24. The entry points report their failures in a fixed order: whatever the store
  holds, the first failing check of \<open>first_failure\<close> is the outcome of the call; and when no check
  fails, the only failures left are a refused token transfer, an exhausted event counter, and an
  overflow of a time or an amount.\<close>

theorem calls_fail_in_order:
  assumes "holds i n (instance_store h)" and "0 \<le> sint (withdrawn i)"
  shows "(first_failure env i c = Some e \<longrightarrow> stream_exec env c h = Inl e) \<and>
    (first_failure env i c = None \<and> stream_exec env c h = Inl e' \<longrightarrow>
       e' \<in> {Trap TokenFailure, Trap ArithmeticPanic, Err ArithmeticOverflow})"
proof -
  have "fails_in_order env c"
    by (cases c)
      (simp_all only: failing_Withdraw failing_Cancel failing_Pause failing_Resume failing_TopUp
        failing_ExtendDuration failing_Clawback failing_ForceCancel failing_TransferRecipient)
  with assms show ?thesis unfolding fails_in_order_def late_failures_def by blast
qed

end
