(* ===== verification/Stream_Origin.thy ===== *)
theory Stream_Origin
  imports Stream_Safety
begin

text \<open>
  The beginning of a stream and how it reads from outside: initialization, the older storage
  layout, and the read-only entry points.
\<close>

section \<open>Initialization\<close>

text \<open>\<open>initialize\<close> on every branch: it refuses an instance that already has the stored
  struct, a rate that is not positive, and an end that is set but not after the start, in this
  order; otherwise it stores the requested terms with nothing withdrawn, not paused, not cancelled
  and the event counter at zero. After it every later state refuses a second initialization.\<close>

theorem initialize_result:
  "stream_initialize sndr rcp tok rate t0 t1 clawback h =
     (if instance_store h Config \<noteq> None then Inl (Err AlreadyInitialized)
      else if sint rate \<le> 0 then Inl (Err InvalidAmount)
      else if 0 < uint t1 \<and> uint t1 \<le> uint t0 then Inl (Err InvalidTimeRange)
      else Inr ((), h\<lparr>instance_store := saved_keys
          \<lparr>sender = sndr, recipient = rcp, token = tok, rate_per_second = rate, start_time = t0,
           end_time = t1, withdrawn = 0, paused_at = 0,
           flags = (if clawback then FLAG_CLAWBACK_ENABLED else 0)\<rparr>
          ((instance_store h)(EventSequence \<mapsto> VU64 0)),
        ttl_log := ttl_log h @ [(None, STREAM_TTL_THRESHOLD, STREAM_TTL_EXTEND_TO)]\<rparr>))"
proof (cases "stream_initialize sndr rcp tok rate t0 t1 clawback h")
  case (Inl e)
  then show ?thesis
    by (auto simp: stream_initialize_def tx_fails tx_simps stream_ttl_bump_def Let_def state_save_eq
        word_less_alt word_le_def)
next
  case (Inr r)
  then obtain h' where "stream_initialize sndr rcp tok rate t0 t1 clawback h = Inr ((), h')"
    by (cases r) auto
  then show ?thesis
    by (auto simp: stream_initialize_Inr_iff initial_info_def word_less_alt)
qed

text \<open>A stream can be initialized once: from the state a successful \<open>initialize\<close>
  leaves on a fresh instance, no later state accepts another one.\<close>

theorem initialize_only_once:
  assumes "stream_init (t, h)" and "later (stream_move T self) (t, h) (t', h')"
  shows "stream_initialize sndr rcp tok rate t0 t1 clawback h' = Inl (Err AlreadyInitialized)"
proof -
  have "stream_inv (t, h)" using assms(1) by (rule stream_init_inv)
  with assms(2) have "stream_inv (t', h')" by (rule stream_machine.inv_later)
  then have "instance_store h' Config \<noteq> None" by (auto simp: stream_inv_def holds_def)
  then show ?thesis by (simp add: stream_initialize_def tx_eval instance_has_def)
qed

section \<open>The older storage layout\<close>

text \<open>Property C27. A stream stored only under the individual keys of the older layout (no stored
  struct) loads as the same stream, so every entry point works on it; yet \<open>initialize\<close>, which only
  looks for the stored struct, still accepts it from anyone, and replaces its parties, its terms
  and what it has withdrawn.\<close>

theorem legacy_stream_can_be_reinitialized:
  assumes "holds i n m" and "instance_store h = m(Config := None)"
    and "0 < sint rate" and "t1 = 0 \<or> t0 < t1"
  shows "state_load h = Inr (i, h) \<and>
    (\<exists>h'. stream_initialize sndr rcp tok rate t0 t1 clawback h = Inr ((), h') \<and>
       holds (initial_info sndr rcp tok rate t0 t1 clawback) 0 (instance_store h'))"
proof
  have "h\<lparr>instance_store := m(Config := None)\<rparr> = h" using assms(2) by (cases h) simp
  then have "state_load_legacy h = Inr (i, h)" using state_load_legacy_holds [OF assms(1), of h] by simp
  then show "state_load h = Inr (i, h)" using assms(2) by (simp add: state_load_eval)
  have "instance_store h Config = None" using assms(2) by simp
  then show "\<exists>h'. stream_initialize sndr rcp tok rate t0 t1 clawback h = Inr ((), h') \<and>
       holds (initial_info sndr rcp tok rate t0 t1 clawback) 0 (instance_store h')"
    using assms by (auto simp: stream_initialize_Inr_iff holds_def saved_keys_def fun_eq_iff)
qed

section \<open>The read-only entry points\<close>

text \<open>The views never fail and change nothing: \<open>withdrawable\<close> and \<open>streamed_total\<close>
  read what has accrued (less what was withdrawn, for the first) or 0 when the stream is cancelled or
  the amount does not fit; \<open>info\<close> and \<open>event_sequence\<close> read the stored struct and counter. And
  \<open>withdrawable\<close> tells the truth: a withdrawal that succeeds pays the smaller of it and the amount.\<close>

theorem views_agree_with_calls:
  assumes "holds i n (instance_store h)" and "info_inv t i" and "t \<le> ledger_timestamp env"
  shows "stream_get_info h = Inr (i, h) \<and> stream_event_sequence h = Inr (n, h) \<and>
    (\<exists>v s. stream_withdrawable env h = Inr (v, h) \<and> stream_streamed_total env h = Inr (s, h) \<and>
       (is_cancelled i \<or> (\<exists>e. math_streamed_amount env i = Inl e) \<longrightarrow> v = 0 \<and> s = 0) \<and>
       (\<not> is_cancelled i \<and> (\<exists>x. math_streamed_amount env i = Inr x) \<longrightarrow>
          sint s = earned (ledger_timestamp env) i \<and>
          sint v = max 0 (earned (ledger_timestamp env) i - sint (withdrawn i))) \<and>
       (\<forall>amount paid h'. stream_withdraw env amount h = Inr (paid, h') \<longrightarrow>
          sint paid = min (sint amount) (sint v)))"
proof -
  have load: "state_load h = Inr (i, h)" using assms(1) by (rule holds_load)
  define v where "v = (if is_cancelled i then 0 else result_unwrap_or (math_withdrawable env i) 0)"
  define s where "s = (if is_cancelled i then 0 else result_unwrap_or (math_streamed_amount env i) 0)"
  have views: "stream_withdrawable env h = Inr (v, h)" "stream_streamed_total env h = Inr (s, h)"
    by (simp_all add: stream_withdrawable_def stream_streamed_total_def tx_eval load v_def s_def)
  have "stream_event_sequence h = Inr (n, h)"
    using holds_EventSequence [OF assms(1)] by (simp add: stream_event_sequence_def tx_eval host_eval)
  moreover have rate: "0 < sint (rate_per_second i)" using assms(2) by (simp add: info_inv_def)
  have "is_cancelled i \<or> (\<exists>e. math_streamed_amount env i = Inl e) \<longrightarrow> v = 0 \<and> s = 0"
    by (auto simp: v_def s_def math_withdrawable_def)
  moreover have "sint s = earned (ledger_timestamp env) i \<and>
      sint v = max 0 (earned (ledger_timestamp env) i - sint (withdrawn i))"
    if live: "\<not> is_cancelled i" and x: "math_streamed_amount env i = Inr x" for x
  proof -
    obtain a where a: "math_withdrawable env i = Inr a"
      using x by (auto simp: math_withdrawable_def Let_def)
    then show ?thesis
      using live x streamed_earned [OF x rate] withdrawable_earned [OF a assms(2)]
      by (simp add: v_def s_def)
  qed
  moreover have "sint paid = min (sint amount) (sint v)"
    if "stream_withdraw env amount h = Inr (paid, h')" for amount paid h'
  proof -
    have "stream_exec env (Withdraw amount) h = Inr (Amount paid, h')"
      using that by (simp add: tx_simps)
    with assms(1) obtain ev i' w' where
      "stream_step env i (world h) (Withdraw amount) (Amount paid) ev i' w'"
      by (rule stream_exec_step)
    then have "\<not> is_cancelled i" and "\<exists>a. math_withdrawable env i = Inr a \<and> paid = min_i128 amount a"
      by (auto simp: step_iffs)
    then show ?thesis by (auto simp: v_def sint_minmax)
  qed
  ultimately show ?thesis using views load by (auto simp: stream_get_info_def)
qed

end
