(* ===== verification/Stream_History.thy ===== *)
theory Stream_History
  imports Stream_Timing
begin

text \<open>
  What the published events tell: the stored stream is the initial one with the events replayed, and
  the time that a stream has been active, from which its accrual follows, can be read from them.
\<close>

section \<open>Replaying the events\<close>

fun replay :: "stream_event \<Rightarrow> stream_info \<Rightarrow> stream_info" where
  "replay (WithdrawnEvent _ _ _ total_withdrawn _) i = i\<lparr>withdrawn := total_withdrawn\<rparr>"
| "replay (CancelledEvent _ _ _ _) i = i\<lparr>flags := flags i OR FLAG_CANCELLED\<rparr>"
| "replay (PausedEvent _ _ t _) i = i\<lparr>flags := flags i OR FLAG_PAUSED, paused_at := t\<rparr>"
| "replay (ResumedEvent _ _ t) i =
     i\<lparr>start_time := start_time i + (t - paused_at i), flags := flags i AND NOT FLAG_PAUSED,
       paused_at := 0,
       end_time := (if end_time i = 0 then 0 else end_time i + (t - paused_at i))\<rparr>"
| "replay (ToppedUpEvent _ _ _ _) i = i"
| "replay (ClawbackEvent _ _ _) i = i"
| "replay (RecipientTransferredEvent _ _ new_recipient) i = i\<lparr>recipient := new_recipient\<rparr>"

text \<open>An extension publishes the same event as a deposit, so the end is only known to be no earlier.\<close>

definition replays :: "stream_info \<Rightarrow> stream_info \<Rightarrow> bool" where
  "replays r i \<longleftrightarrow>
     i\<lparr>end_time := 0\<rparr> = r\<lparr>end_time := 0\<rparr> \<and> end_time r \<le> end_time i \<and>
     (end_time i = 0 \<longleftrightarrow> end_time r = 0)"

lemma replays_fields:
  "replays r i \<longleftrightarrow>
     sender r = sender i \<and> recipient r = recipient i \<and> token r = token i \<and>
     rate_per_second r = rate_per_second i \<and> start_time r = start_time i \<and>
     withdrawn r = withdrawn i \<and> paused_at r = paused_at i \<and> flags r = flags i \<and>
     end_time r \<le> end_time i \<and> (end_time i = 0 \<longleftrightarrow> end_time r = 0)"
  unfolding replays_def by (cases r; cases i) auto

lemma replays_iff:
  "replays r i \<longleftrightarrow>
     (\<exists>e. r = i\<lparr>end_time := e\<rparr> \<and> e \<le> end_time i \<and> (end_time i = 0 \<longleftrightarrow> e = 0))"
  unfolding replays_def by (cases r; cases i) auto

lemma sum_is_word: "uint (c :: u64) = uint a + uint b \<Longrightarrow> c = a + b"
  by (metis uint_plus_less uint_lt2p word_uint_eq_iff)

lemma diff_is_word: "uint (c :: u64) = uint a - uint b \<Longrightarrow> c = a - b"
  by (metis checked_sub_u_Some_iff checked_sub_u_def option.distinct(1) option.inject)

lemma replays_resume:
  assumes "stream_step env i w Resume ret ev i' w'" and "replays r i"
  shows "replays (replay (ev n) r) i'"
proof -
  from assms(1) obtain dur ns ne where
    dur: "uint (dur :: u64) = uint (ledger_timestamp env) - uint (paused_at i)"
    and ns: "uint ns = uint (start_time i) + uint dur"
    and ne: "uint ne = (if 0 < end_time i then uint (end_time i) + uint dur else 0)"
    and i': "i' = i\<lparr>start_time := ns, flags := flags i AND NOT FLAG_PAUSED, paused_at := 0,
              end_time := ne\<rparr>"
    and ev: "ev n = ResumedEvent (sender i) n (ledger_timestamp env)"
    by (rule step_Resume) fastforce
  obtain e where r: "r = i\<lparr>end_time := e\<rparr>" and e: "e \<le> end_time i" "end_time i = 0 \<longleftrightarrow> e = 0"
    using assms(2) by (auto simp: replays_iff)
  have d: "ledger_timestamp env - paused_at i = dur" and s: "ns = start_time i + dur"
    using diff_is_word [OF dur] sum_is_word [OF ns] by simp_all
  show ?thesis
  proof (cases "end_time i = 0")
    case True
    then have "ne = 0" using ne by (simp add: uint_0_iff)
    then show ?thesis using True e unfolding ev i' r by (auto simp: replays_iff d s)
  next
    case False
    then have ne': "uint ne = uint (end_time i) + uint dur" using ne by (simp add: word_gt_0)
    have le: "uint e \<le> uint (end_time i)" using e(1) by (simp add: word_le_def)
    then have "uint e + uint dur < 2 ^ LENGTH(64)" using ne' uint_u64_range [of ne] by simp
    then have sum: "uint (e + dur) = uint e + uint dur" by (rule uint_plus_less)
    have "0 < uint e" using False e(2) by (simp add: uint_pos_iff)
    moreover have "0 \<le> uint dur" by simp
    ultimately have pos: "0 < uint (e + dur)" "0 < uint ne" using sum ne' le by linarith+
    then have "e + dur \<noteq> 0" "ne \<noteq> 0" by auto
    then show ?thesis
      using False e sum ne' le unfolding ev i' r
      by (auto simp: replays_iff d s word_le_def)
  qed
qed

lemma replays_extend:
  assumes "stream_step env i w (ExtendDuration secs) ret ev i' w'" and "replays r i"
  shows "replays (replay (ev n) r) i'"
proof -
  from assms(1) obtain ne deposit where pos: "0 < end_time i" and ne: "uint ne = uint (end_time i) + uint secs"
    and i': "i' = i\<lparr>end_time := ne\<rparr>"
    and ev: "ev n = ToppedUpEvent (sender i) n deposit (escrow env i w')"
    by (rule step_ExtendDuration) fastforce
  have "0 < uint (end_time i)" "0 \<le> uint secs" using pos by (simp_all add: word_less_alt)
  then have "uint (end_time i) \<le> uint ne" "0 < uint ne" using ne by linarith+
  then have "end_time i \<le> ne" "end_time i \<noteq> 0" "ne \<noteq> 0" using pos by (auto simp: word_le_def word_gt_0)
  then show ?thesis using assms(2) unfolding ev i' by (auto simp: replays_fields)
qed

lemma step_replays:
  assumes "stream_step env i w c ret ev i' w'" and "replays r i"
  shows "replays (replay (ev n) r) i'"
proof (cases c)
  case Resume
  show ?thesis using assms unfolding Resume by (rule replays_resume)
next
  case (ExtendDuration secs)
  show ?thesis using assms unfolding ExtendDuration by (rule replays_extend)
qed (use assms in \<open>auto simp: step_iffs replays_fields\<close>)

section \<open>The time a stream was not active\<close>

fun tick :: "stream_event \<Rightarrow> int \<times> u64 option \<Rightarrow> int \<times> u64 option" where
  "tick (PausedEvent _ _ t _) (d, p) = (d, Some t)"
| "tick (ResumedEvent _ _ t) (d, p) = (case p of None \<Rightarrow> (d, None) | Some t0 \<Rightarrow> (d + (uint t - uint t0), None))"
| "tick _ s = s"

text \<open>The seconds of all pauses up to now, the open one included.\<close>

definition inactive :: "u64 \<Rightarrow> stream_event list \<Rightarrow> int" where
  "inactive now es =
     (case fold tick es (0, None) of
        (d, None) \<Rightarrow> d
      | (d, Some p) \<Rightarrow> d + (uint now - uint p))"

definition clocked :: "u64 \<Rightarrow> int \<times> u64 option \<Rightarrow> stream_info \<Rightarrow> bool" where
  "clocked t0 c i \<longleftrightarrow>
     c = (uint (start_time i) - uint t0, if is_paused i then Some (paused_at i) else None)"

lemma step_clocked:
  assumes "stream_step env i w c ret ev i' w'" and "clocked t0 k i"
  shows "clocked t0 (tick (ev n) k) i'"
  using assms by (cases c) (auto simp: step_iffs clocked_def)

definition history_inv :: "stream_info \<Rightarrow> 'w stream_state \<Rightarrow> bool" where
  "history_inv i0 s \<longleftrightarrow>
     (\<exists>i n. holds i n (instance_store (snd s)) \<and> info_inv (fst s) i \<and>
        replays (fold replay (event_log (snd s)) i0) i \<and>
        clocked (start_time i0) (fold tick (event_log (snd s)) (0, None)) i)"

lemma history_move: "stream_move T self s s' \<Longrightarrow> history_inv i0 s \<Longrightarrow> history_inv i0 s'"
proof (induction rule: stream_move.induct)
  case (move_call now env c h r h')
  then obtain i n where i: "holds i n (instance_store h)" "info_inv now i"
    "replays (fold replay (event_log h) i0) i"
    "clocked (start_time i0) (fold tick (event_log h) (0, None)) i"
    by (auto simp: history_inv_def)
  from i(1) move_call(4) obtain ev i' w' where step: "stream_step env i (world h) c r ev i' w'"
    and h': "h' = after i' (n + 1) (ev (n + 1)) w' h"
    by (rule stream_exec_step)
  have "holds i' (n + 1) (instance_store h')" unfolding h' by (rule holds_after)
  moreover have "info_inv (ledger_timestamp env) i'" using step i(2) move_call(1) by (rule step_info_inv)
  ultimately show ?case
    using step_replays [OF step i(3)] step_clocked [OF step i(4)]
    by (fastforce simp: history_inv_def h' after_def)
next
  case (move_outside now now' h w)
  then show ?case by (auto simp: history_inv_def intro: info_inv_later)
qed

interpretation history_machine: invariant "history_inv i0" "stream_move T self" "history_inv i0"
  for i0 T self
  by unfold_locales (auto intro: history_move)

lemma initialized_history:
  assumes "instance_store h0 = Map.empty" and "event_log h0 = []"
    and "stream_initialize sndr rcp tok rate t0 t1 clawback h0 = Inr ((), h)"
  shows "history_inv (initial_info sndr rcp tok rate t0 t1 clawback) (t, h)"
proof -
  let ?i = "initial_info sndr rcp tok rate t0 t1 clawback"
  have "instance_store h = saved_keys ?i [EventSequence \<mapsto> VU64 0]" "event_log h = []"
    and terms: "0 < sint rate" "t1 = 0 \<or> t0 < t1"
    using assms by (auto simp: stream_initialize_Inr_iff)
  moreover have "clocked (start_time ?i) (0, None) ?i" by (simp add: clocked_def)
  ultimately show ?thesis
    using initial_info_inv [OF terms]
    by (auto simp: history_inv_def holds_def replays_def intro!: exI [of _ ?i] exI [of _ "0 :: u64"])
qed

lemma initialized_later_history:
  assumes "instance_store h0 = Map.empty" and "event_log h0 = []"
    and "stream_initialize sndr rcp tok rate t0 t1 clawback h0 = Inr ((), h)"
    and "later (stream_move T self) (t, h) (t', h')"
  obtains i n where "holds i n (instance_store h')" and "info_inv t' i"
    and "replays (fold replay (event_log h') (initial_info sndr rcp tok rate t0 t1 clawback)) i"
    and "clocked t0 (fold tick (event_log h') (0, None)) i"
proof -
  let ?i = "initial_info sndr rcp tok rate t0 t1 clawback"
  have "history_inv ?i (t, h)" using assms(1-3) by (rule initialized_history)
  with assms(4) have "history_inv ?i (t', h')" by (rule history_machine.inv_later)
  moreover have "start_time ?i = t0" by (simp add: initial_info_def)
  ultimately show ?thesis using that unfolding history_inv_def by auto
qed

text \<open>Property C16. The events tell the state: replaying a stream's published events, in order, on the terms
  it was initialized with gives the stored stream, in every field but the end of a bounded stream,
  which extensions may have moved past the replayed one.\<close>

theorem events_replay_state:
  assumes "instance_store h0 = Map.empty" and "event_log h0 = []"
    and "stream_initialize sndr rcp tok rate t0 t1 clawback h0 = Inr ((), h)"
    and "later (stream_move T self) (t, h) (t', h')"
  shows "\<exists>i r. state_load h' = Inr (i, h') \<and>
    r = fold replay (event_log h') (initial_info sndr rcp tok rate t0 t1 clawback) \<and>
    i\<lparr>end_time := 0\<rparr> = r\<lparr>end_time := 0\<rparr> \<and> end_time r \<le> end_time i \<and>
    (end_time i = 0 \<longleftrightarrow> end_time r = 0)"
  using initialized_later_history [OF assms] unfolding replays_def by (metis holds_load)

lemma replay_keeps:
  "rate_per_second (fold replay es i) = rate_per_second i"
  "end_time i = 0 \<Longrightarrow> end_time (fold replay es i) = 0"
proof (induction es arbitrary: i)
  case (Cons e es)
  {
    case 1
    show ?case using Cons.IH(1) [of "replay e i"] by (cases e) simp_all
  next
    case 2
    then show ?case using Cons.IH(2) [of "replay e i"] by (cases e) simp_all
  }
qed simp_all

lemma clocked_elapsed:
  assumes "clocked t0 (fold tick es (0, None)) i"
  shows "uint now - uint t0 - inactive now es =
    uint (if is_paused i then paused_at i else now) - uint (start_time i)"
  using assms by (auto simp: clocked_def inactive_def)

lemma earned_elapsed:
  assumes "info_inv now i" and "end_time i = 0"
  shows "earned now i =
    max 0 (sint (rate_per_second i) * (uint (if is_paused i then paused_at i else now) - uint (start_time i)))"
proof (cases "now < start_time i")
  case True
  then have "uint (if is_paused i then paused_at i else now) - uint (start_time i) \<le> 0"
    using assms by (auto simp: info_inv_def word_less_alt word_le_def)
  then have "sint (rate_per_second i) *
      (uint (if is_paused i then paused_at i else now) - uint (start_time i)) \<le> 0"
    using assms(1) by (intro mult_nonneg_nonpos) (simp_all add: info_inv_def)
  then show ?thesis using True by (simp add: earned_def accrued_def)
next
  case False
  then show ?thesis using assms(2) by (simp add: earned_def accrued_def accrual_time_def)
qed

lemma earned_bounded_elapsed:
  assumes "info_inv now i" and "end_time i \<noteq> 0" and "\<not> (is_paused i \<and> end_time i < now)"
  shows "earned now i = max 0 (sint (rate_per_second i) *
    min (uint (if is_paused i then paused_at i else now) - uint (start_time i)) (duration i))"
proof (cases "now < start_time i")
  case True
  then have "min (uint (if is_paused i then paused_at i else now) - uint (start_time i)) (duration i) \<le> 0"
    using assms(1) by (auto simp: info_inv_def word_less_alt word_le_def min_le_iff_disj)
  then have "sint (rate_per_second i) *
      min (uint (if is_paused i then paused_at i else now) - uint (start_time i)) (duration i) \<le> 0"
    using assms(1) by (intro mult_nonneg_nonpos) (simp_all add: info_inv_def)
  then show ?thesis using True by (simp add: earned_def accrued_def)
next
  case False
  have "0 < uint (end_time i)" using assms(2) by (simp add: uint_pos_iff)
  moreover have "is_paused i \<Longrightarrow> uint (paused_at i) \<le> uint now"
    using assms(1) by (simp add: info_inv_def word_le_def)
  ultimately show ?thesis using False assms(3)
    by (auto simp: earned_def accrued_def accrual_time_def duration_def word_less_alt min_def)
qed

lemma earned_paused_past_end:
  assumes "info_inv now i" and "end_time i \<noteq> 0" and "end_time i < now"
  shows "earned now i = sint (rate_per_second i) * duration i"
proof -
  have t: "start_time i < end_time i" and rate: "0 < sint (rate_per_second i)"
    using assms(1,2) by (auto simp: info_inv_def)
  then have "0 \<le> duration i" by (simp add: duration_def word_less_alt)
  then have "0 \<le> sint (rate_per_second i) * duration i" using rate by simp
  moreover have "accrued now i = sint (rate_per_second i) * duration i"
    using assms(2,3) t by (auto simp: accrued_def accrual_time_def duration_def word_gt_0)
  ultimately show ?thesis by (simp add: earned_def)
qed

text \<open>Property C18. What is streamed follows the time the stream was active, with one exception. In every
  later state, let the active seconds be those since the start less the seconds of all pauses, which
  the published events tell. An open-ended stream has streamed its rate times the active seconds; a
  bounded stream the same with the active seconds capped by its length. The exception is a bounded
  stream that is still paused when its end has passed: it has streamed its whole length, the pause
  included. The amount is what \<open>streamed_amount\<close> returns whenever it returns one.\<close>

theorem accrual_follows_activity:
  fixes env :: "'w env"
  assumes "instance_store h0 = Map.empty" and "event_log h0 = []"
    and "stream_initialize sndr rcp tok rate t0 t1 clawback h0 = Inr ((), h)"
    and "later (stream_move T self) (t, h) (t', h')" and "t' \<le> ledger_timestamp env"
  shows "\<exists>i. state_load h' = Inr (i, h') \<and> (t1 = 0 \<longrightarrow> end_time i = 0) \<and>
    (let now = ledger_timestamp env; active = uint now - uint t0 - inactive now (event_log h');
       amount = (if end_time i = 0 then max 0 (sint rate * active)
         else if is_paused i \<and> end_time i < now then sint rate * duration i
         else max 0 (sint rate * min active (duration i)))
     in earned now i = amount \<and> (\<forall>s. math_streamed_amount env i = Inr s \<longrightarrow> sint s = amount))"
proof -
  let ?i0 = "initial_info sndr rcp tok rate t0 t1 clawback"
  obtain i n where i: "holds i n (instance_store h')" "info_inv t' i"
    "replays (fold replay (event_log h') ?i0) i" "clocked t0 (fold tick (event_log h') (0, None)) i"
    using assms(1-4) by (rule initialized_later_history)
  have rate: "rate_per_second i = rate" and open_end: "t1 = 0 \<longrightarrow> end_time i = 0"
    using i(3) replay_keeps [where i = ?i0 and es = "event_log h'"]
    by (auto simp: replays_fields initial_info_def)
  have inv: "info_inv (ledger_timestamp env) i" using i(2) assms(5) by (rule info_inv_later)
  then have "\<forall>s. math_streamed_amount env i = Inr s \<longrightarrow> sint s = earned (ledger_timestamp env) i"
    by (simp add: streamed_earned info_inv_def)
  moreover have "state_load h' = Inr (i, h')" using i(1) by (rule holds_load)
  ultimately show ?thesis
    using earned_elapsed [OF inv] earned_bounded_elapsed [OF inv] earned_paused_past_end [OF inv] open_end
    by (auto simp: clocked_elapsed [OF i(4)] rate Let_def)
qed

end
