(* ===== verification/Stream_Witness.thy ===== *)
theory Stream_Witness
  imports Stream_Solvency Stream_Timing Stream_Origin Stream_History
begin

text \<open>
  A concrete stream on a concrete token ledger, on which the hypotheses of the properties of the
  stream contract hold: a rate of 1 a second from 0 to 100, funded with 1000.
\<close>

definition wit_info :: stream_info where
  "wit_info = \<lparr>sender = 1, recipient = 2, token = 3, rate_per_second = 1, start_time = 0,
     end_time = 100, withdrawn = 0, paused_at = 0, flags = 0\<rparr>"

definition wit_env :: "u64 \<Rightarrow> balance_table env" where
  "wit_env now = \<lparr>ledger_timestamp = now, current_contract_address = 10,
     has_authorized = (\<lambda>_. True), token_client = ledger_token\<rparr>"

definition wit_balances :: balance_table where
  "wit_balances = (\<lambda>tk who. if who = 1 \<or> who = 10 then 1000 else 0)"

definition wit_host :: "stream_info \<Rightarrow> balance_table stream_host" where
  "wit_host i = \<lparr>instance_store = saved_keys i [EventSequence \<mapsto> VU64 0],
     persistent_store = Map.empty, ttl_log = [], event_log = [], world = wit_balances\<rparr>"

lemma wit_holds: "holds i 0 (instance_store (wit_host i))"
  by (simp add: holds_def wit_host_def)

lemma wit_env_simps [simp]:
  "ledger_timestamp (wit_env now) = now" "current_contract_address (wit_env now) = 10"
  "has_authorized (wit_env now) = (\<lambda>_. True)" "token_client (wit_env now) = ledger_token"
  "world (wit_host i) = wit_balances"
  by (simp_all add: wit_env_def wit_host_def)

lemma wit_info_inv: "info_inv 0 wit_info"
  by (simp add: info_inv_def wit_info_def is_paused_def payable_def duration_def)

lemma exec_of_step:
  assumes "stream_step env i (world h) c r ev i' w'" and "holds i 0 (instance_store h)"
  shows "stream_exec env c h = Inr (r, after i' 1 (ev 1) w' h)"
  using implements_all [of env c] assms unfolding implements_def by fastforce

lemma wit_streamed: "math_streamed_amount (wit_env 40) wit_info = Inr 40"
  by (simp add: math_streamed_amount_def wit_info_def is_paused_def checked_sub_u_def
      checked_mul_i128_def i128_of_def i128_fits_def u64_as_i128_def Let_def)

lemma wit_pays: "\<exists>w. token_transfer ledger_token wit_balances 3 10 2 a = Some w" 
  if "0 \<le> sint a" "sint a \<le> 1000"
  using that by (simp add: ledger_token_def ledger_transfer_def wit_balances_def)

section \<open>Steps of the concrete stream\<close>

lemma wit_info_simps [simp]:
  "sender wit_info = 1" "recipient wit_info = 2" "token wit_info = 3" "rate_per_second wit_info = 1"
  "start_time wit_info = 0" "end_time wit_info = 100" "withdrawn wit_info = 0"
  "\<not> is_paused wit_info" "\<not> is_cancelled wit_info" "\<not> is_clawback_enabled wit_info"
  by (simp_all add: wit_info_def is_paused_def is_cancelled_def is_clawback_enabled_def)

lemma wit_withdrawable: "math_withdrawable (wit_env 40) wit_info = Inr 40"
  by (simp add: withdrawable_Inr_iff wit_streamed)

lemma wit_step_pause:
  "\<exists>ev i' w'. stream_step (wit_env 40) wit_info wit_balances Pause Done ev i' w'"
  by (simp add: step_iffs wit_withdrawable)

lemma wit_step_withdraw:
  "\<exists>ev i' w'. stream_step (wit_env 40) wit_info wit_balances (Withdraw 30) (Amount 30) ev i' w'"
proof -
  obtain w where "token_transfer ledger_token wit_balances 3 10 2 30 = Some w"
    using wit_pays [of 30] by auto
  then show ?thesis
    by (simp add: step_iffs wit_withdrawable min_i128_def escrow_def)
      (simp add: ledger_token_def wit_balances_def sint_eq_iff i128_fits_def)
qed

lemma wit_settles:
  "\<exists>w. settles (wit_env 40) wit_info wit_balances 40 960 w"
proof -
  obtain w1 where w1: "ledger_transfer wit_balances 3 10 2 40 = Some w1"
    using wit_pays [of 40] by (auto simp: ledger_token_def)
  have w1_bal: "uint (w1 3 10) = 960" "uint (w1 3 1) = 1000"
    using ledger_transfer_balance [OF w1, of 3 10] ledger_transfer_balance [OF w1, of 3 1]
    by (simp_all add: wit_balances_def)
  then obtain w2 where w2: "ledger_transfer w1 3 10 1 960 = Some w2"
    by (simp add: ledger_transfer_def)
  have "settles (wit_env 40) wit_info wit_balances 40 960 w2"
  proof (rule settle [where s = 40 and earned = 40 and rest = 960])
    show "math_streamed_amount (wit_env 40) wit_info = Inr 40" by (rule wit_streamed)
    show "pay (token_client (wit_env 40)) wit_balances (token wit_info)
        (current_contract_address (wit_env 40)) (recipient wit_info) 40 = Some w1"
      using w1 by (simp add: pay_def ledger_token_def)
    show "pay (token_client (wit_env 40)) w1 (token wit_info)
        (current_contract_address (wit_env 40)) (sender wit_info) 960 = Some w2"
      using w2 by (simp add: pay_def ledger_token_def)
  qed (simp_all add: escrow_def ledger_token_def wit_balances_def min_i128_def max_i128_def)
  then show ?thesis by blast
qed

lemma wit_step_cancel:
  "\<exists>ev i' w'. stream_step (wit_env 40) wit_info wit_balances Cancel Done ev i' w'"
  using wit_settles by (auto simp: step_iffs)

lemma wit_exec:
  assumes "\<exists>ev i' w'. stream_step (wit_env now) i wit_balances c r ev i' w'"
  obtains h' where "stream_exec (wit_env now) c (wit_host i) = Inr (r, h')"
  using assms exec_of_step [of "wit_env now" i "wit_host i" c r] wit_holds by auto

section \<open>Witnesses\<close>

theorem stream_exec_refines_step_witness:
  "\<exists>h'. stream_exec (wit_env 40) (Withdraw 30) (wit_host wit_info) = Inr (Amount 30, h')"
  using stream_exec_refines_step [OF wit_holds, of "wit_env 40" "Withdraw 30" wit_info "Amount 30"]
    wit_step_withdraw by auto

theorem settlement_is_exact_witness:
  "\<exists>h'. stream_exec (wit_env 40) Cancel (wit_host wit_info) = Inr (Done, h') \<and>
     bal (wit_env 40) (world h') 3 2 = 40 \<and> bal (wit_env 40) (world h') 3 1 = 1960 \<and>
     bal (wit_env 40) (world h') 3 10 = 0"
proof -
  obtain h' where h': "stream_exec (wit_env 40) Cancel (wit_host wit_info) = Inr (Done, h')"
    using wit_step_cancel by (rule wit_exec)
  have owed: "owed (wit_env 40) wit_info wit_balances = 40"
    by (simp add: owed_def bal_def ledger_token_def wit_balances_def earned_def accrued_def
        accrual_time_def)
  have "bal (wit_env 40) (world h') 3 who = bal (wit_env 40) wit_balances 3 who +
      (moved 10 2 40 who + moved 10 1 (bal (wit_env 40) wit_balances 3 10 - 40) who)" for who
    using settlement_is_exact [OF wit_holds wit_info_inv _ _ h', of 3 who] ledger_token_conserves
    by (simp add: owed)
  with h' show ?thesis by (simp add: bal_def ledger_token_def wit_balances_def moved_def)
qed

theorem withdraw_pays_earned_witness:
  "\<exists>h'. stream_withdraw (wit_env 40) 30 (wit_host wit_info) = Inr (30, h') \<and>
     bal (wit_env 40) (world h') 3 2 = 30 \<and> bal (wit_env 40) (world h') 3 10 = 970"
proof -
  obtain h' where "stream_exec (wit_env 40) (Withdraw 30) (wit_host wit_info) = Inr (Amount 30, h')"
    using wit_step_withdraw by (rule wit_exec)
  then have h': "stream_withdraw (wit_env 40) 30 (wit_host wit_info) = Inr (30, h')"
    by (auto simp: tx_simps)
  have "bal (wit_env 40) (world h') 3 who = bal (wit_env 40) wit_balances 3 who + moved 10 2 30 who"
    for who
    using withdraw_pays_earned [OF wit_holds wit_info_inv _ _ h', of 3 who] ledger_token_conserves
    by simp
  with h' show ?thesis by (simp add: bal_def ledger_token_def wit_balances_def moved_def)
qed

definition wit_clawback :: stream_info where
  "wit_clawback = wit_info\<lparr>flags := FLAG_CLAWBACK_ENABLED\<rparr>"

lemma wit_clawback_simps [simp]:
  "sender wit_clawback = 1" "recipient wit_clawback = 2" "token wit_clawback = 3"
  "rate_per_second wit_clawback = 1" "start_time wit_clawback = 0" "end_time wit_clawback = 100"
  "withdrawn wit_clawback = 0" "\<not> is_paused wit_clawback" "\<not> is_cancelled wit_clawback"
  "is_clawback_enabled wit_clawback"
  by (simp_all add: wit_clawback_def flag_tests FLAG_CLAWBACK_ENABLED_def bit_simps)

lemma wit_clawback_inv: "info_inv 0 wit_clawback"
  by (simp add: info_inv_def payable_def duration_def)

theorem clawback_leaves_owed_witness:
  "\<exists>h'. stream_clawback (wit_env 40) (wit_host wit_clawback) = Inr (960, h') \<and>
     bal (wit_env 40) (world h') 3 10 = 40"
proof -
  obtain w where w: "ledger_transfer wit_balances 3 10 1 960 = Some w"
    by (simp add: ledger_transfer_def wit_balances_def)
  have "stream_step (wit_env 40) wit_clawback wit_balances Clawback (Amount 960)
      (\<lambda>n. ClawbackEvent (sender wit_clawback) n 960) wit_clawback w"
  proof (rule stream_step.clawback [where s = 40 and earned = 40 and rest = 960])
    show "math_streamed_amount (wit_env 40) wit_clawback = Inr 40"
      by (simp add: streamed_amount_Inr_iff accrued_def accrual_time_def)
    show "pay (token_client (wit_env 40)) wit_balances (token wit_clawback)
        (current_contract_address (wit_env 40)) (sender wit_clawback) 960 = Some w"
      using w by (simp add: pay_def ledger_token_def)
  qed (simp_all add: escrow_def ledger_token_def wit_balances_def max_i128_def)
  then have "\<exists>ev i' w'. stream_step (wit_env 40) wit_clawback wit_balances Clawback (Amount 960) ev i' w'"
    by blast
  then obtain h' where "stream_exec (wit_env 40) Clawback (wit_host wit_clawback) = Inr (Amount 960, h')"
    by (rule wit_exec)
  then have h': "stream_clawback (wit_env 40) (wit_host wit_clawback) = Inr (960, h')"
    by (auto simp: tx_simps)
  have "owed (wit_env 40) wit_clawback wit_balances = 40"
    by (simp add: owed_def bal_def ledger_token_def wit_balances_def earned_def accrued_def
        accrual_time_def)
  then show ?thesis
    using clawback_leaves_owed [OF wit_holds wit_clawback_inv _ _ h'] ledger_token_conserves h' by simp
qed

theorem funded_stream_stays_solvent_witness:
  "\<exists>i n. holds i n (instance_store (wit_host wit_info)) \<and>
     (is_cancelled i \<or> earned 0 i - sint (withdrawn i) \<le>
        sint (token_balance ledger_token wit_balances (token i) 10))"
  using funded_stream_stays_solvent [OF ledger_token_conserves wit_holds wit_info_inv _ _ _ _
      later_refl, of 10]
  by (force simp: ledger_token_def wit_balances_def duration_def)

theorem recipient_can_withdraw_witness:
  "\<exists>paid h'. stream_withdraw (wit_env 40) 50 (wit_host wit_info) = Inr (paid, h') \<and> sint paid = 40"
  using recipient_can_withdraw [OF wit_holds wit_info_inv, of "wit_env 40" 50]
    ledger_token_live ledger_token_conserves
  by (simp add: accrued_def accrual_time_def earned_def i128_fits_def bal_def)
    (simp add: ledger_token_def wit_balances_def)

definition wit_refusing :: "balance_table env" where
  "wit_refusing = (wit_env 40)\<lparr>has_authorized := (\<lambda>_. False)\<rparr>"

theorem calls_need_authorization_witness:
  "\<exists>e. stream_exec wit_refusing (Withdraw 30) (wit_host wit_info) = Inl e"
  using calls_need_authorization [OF wit_holds, of wit_refusing "Withdraw 30" wit_info]
  by (simp add: wit_refusing_def)

theorem only_escrow_and_payer_debited_witness:
  "\<exists>h'. stream_exec (wit_env 40) Cancel (wit_host wit_info) = Inr (Done, h') \<and>
     bal (wit_env 40) wit_balances 3 7 \<le> bal (wit_env 40) (world h') 3 7"
proof -
  obtain h' where h': "stream_exec (wit_env 40) Cancel (wit_host wit_info) = Inr (Done, h')"
    using wit_step_cancel by (rule wit_exec)
  then show ?thesis
    using only_escrow_and_payer_debited [OF wit_holds _ h', of 7 3] ledger_token_conserves by simp
qed

definition wit_cancelled :: stream_info where
  "wit_cancelled = wit_info\<lparr>flags := FLAG_CANCELLED\<rparr>"

lemma wit_cancelled_simps [simp]: "is_cancelled wit_cancelled" "sender wit_cancelled = 1"
  by (simp_all add: wit_cancelled_def is_cancelled_def)

theorem cancelled_is_final_witness:
  "stream_exec (wit_env 40) (Withdraw 30) (wit_host wit_cancelled) = Inl (Err StreamCancelled) \<and>
   stream_withdrawable (wit_env 40) (wit_host wit_cancelled) = Inr (0, wit_host wit_cancelled)"
  using cancelled_is_final [OF wit_holds, of wit_cancelled "wit_env 40" "Withdraw 30"] by force

definition wit_started :: "balance_table stream_host" where
  "wit_started = \<lparr>instance_store = saved_keys wit_info [EventSequence \<mapsto> VU64 0],
     persistent_store = Map.empty, ttl_log = [(None, STREAM_TTL_THRESHOLD, STREAM_TTL_EXTEND_TO)],
     event_log = [], world = wit_balances\<rparr>"

lemma wit_started_init: "stream_init (0, wit_started)"
proof (rule stream_initI)
  let ?h = "\<lparr>instance_store = Map.empty, persistent_store = Map.empty, ttl_log = [], event_log = [],
    world = wit_balances\<rparr>"
  show "stream_initialize 1 2 3 1 0 100 False ?h = Inr ((), wit_started)"
    by (simp add: stream_initialize_Inr_iff wit_started_def wit_info_def initial_info_def)
qed simp_all

theorem reachable_streams_are_consistent_witness:
  "\<exists>i n. holds i n (instance_store wit_started) \<and> sint (withdrawn i) \<le> payable 0 i"
proof -
  have "reaches stream_init (stream_move ledger_token 10) (0, wit_started)"
    using wit_started_init by (rule reaches_init)
  from reachable_streams_are_consistent [OF this] show ?thesis by fastforce
qed

theorem initialize_only_once_witness:
  "stream_initialize 5 5 5 1 0 0 True wit_started = Inl (Err AlreadyInitialized)"
  using initialize_only_once [OF wit_started_init later_refl] by simp

definition wit_paused :: "u64 \<Rightarrow> u64 \<Rightarrow> stream_info" where
  "wit_paused t0 at = wit_info\<lparr>start_time := t0, paused_at := at, flags := FLAG_PAUSED\<rparr>"

lemma wit_paused_simps [simp]:
  "sender (wit_paused t0 at) = 1" "recipient (wit_paused t0 at) = 2"
  "start_time (wit_paused t0 at) = t0" "end_time (wit_paused t0 at) = 100"
  "paused_at (wit_paused t0 at) = at" "rate_per_second (wit_paused t0 at) = 1"
  "withdrawn (wit_paused t0 at) = 0" "is_paused (wit_paused t0 at)"
  "\<not> is_cancelled (wit_paused t0 at)"
  by (simp_all add: wit_paused_def flag_tests)


theorem pause_before_start_blocks_settlement_witness:
  "stream_cancel (wit_env 60) (wit_host (wit_paused 50 20)) = Inl (Err ArithmeticOverflow)"
  using pause_before_start_blocks_settlement [OF wit_holds, of "wit_paused 50 20" "wit_env 60"] by simp

theorem resume_shifts_schedule_witness:
  "\<exists>h1 h2 j. stream_pause (wit_env 40) (wit_host wit_info) = Inr ((), h1) \<and>
     stream_resume (wit_env 60) h1 = Inr ((), h2) \<and>
     holds j 2 (instance_store h2) \<and> uint (start_time j) = 20 \<and> uint (end_time j) = 120"
proof -
  obtain h1 where e1: "stream_exec (wit_env 40) Pause (wit_host wit_info) = Inr (Done, h1)"
    using wit_step_pause by (rule wit_exec)
  then have h1: "stream_pause (wit_env 40) (wit_host wit_info) = Inr ((), h1)"
    by (auto simp: tx_simps)
  from wit_holds e1 obtain ev i1 w1 where
    s1: "stream_step (wit_env 40) wit_info (world (wit_host wit_info)) Pause Done ev i1 w1"
    and a1: "h1 = after i1 (0 + 1) (ev (0 + 1)) w1 (wit_host wit_info)"
    by (rule stream_exec_step)
  have i1: "i1 = wit_info\<lparr>flags := flags wit_info OR FLAG_PAUSED, paused_at := 40\<rparr>"
    using s1 by (auto simp: step_iffs)
  have "stream_step (wit_env 60) i1 (world h1) Resume Done
      (\<lambda>n. ResumedEvent (sender i1) n (ledger_timestamp (wit_env 60)))
      (i1\<lparr>start_time := 20, flags := flags i1 AND NOT FLAG_PAUSED, paused_at := 0, end_time := 120\<rparr>)
      (world h1)"
    by (rule stream_step.resume [where dur = 20]) (simp_all add: i1)
  moreover have "holds i1 1 (instance_store h1)"
    unfolding a1 using holds_after [of i1 1] by simp
  ultimately obtain h2 where "stream_exec (wit_env 60) Resume h1 = Inr (Done, h2)"
    using implements_all [of "wit_env 60" Resume] unfolding implements_def by fastforce
  then have h2: "stream_resume (wit_env 60) h1 = Inr ((), h2)" by (auto simp: tx_simps)
  from resume_shifts_schedule [OF wit_holds h1 _ h2] h1 h2 show ?thesis by fastforce
qed

theorem calls_fail_in_order_witness:
  "stream_exec (wit_env 40) (Withdraw 0) (wit_host wit_info) = Inl (Err InvalidAmount)"
  using calls_fail_in_order [OF wit_holds, of wit_info "wit_env 40" "Withdraw 0"] by simp

definition wit_legacy :: "balance_table stream_host" where
  "wit_legacy = wit_host wit_info\<lparr>instance_store := (instance_store (wit_host wit_info))(Config := None)\<rparr>"

theorem legacy_stream_can_be_reinitialized_witness:
  "state_load wit_legacy = Inr (wit_info, wit_legacy) \<and>
   (\<exists>h'. stream_initialize 9 9 3 5 0 0 True wit_legacy = Inr ((), h') \<and>
      holds (initial_info 9 9 3 5 0 0 True) 0 (instance_store h'))"
  using legacy_stream_can_be_reinitialized [OF wit_holds, of wit_legacy wit_info 5 0 0 9 9 3 True]
  by (simp add: wit_legacy_def)

theorem views_agree_with_calls_witness:
  "\<exists>v. stream_withdrawable (wit_env 40) (wit_host wit_info) = Inr (v, wit_host wit_info) \<and>
     sint v = 40"
  using views_agree_with_calls [OF wit_holds wit_info_inv, of "wit_env 40"] wit_streamed
  by (auto simp: earned_def accrued_def accrual_time_def)

text \<open>An open-ended stream of rate 1 from 0, initialized and then paused at 40.\<close>

definition wit_open :: "balance_table stream_host" where
  "wit_open = \<lparr>instance_store = saved_keys (initial_info 1 2 3 1 0 0 False) [EventSequence \<mapsto> VU64 0],
     persistent_store = Map.empty, ttl_log = [(None, STREAM_TTL_THRESHOLD, STREAM_TTL_EXTEND_TO)],
     event_log = [], world = wit_balances\<rparr>"

definition wit_blank :: "balance_table stream_host" where
  "wit_blank = \<lparr>instance_store = Map.empty, persistent_store = Map.empty, ttl_log = [],
     event_log = [], world = wit_balances\<rparr>"

lemma wit_open_initialized:
  "instance_store wit_blank = Map.empty" "event_log wit_blank = []"
  "stream_initialize 1 2 3 1 0 0 False wit_blank = Inr ((), wit_open)"
  by (simp_all add: stream_initialize_Inr_iff wit_blank_def wit_open_def)

lemma wit_open_paused:
  obtains h' where "later (stream_move ledger_token 10) (0, wit_open) (40, h')"
    and "event_log h' = [PausedEvent 1 1 40 40]"
proof -
  let ?i = "initial_info 1 2 3 1 0 0 False"
  have holds: "holds ?i 0 (instance_store wit_open)" by (simp add: holds_def wit_open_def)
  have "math_streamed_amount (wit_env 40) ?i = Inr 40"
    by (simp add: math_streamed_amount_def checked_sub_u_def checked_mul_i128_def i128_of_def
        i128_fits_def u64_as_i128_def Let_def) (simp add: initial_info_def)
  then have "math_withdrawable (wit_env 40) ?i = Inr 40"
    by (simp add: withdrawable_Inr_iff initial_info_def)
  then have "stream_step (wit_env 40) ?i (world wit_open) Pause Done
      (\<lambda>n. PausedEvent (sender ?i) n (ledger_timestamp (wit_env 40)) 40)
      (?i\<lparr>flags := flags ?i OR FLAG_PAUSED, paused_at := ledger_timestamp (wit_env 40)\<rparr>) (world wit_open)"
    by (intro stream_step.pause) simp_all
  from exec_of_step [OF this holds] have "stream_move ledger_token 10 (0, wit_open)
      (ledger_timestamp (wit_env 40), after (?i\<lparr>flags := flags ?i OR FLAG_PAUSED, paused_at := 40\<rparr>) 1
        (PausedEvent (sender ?i) 1 40 40) (world wit_open) wit_open)"
    by (intro move_call [of 0 "wit_env 40" ledger_token 10 Pause]) simp_all
  then have "later (stream_move ledger_token 10) (0, wit_open)
      (40, after (?i\<lparr>flags := flags ?i OR FLAG_PAUSED, paused_at := 40\<rparr>) 1
        (PausedEvent (sender ?i) 1 40 40) (world wit_open) wit_open)"
    using later_step [OF later_refl] by simp
  then show ?thesis by (rule that) (simp add: after_def wit_open_def initial_info_def)
qed

theorem events_replay_state_witness:
  "\<exists>i (h' :: balance_table stream_host). state_load h' = Inr (i, h') \<and>
     event_log h' = [PausedEvent 1 1 40 40] \<and> paused_at i = 40 \<and>
     is_paused i"
proof -
  obtain h' where h': "later (stream_move ledger_token 10) (0, wit_open) (40, h')"
    and log: "event_log h' = [PausedEvent 1 1 40 40]"
    by (rule wit_open_paused)
  obtain i where load: "state_load h' = Inr (i, h')"
    and eq: "i\<lparr>end_time := 0\<rparr> =
      (fold replay (event_log h') (initial_info 1 2 3 1 0 0 False))\<lparr>end_time := 0\<rparr>"
    using events_replay_state [OF wit_open_initialized h'] by auto
  have "paused_at (i\<lparr>end_time := 0\<rparr>) = 40" "is_paused (i\<lparr>end_time := 0\<rparr>)"
    unfolding eq by (simp_all add: log)
  then have "paused_at i = 40" "is_paused i" by simp_all
  with load log show ?thesis by blast
qed

theorem accrual_follows_activity_witness:
  "\<exists>i (h' :: balance_table stream_host). state_load h' = Inr (i, h') \<and>
     event_log h' = [PausedEvent 1 1 40 40] \<and> earned 100 i = 40"
proof -
  obtain h' where h': "later (stream_move ledger_token 10) (0, wit_open) (40, h')"
    and log: "event_log h' = [PausedEvent 1 1 40 40]"
    by (rule wit_open_paused)
  obtain i where "state_load h' = Inr (i, h')" "earned 100 i = 40"
    using accrual_follows_activity [OF wit_open_initialized h', of "wit_env 100"] log
    by (auto simp: inactive_def Let_def)
  with log show ?thesis by blast
qed

theorem settlement_goes_through_witness:
  "\<exists>h'. stream_cancel (wit_env 40) (wit_host wit_info) = Inr ((), h') \<and>
     holds (wit_info\<lparr>flags := flags wit_info OR FLAG_CANCELLED\<rparr>) 1 (instance_store h')"
proof -
  have "i128_fits (accrued 40 wit_info)" 
    by (simp add: accrued_def accrual_time_def i128_fits_def)
  then show ?thesis
    using settlement_goes_through [OF wit_holds wit_info_inv, of "wit_env 40"]
      ledger_token_live ledger_token_conserves
    by (simp add: bal_def) (simp add: ledger_token_def wit_balances_def)
qed

theorem recipient_is_paid_in_full_witness:
  "\<exists>paid k'. stream_withdraw (wit_env 200) 100 (wit_host wit_info) = Inr (paid, k') \<and> sint paid = 100"
proof -
  have "solvent (token_client (wit_env 200)) (current_contract_address (wit_env 200)) (0, wit_host wit_info)"
    using wit_holds wit_info_inv ledger_token_conserves
    by (force simp: solvent_def funded_def remaining_due_def duration_def ledger_token_def wit_balances_def)
  from recipient_is_paid_in_full [OF this _ wit_holds, of 100] ledger_token_live
  show ?thesis
    by (simp add: duration_def bal_def ledger_token_def wit_balances_def) blast
qed

end
