(* ===== verification/Stream_Layout.thy ===== *)
theory Stream_Layout
  imports Lockstep Stream_Witness
begin

text \<open>
  Streams stored in the older layout. \<open>state.rs\<close> promises that they stay readable without a
  migration: here, that every later call does to them exactly what it does to the same stream in
  the current layout.
\<close>

section \<open>The older layout\<close>

definition optional :: "'v option \<Rightarrow> 'v \<Rightarrow> bool \<Rightarrow> bool" where
  "optional x v by_default \<longleftrightarrow> x = Some v \<or> x = None \<and> by_default"

text \<open>
  \<open>older_layout i n m\<close>: no struct is stored; the individual keys have the fields of \<open>i\<close>, those
  that \<open>load\<close> defaults possibly absent, with the clawback and cancellation flags in keys of their
  own; the event counter, possibly absent too, is \<open>n\<close>.
\<close>

definition older_layout :: "stream_info \<Rightarrow> u64 \<Rightarrow> (stream_key \<Rightarrow> stream_val option) \<Rightarrow> bool" where
  "older_layout i n m \<longleftrightarrow>
     m Config = None \<and>
     m Sender = Some (VAddress (sender i)) \<and> m Recipient = Some (VAddress (recipient i)) \<and>
     m Token = Some (VAddress (token i)) \<and> m RatePerSecond = Some (VI128 (rate_per_second i)) \<and>
     m StartTime = Some (VU64 (start_time i)) \<and> m EndTime = Some (VU64 (end_time i)) \<and>
     optional (m Withdrawn) (VI128 (withdrawn i)) (withdrawn i = 0) \<and>
     optional (m PausedAt) (VU64 (paused_at i)) (paused_at i = 0) \<and>
     optional (m EventSequence) (VU64 n) (n = 0) \<and>
     (\<exists>f claw canc. optional (m Flags) (VU32 f) (f = 0) \<and>
        optional (m ClawbackEnabled) (VBool claw) (\<not> claw) \<and>
        optional (m Cancelled) (VBool canc) (\<not> canc) \<and>
        flags i = (f OR (if claw then FLAG_CLAWBACK_ENABLED else 0)) OR
          (if canc then FLAG_CANCELLED else 0))"

lemma optional_read:
  fixes h :: "'w stream_host"
  assumes "optional (instance_store h k) v by_default" and "dec v = Some a" and "by_default \<longleftrightarrow> a = d"
  obtains x where "(instance_get dec k :: ('w, 'a option) stream_tx) h = Inr (x, h)" and "unwrap_or x d = a"
proof (cases "instance_store h k")
  case None
  then show ?thesis using assms by (intro that [of None]) (auto simp: optional_def instance_get_Inr_iff)
next
  case (Some w)
  then show ?thesis using assms by (intro that [of "Some a"]) (auto simp: optional_def instance_get_Inr_iff)
qed

lemma older_layout_load:
  fixes h :: "'w stream_host"
  assumes "older_layout i n (instance_store h)"
  shows "state_load h = Inr (i, h)"
proof -
  obtain f claw canc where flags: "optional (instance_store h Flags) (VU32 f) (f = 0)"
      "optional (instance_store h ClawbackEnabled) (VBool claw) (\<not> claw)"
      "optional (instance_store h Cancelled) (VBool canc) (\<not> canc)"
      "flags i = (f OR (if claw then FLAG_CLAWBACK_ENABLED else 0)) OR (if canc then FLAG_CANCELLED else 0)"
    and withdrawn: "optional (instance_store h Withdrawn) (VI128 (withdrawn i)) (withdrawn i = 0)"
    and paused: "optional (instance_store h PausedAt) (VU64 (paused_at i)) (paused_at i = 0)"
    using assms unfolding older_layout_def by blast
  obtain fx where fx: "(instance_get as_u32 Flags :: ('w, u32 option) stream_tx) h = Inr (fx, h)" "unwrap_or fx 0 = f"
    using flags(1) by (rule optional_read [where dec = as_u32]) simp_all
  obtain cx where cx: "(instance_get as_bool ClawbackEnabled :: ('w, bool option) stream_tx) h = Inr (cx, h)" "unwrap_or cx False = claw"
    using flags(2) by (rule optional_read [where dec = as_bool and d = False]) simp_all
  obtain kx where kx: "(instance_get as_bool Cancelled :: ('w, bool option) stream_tx) h = Inr (kx, h)" "unwrap_or kx False = canc"
    using flags(3) by (rule optional_read [where dec = as_bool and d = False]) simp_all
  obtain wx where wx: "(instance_get as_i128 Withdrawn :: ('w, i128 option) stream_tx) h = Inr (wx, h)" "unwrap_or wx 0 = withdrawn i"
    using withdrawn by (rule optional_read [where dec = as_i128]) simp_all
  obtain px where px: "(instance_get as_u64 PausedAt :: ('w, u64 option) stream_tx) h = Inr (px, h)" "unwrap_or px 0 = paused_at i"
    using paused by (rule optional_read [where dec = as_u64]) simp_all
  have keys: "instance_store h Config = None" "unwrap_key as_address Sender h = Inr (sender i, h)"
    "unwrap_key as_address Recipient h = Inr (recipient i, h)" "unwrap_key as_address Token h = Inr (token i, h)"
    "unwrap_key as_i128 RatePerSecond h = Inr (rate_per_second i, h)"
    "unwrap_key as_u64 StartTime h = Inr (start_time i, h)" "unwrap_key as_u64 EndTime h = Inr (end_time i, h)"
    using assms by (simp_all add: older_layout_def unwrap_key_def tx_eval instance_get_def read_as_def)
  show ?thesis
    using flags(4)
    by (cases i) (auto simp: state_load_eval state_load_legacy_def bind_eval return_eval keys fx cx kx wx px Let_def)
qed

section \<open>Streams that cannot be told apart\<close>

definition counted :: "u64 \<Rightarrow> (stream_key \<Rightarrow> stream_val option) \<Rightarrow> bool" where
  "counted n m \<longleftrightarrow> optional (m EventSequence) (VU64 n) (n = 0)"

definition alike :: "'w stream_host \<Rightarrow> 'w stream_host \<Rightarrow> bool" where
  "alike h k \<longleftrightarrow>
     (\<exists>i. state_load h = Inr (i, h) \<and> state_load k = Inr (i, k)) \<and>
     (\<exists>n. counted n (instance_store h) \<and> counted n (instance_store k)) \<and>
     ttl_log h = ttl_log k \<and> event_log h = event_log k \<and> world h = world k"

lemma alike_sym: "alike h k \<Longrightarrow> alike k h"
  by (auto simp: alike_def)

lemma same_world: "alike h k \<Longrightarrow> world h = world k"
  by (simp add: alike_def)

definition agree :: "'w stream_host \<Rightarrow> 'w stream_host \<Rightarrow> bool" where
  "agree h k \<longleftrightarrow> (\<forall>key. key \<noteq> EventSequence \<longrightarrow> instance_store h key = instance_store k key)"

lemma lockstep_get: "key \<noteq> EventSequence \<Longrightarrow> lockstep agree (instance_get dec key)"
  by (simp add: lockstep_def agree_def instance_get_def tx_eval read_as_def split: option.splits)

lemma lockstep_has: "key \<noteq> EventSequence \<Longrightarrow> lockstep agree (instance_has key)"
  by (simp add: lockstep_def agree_def instance_has_def tx_eval)

lemma agree_load: "lockstep agree state_load"
  unfolding state_load_def state_load_legacy_def unwrap_key_def
  by (intro lockstep_intros lockstep_get lockstep_has lockstep_option; simp)

lemma load_agree:
  assumes "state_load h = Inr (i, h)" and "agree h k"
  shows "state_load k = Inr (i, k)"
  using lockstep_Inr [OF agree_load assms(2,1)] state_load_pure by metis

lemma alikeI:
  assumes "state_load h = Inr (i, h)" and "state_load k = Inr (i, k)"
    and "counted n (instance_store h)" and "counted n (instance_store k)"
    and "ttl_log h = ttl_log k" and "event_log h = event_log k" and "world h = world k"
  shows "alike h k"
  using assms unfolding alike_def by blast

lemma alike_frame:
  fixes h h' k k' :: "'w stream_host"
  assumes "alike h k" and "instance_store h' = instance_store h" and "instance_store k' = instance_store k"
    and "ttl_log h' = ttl_log k'" and "event_log h' = event_log k'" and "world h' = world k'"
  shows "alike h' k'"
proof -
  obtain i n where i: "state_load h = Inr (i, h)" "state_load k = Inr (i, k)"
    and n: "counted n (instance_store h)" "counted n (instance_store k)"
    using assms(1) by (auto simp: alike_def)
  have "state_load h' = Inr (i, h')" by (rule load_agree [OF i(1)]) (simp add: agree_def assms(2))
  moreover have "state_load k' = Inr (i, k')" by (rule load_agree [OF i(2)]) (simp add: agree_def assms(3))
  ultimately show ?thesis using n assms(2-6) by (intro alikeI) simp_all
qed

lemma lockstep_load [lockstep_intros]: "lockstep alike state_load"
  by (auto simp: lockstep_def alike_def)

lemma lockstep_save [lockstep_intros]: "lockstep alike (state_save i)"
  by (auto simp: lockstep_def state_save_eq alike_def state_load_Config counted_def)

lemma lockstep_bump [lockstep_intros]: "lockstep alike stream_ttl_bump"
  unfolding stream_ttl_bump_def instance_extend_ttl_def
  by (rule lockstep_modify) (rule alike_frame, assumption, simp_all add: alike_def)

lemma lockstep_publish [lockstep_intros]: "lockstep alike (publish e)"
  unfolding publish_def by (rule lockstep_modify) (rule alike_frame, assumption, simp_all add: alike_def)

lemma lockstep_balance [lockstep_intros]: "lockstep alike (tk_balance env tk who)"
  unfolding tk_balance_def by (rule lockstep_gets) (simp add: same_world)

lemma lockstep_transfer [lockstep_intros]:
  "lockstep alike (tk_transfer env tk src dst a :: ('w, unit) stream_tx)"
proof (rule lockstepI)
  fix h k :: "'w stream_host"
  assume same: "alike h k"
  have "alike (h\<lparr>world := w\<rparr>) (k\<lparr>world := w\<rparr>)" for w
    using same by (rule alike_frame) (use same in \<open>simp_all add: alike_def\<close>)
  then show "rel_sum (=) (rel_prod (=) alike) (tk_transfer env tk src dst a h) (tk_transfer env tk src dst a k)"
    using same_world [OF same] by (auto simp: tk_transfer_def split: option.splits)
qed

lemma sequence_counted:
  "counted n (instance_store h) \<Longrightarrow> next_sequence h =
     (if uint n + 1 < 2 ^ 64
      then Inr (n + 1, h\<lparr>instance_store := (instance_store h)(EventSequence \<mapsto> VU64 (n + 1))\<rparr>)
      else Inl (Err ArithmeticOverflow))"
  by (auto simp: counted_def optional_def next_sequence_def tx_eval host_eval checked_add_u_def)

lemma load_other_key:
  assumes "state_load h = Inr (i, h)"
  shows "state_load (h\<lparr>instance_store := (instance_store h)(EventSequence \<mapsto> v)\<rparr>) =
    Inr (i, h\<lparr>instance_store := (instance_store h)(EventSequence \<mapsto> v)\<rparr>)"
  using assms by (rule load_agree) (simp add: agree_def)

lemma lockstep_sequence [lockstep_intros]: "lockstep alike next_sequence"
proof (rule lockstepI)
  fix h k :: "'w stream_host"
  assume same: "alike h k"
  then obtain i n where i: "state_load h = Inr (i, h)" "state_load k = Inr (i, k)"
    and n: "counted n (instance_store h)" "counted n (instance_store k)"
    by (auto simp: alike_def)
  have "counted (n + 1) ((instance_store g)(EventSequence \<mapsto> VU64 (n + 1)))" for g :: "'w stream_host"
    by (simp add: counted_def optional_def)
  then show "rel_sum (=) (rel_prod (=) alike) (next_sequence h) (next_sequence k)"
    using same i [THEN load_other_key]
    by (auto simp: sequence_counted [OF n(1)] sequence_counted [OF n(2)] alike_def)
qed

lemma lockstep_assert [lockstep_intros]: "lockstep alike (assert_not_cancelled i)"
  by (auto simp: assert_not_cancelled_def intro: lockstep_intros)

lemma lockstep_exec: "lockstep alike (stream_exec env c)"
  by (cases c)
    (auto simp: done_tx_def amount_tx_def stream_withdraw_def stream_cancel_def stream_settle_def
      stream_pause_def stream_resume_def stream_top_up_def stream_extend_duration_def
      stream_clawback_def stream_force_cancel_def stream_transfer_recipient_def state_save_withdrawn_def
      state_set_cancelled_def event_defs
      intro!: lockstep_intros simp del: if_split)

section \<open>What follows for an older stream\<close>

text \<open>The same stream in the current layout.\<close>

definition migrated :: "stream_info \<Rightarrow> u64 \<Rightarrow> 'w stream_host \<Rightarrow> 'w stream_host" where
  "migrated i n h = h\<lparr>instance_store := saved_keys i [EventSequence \<mapsto> VU64 n]\<rparr>"

lemma holds_migrated: "holds i n (instance_store (migrated i n h))"
  by (simp add: migrated_def holds_def)

lemma migrated_alike:
  assumes "older_layout i n (instance_store h)"
  shows "alike h (migrated i n h)"
proof (rule alikeI)
  show "state_load h = Inr (i, h)" using assms by (rule older_layout_load)
  show "state_load (migrated i n h) = Inr (i, migrated i n h)" by (rule holds_load [OF holds_migrated])
  show "counted n (instance_store h)" using assms by (simp add: older_layout_def counted_def)
  show "counted n (instance_store (migrated i n h))" by (simp add: migrated_def counted_def optional_def)
qed (simp_all add: migrated_def)

lemma lockstep_move:
  assumes "stream_move T self (t, h) (t', h')" and same: "alike h k"
  shows "\<exists>k'. stream_move T self (t, k) (t', k') \<and> alike h' k'"
  using assms(1)
proof (cases rule: stream_move.cases)
  case (move_call env c r)
  obtain k' where k': "stream_exec env c k = Inr (r, k')" "alike h' k'"
    using lockstep_Inr [OF lockstep_exec same move_call(5)] .
  have "stream_move T self (t, k) (ledger_timestamp env, k')"
    using move_call(2-4) k'(1) by (rule stream_move.move_call)
  then show ?thesis using k'(2) move_call(1) by blast
next
  case (move_outside w)
  have "alike h' (k\<lparr>world := w\<rparr>)"
    using same unfolding move_outside(1) by (intro alike_frame [OF same]) (simp_all add: alike_def)
  moreover have "stream_move T self (t, k) (t', k\<lparr>world := w\<rparr>)"
    using move_outside same_world [OF same] by (intro stream_move.move_outside) simp_all
  ultimately show ?thesis by blast
qed

lemma lockstep_later:
  assumes "later (stream_move T self) s s'" and "alike (snd s) k"
  shows "\<exists>k'. later (stream_move T self) (fst s, k) (fst s', k') \<and> alike (snd s') k'"
  using assms
proof (induction rule: later.induct)
  case (later_refl s)
  then show ?case by (intro exI [of _ k]) (simp add: later.later_refl)
next
  case (later_step s s' s'')
  then obtain k' where k': "later (stream_move T self) (fst s, k) (fst s', k')" "alike (snd s') k'"
    by blast
  have "stream_move T self (fst s', snd s') (fst s'', snd s'')" using later_step(2) by simp
  from lockstep_move [OF this k'(2)] obtain k'' where "stream_move T self (fst s', k') (fst s'', k'')"
    and "alike (snd s'') k''" by blast
  then show ?case using later.later_step [OF k'(1)] by blast
qed

text \<open>Property C17. The calls of a stream in use need no migration: a stream stored in the older layout,
  optional keys present or not, loads as its struct, and whichever of the nine calls are made to it,
  in whatever order and at whatever times, with outside payments in between, each fails with the
  same error or succeeds with the same result as on the same stream in the current layout, with the
  same transfers, events and time-to-live requests. \<open>initialize\<close> is not one of the nine, and it does
  tell the layouts apart: a stream in the older layout can be initialized again.\<close>

theorem older_streams_need_no_migration:
  fixes h h' :: "'w stream_host"
  assumes "older_layout i n (instance_store h)" and "later (stream_move T self) (t, h) (t', h')"
  shows "\<exists>k' j. later (stream_move T self) (t, migrated i n h) (t', k') \<and>
    holds i n (instance_store (migrated i n h)) \<and>
    state_load h' = Inr (j, h') \<and> state_load k' = Inr (j, k') \<and>
    event_log h' = event_log k' \<and> ttl_log h' = ttl_log k' \<and> world h' = world k' \<and>
    (\<forall>(env :: 'w env) c. (\<forall>e. stream_exec env c h' = Inl e \<longleftrightarrow> stream_exec env c k' = Inl e) \<and>
      (\<forall>r. (\<exists>h2. stream_exec env c h' = Inr (r, h2)) \<longleftrightarrow> (\<exists>k2. stream_exec env c k' = Inr (r, k2))))"
proof -
  obtain k' where run: "later (stream_move T self) (t, migrated i n h) (t', k')" and same: "alike h' k'"
    using lockstep_later [OF assms(2), of "migrated i n h"] migrated_alike [OF assms(1)] by auto
  have fails: "stream_exec env c h' = Inl e \<longleftrightarrow> stream_exec env c k' = Inl e" for env :: "'w env" and c e
    by (rule lockstep_Inl [OF lockstep_exec same])
  have goes: "(\<exists>h2. stream_exec env c h' = Inr (r, h2)) \<longleftrightarrow> (\<exists>k2. stream_exec env c k' = Inr (r, k2))"
    for env :: "'w env" and c r
    using lockstep_Inr [OF lockstep_exec same] lockstep_Inr [OF lockstep_exec alike_sym [OF same]]
    by metis
  show ?thesis using run same holds_migrated fails goes unfolding alike_def by blast
qed

section \<open>Witnesses\<close>

text \<open>The concrete stream in the older layout, with none of the optional keys.\<close>

definition wit_older :: "balance_table stream_host" where
  "wit_older = wit_host wit_info\<lparr>instance_store := [Sender \<mapsto> VAddress 1, Recipient \<mapsto> VAddress 2,
     Token \<mapsto> VAddress 3, RatePerSecond \<mapsto> VI128 1, StartTime \<mapsto> VU64 0, EndTime \<mapsto> VU64 100]\<rparr>"

theorem older_streams_need_no_migration_witness:
  "\<exists>k'. later (stream_move ledger_token 10) (0, migrated wit_info 0 wit_older) (0, k') \<and>
     state_load wit_older = Inr (wit_info, wit_older) \<and> state_load k' = Inr (wit_info, k') \<and>
     world k' = wit_balances"
proof -
  have "older_layout wit_info 0 (instance_store wit_older)"
    by (auto simp: older_layout_def optional_def wit_older_def wit_info_def intro!: exI [of _ False] exI [of _ "0 :: u32"])
  then have load: "state_load wit_older = Inr (wit_info, wit_older)"
    and "\<exists>k' j. later (stream_move ledger_token 10) (0, migrated wit_info 0 wit_older) (0, k') \<and>
      state_load wit_older = Inr (j, wit_older) \<and> state_load k' = Inr (j, k') \<and> world wit_older = world k'"
    using older_streams_need_no_migration [OF _ later_refl, of wit_info 0 wit_older ledger_token 10 0]
    by (auto intro: older_layout_load)
  then show ?thesis by (auto simp: wit_older_def)
qed

end
