(* ===== verification/Stream_Reference.thy ===== *)
theory Stream_Reference
  imports Stream_Witness
begin

text \<open>
  A reference for the accrual: a meter that counts seconds one by one. The code computes the same
  with one subtraction and one multiplication, at the widths of the machine.
\<close>







end
