(* ===== verification/Stream_Traps.thy ===== *)
theory Stream_Traps
  imports Stream_Timing
begin

text \<open>
  The host traps that a call of a stream can end in: a missing authorization, a refused transfer, and
  a resume that would move the schedule beyond 64 bits. The plain subtractions of the entry points
  never overflow.
\<close>

lemma checked_sub_nonneg:
  assumes "0 \<le> sint a" and "0 \<le> sint (b :: i128)"
  shows "checked_sub_i128 a b \<noteq> None"
  using assms sint_i128_range [of a] sint_i128_range [of b]
  by (auto simp: checked_sub_i128_def i128_of_None_iff i128_fits_def)

definition resume_overflows :: "u64 \<Rightarrow> stream_info \<Rightarrow> bool" where
  "resume_overflows now i \<longleftrightarrow>
     2 ^ 64 \<le> uint (start_time i) + (uint now - uint (paused_at i)) \<or>
     2 ^ 64 \<le> uint (end_time i) + (uint now - uint (paused_at i))"

text \<open>Calls that contain no arithmetic that could overflow.\<close>

definition panic_free :: "('h, 'e, 'a) tx \<Rightarrow> bool" where
  "panic_free m \<longleftrightarrow> (\<forall>h. m h \<noteq> Inl (Trap ArithmeticPanic))"

lemma panic_free_bind: "panic_free m \<Longrightarrow> (\<And>a. panic_free (f a)) \<Longrightarrow> panic_free (bind m f)"
  by (simp add: panic_free_def bind_Inl_iff)

lemma panic_free_when: "panic_free m \<Longrightarrow> panic_free (when_tx b m)"
  by (simp add: panic_free_def when_tx_Inl_iff)

lemma panic_free_steps:
  "panic_free (return a)" "panic_free (ok_or x e)" "panic_free (instance_set k v)"
  "panic_free (instance_get dec k)" "panic_free (publish ev)"
  "panic_free (tk_transfer env tk src dst amount)"
  by (simp_all add: panic_free_def tx_fails)

lemma panic_free_sequence: "panic_free next_sequence"
  by (auto simp: panic_free_def next_sequence_def Let_def tx_fails split: option.splits)

lemma panic_free_load: "panic_free state_load"
  by (auto simp: panic_free_def state_load_eval state_load_legacy_def unwrap_key_def tx_fails Let_def
      split: option.splits stored.splits)

lemma panic_free_save: "panic_free (state_save i)"
  by (simp add: panic_free_def state_save_eq)

lemma panic_free_cancel: "panic_free state_set_cancelled"
  unfolding state_set_cancelled_def Let_def by (intro panic_free_bind panic_free_load panic_free_save)

lemma panic_free_cancelled: "panic_free (event_cancelled a b c)"
  unfolding event_defs by (intro panic_free_bind panic_free_sequence panic_free_steps)

lemma settle_traps:
  assumes "holds i n (instance_store h)" and "info_inv (ledger_timestamp env) i"
    and "token_conserves (token_client env)" and "stream_settle env i h = Inl (Trap x)"
  shows "x = TokenFailure"
proof -
  have rate: "0 < sint (rate_per_second i)" and wd: "0 \<le> sint (withdrawn i)"
    using assms(2) by (simp_all add: info_inv_def)
  let ?b = "token_balance (token_client env) (world h) (token i) (current_contract_address env)"
  have b: "0 \<le> sint ?b" using assms(3) by (rule token_balance_nonneg)
  have "stream_settle env i h \<noteq> Inl (Trap ArithmeticPanic)"
  proof (cases "math_streamed_amount env i")
    case (Inl e)
    then show ?thesis by (simp add: stream_settle_def Let_def tx_eval host_eval)
  next
    case (Inr s)
    have "checked_sub_i128 s (withdrawn i) \<noteq> None"
      using streamed_earned [OF Inr rate] wd by (intro checked_sub_nonneg) (simp_all add: earned_def)
    then obtain e where e: "checked_sub_i128 s (withdrawn i) = Some e" by blast
    let ?a = "min_i128 (max_i128 e 0) ?b"
    have "checked_sub_i128 ?b ?a \<noteq> None"
      using b by (intro checked_sub_nonneg) (simp_all add: sint_minmax)
    then obtain r where r: "checked_sub_i128 ?b ?a = Some r" by blast
    let ?rest = "bind state_set_cancelled (\<lambda>_.
      bind (state_save (i\<lparr>flags := flags i OR FLAG_CANCELLED\<rparr>)) (\<lambda>_.
      bind (when_tx (0 < sint ?a)
              (tk_transfer env (token i) (current_contract_address env) (recipient i) ?a)) (\<lambda>_.
      bind (when_tx (0 < sint (max_i128 r 0))
              (tk_transfer env (token i) (current_contract_address env) (sender i) (max_i128 r 0))) (\<lambda>_.
      event_cancelled (sender i) (max_i128 r 0) (withdrawn i)))))"
    have "stream_settle env i h = ?rest h"
      unfolding stream_settle_def Let_def tk_balance_def
      by (simp only: bind_eval gets_eval lift_result_eval expect_eval Inr e r sum.case option.case prod.case)
    moreover have "panic_free ?rest"
      by (intro panic_free_bind panic_free_when panic_free_steps panic_free_cancel panic_free_save
          panic_free_cancelled)
    ultimately show ?thesis by (simp add: panic_free_def)
  qed
  with settle_failure(2) [OF assms(1,4)] assms(4) show ?thesis by (auto simp: late_failures_def)
qed

lemma stream_call_traps:
  assumes "holds i n (instance_store h)" and "info_inv (ledger_timestamp env) i"
    and "token_conserves (token_client env)" and "stream_exec env c h = Inl (Trap x)"
  shows "x \<in> {AuthError, TokenFailure} \<or>
    x = ArithmeticPanic \<and> c = Resume \<and> resume_overflows (ledger_timestamp env) i"
proof -
  have rate: "0 < sint (rate_per_second i)" and wd: "0 \<le> sint (withdrawn i)"
    using assms(2) by (simp_all add: info_inv_def)
  let ?b = "token_balance (token_client env) (world h) (token i) (current_contract_address env)"
  have b: "0 \<le> sint ?b" using assms(3) by (rule token_balance_nonneg)
  show ?thesis
  proof (cases c)
    case (Withdraw amount)
    have "checked_sub_i128 ?b (min_i128 amount a) \<noteq> None"
      if "\<not> sint amount \<le> 0" "math_withdrawable env i = Inr a" for a
      using that b withdrawable_earned [OF that(2) assms(2)]
      by (intro checked_sub_nonneg) (simp_all add: sint_minmax)
    then show ?thesis
      using assms(1,4) Withdraw by (auto simp: stream_withdraw_def failing split: failing_split)
  next
    case Cancel
    then show ?thesis using assms(4) assms(1)
      by (auto simp: stream_cancel_def done_tx_def tx_fails tx_simps stream_ttl_bump_def holds_load
          dest!: settle_traps [OF _ assms(2,3), rotated] split: failing_split)
  next
    case ForceCancel
    then show ?thesis using assms(4) assms(1)
      by (auto simp: stream_force_cancel_def done_tx_def tx_fails tx_simps stream_ttl_bump_def holds_load Let_def
          dest!: settle_traps [OF _ assms(2,3), rotated] split: failing_split)
  next
    case Pause
    then show ?thesis using assms(1,4) by (auto simp: stream_pause_def failing split: failing_split)
  next
    case Resume
    then show ?thesis using assms(1,2,4)
      by (auto simp: stream_resume_def failing checked_sub_u_None_iff checked_add_u_None_iff
          checked_sub_u_Some_iff resume_overflows_def info_inv_def word_le_def split: failing_split)
  next
    case (TopUp amount)
    then show ?thesis using assms(1,4) by (auto simp: stream_top_up_def failing split: failing_split)
  next
    case (ExtendDuration secs)
    then show ?thesis using assms(1,4) by (auto simp: stream_extend_duration_def failing split: failing_split)
  next
    case Clawback
    have "checked_sub_i128 s (withdrawn i) \<noteq> None" if "math_streamed_amount env i = Inr s" for s
      using streamed_earned [OF that rate] wd by (intro checked_sub_nonneg) (simp_all add: earned_def)
    moreover have "checked_sub_i128 ?b (max_i128 e 0) \<noteq> None" for e
      using b by (intro checked_sub_nonneg) (simp_all add: sint_minmax)
    ultimately show ?thesis
      using Clawback assms(1,4) by (auto simp: stream_clawback_def failing split: failing_split) (metis option.distinct(1))+
  next
    case (TransferRecipient rcp)
    then show ?thesis using assms(1,4) by (auto simp: stream_transfer_recipient_def failing split: failing_split)
  qed
qed

end
