(* ===== verification/Stream_Withdrawals.thy ===== *)
theory Stream_Withdrawals
  imports Stream_Traps Stream_Witness
begin

text \<open>
  Every outcome of a withdrawal, also from an escrow that does not hold what is owed, as an
  open-ended stream, a stream with clawback or an old one may have.
\<close>

lemma short_escrow_traps:
  assumes "holds i n (instance_store h)" and "info_inv t i" and "token_conserves (token_client env)"
    and "\<not> is_cancelled i" and "has_authorized env (recipient i)" and "0 < sint amount"
    and "math_streamed_amount env i = Inr s"
    and owes: "sint (withdrawn i) < earned (ledger_timestamp env) i"
    and short: "bal env (world h) (token i) (current_contract_address env) <
      min (sint amount) (earned (ledger_timestamp env) i - sint (withdrawn i))"
    and "recipient i \<noteq> current_contract_address env"
  shows "stream_withdraw env amount h = Inl (Trap TokenFailure)"
proof -
  let ?self = "current_contract_address env"
  let ?due = "earned (ledger_timestamp env) i - sint (withdrawn i)"
  let ?b = "token_balance (token_client env) (world h) (token i) ?self"
  have rate: "0 < sint (rate_per_second i)" and wd: "0 \<le> sint (withdrawn i)"
    using assms(2) by (simp_all add: info_inv_def)
  obtain available where available: "math_withdrawable env i = Inr available"
    using withdrawable_total [OF assms(7)] by blast
  have a: "sint available = ?due" using withdrawable_earned [OF available assms(2)] owes by simp
  then have a0: "available \<noteq> 0" using owes by auto
  define paid where "paid = min_i128 amount available"
  have p: "sint paid = min (sint amount) ?due" by (simp add: paid_def sint_minmax a)
  have p0: "0 < sint paid" using p assms(6) owes by simp
  have "i128_fits (sint (withdrawn i) + sint paid)"
    using p p0 wd sint_i128_range [of s] streamed_earned [OF assms(7) rate]
    unfolding i128_fits_def by linarith
  from i128_exists [OF this] obtain total :: i128
    where "sint total = sint (withdrawn i) + sint paid" ..
  then have total: "checked_add_i128 (withdrawn i) paid = Some total"
    by (simp add: checked_add_i128_def i128_of_Some_iff)
  have "checked_sub_i128 ?b paid \<noteq> None"
    using token_balance_nonneg [OF assms(3)] p0 by (intro checked_sub_nonneg) simp_all
  then obtain rest where rest: "checked_sub_i128 ?b paid = Some rest" by blast
  have refused: "token_transfer (token_client env) (world h) (token i) ?self (recipient i) paid = None"
  proof (cases "token_transfer (token_client env) (world h) (token i) ?self (recipient i) paid")
    case (Some w)
    have "0 \<le> sint (token_balance (token_client env) w (token i) ?self)"
      using assms(3) by (rule token_balance_nonneg)
    also have "\<dots> = sint ?b - sint paid"
      using token_transfer_balance [OF assms(3) Some, of "token i" ?self] assms(10) by (simp add: moved_def)
    finally show ?thesis using short p by (auto simp: bal_def)
  qed
  have load: "state_load (h\<lparr>ttl_log := l\<rparr>) = Inr (i, h\<lparr>ttl_log := l\<rparr>)" for l
    using assms(1) by (simp add: holds_load)
  show ?thesis
    using assms(4-6) a0
    by (simp add: stream_withdraw_def tx_eval host_eval stream_ttl_bump_def load assert_not_cancelled_def
        available paid_def [symmetric] total state_save_withdrawn_def state_save_eq rest refused Let_def)
qed

text \<open>A positive amount, asked of a live stream by its recipient.\<close>

lemma withdraw_due_outcome:
  assumes "holds i n (instance_store h)" and "info_inv t i"
    and "token_live (token_client env)" and "token_conserves (token_client env)"
    and "\<not> is_cancelled i" and "has_authorized env (recipient i)" and "0 < sint amount"
    and "math_streamed_amount env i = Inr s"
    and "recipient i \<noteq> current_contract_address env"
    and "bal env (world h) (token i) (recipient i) + sint amount < 2 ^ 127" and "uint n + 1 < 2 ^ 64"
  shows "let due = max 0 (earned (ledger_timestamp env) i - sint (withdrawn i));
      pays = min (sint amount) due in
    if due = 0 then stream_withdraw env amount h = Inl (Err NothingToWithdraw)
    else if pays \<le> bal env (world h) (token i) (current_contract_address env)
    then \<exists>paid h'. stream_withdraw env amount h = Inr (paid, h') \<and> sint paid = pays
    else stream_withdraw env amount h = Inl (Trap TokenFailure)"
proof (cases "sint (withdrawn i) < earned (ledger_timestamp env) i")
  case False
  have rate: "0 < sint (rate_per_second i)" and wd: "0 \<le> sint (withdrawn i)"
    using assms(2) by (simp_all add: info_inv_def)
  have "first_failure env i (Withdraw amount) = Some (Err NothingToWithdraw)"
    using False assms(5-8) streamed_earned [OF assms(8) rate] by simp
  then have "stream_exec env (Withdraw amount) h = Inl (Err NothingToWithdraw)"
    using failing_Withdraw [of env amount] assms(1) wd unfolding fails_in_order_def by blast
  then have "stream_withdraw env amount h = Inl (Err NothingToWithdraw)"
    by (auto simp: amount_tx_def tx_fails)
  with False show ?thesis by (simp add: Let_def)
next
  case owes: True
  let ?due = "earned (ledger_timestamp env) i - sint (withdrawn i)"
  let ?escrow = "bal env (world h) (token i) (current_contract_address env)"
  have "\<exists>paid h'. stream_withdraw env amount h = Inr (paid, h') \<and> sint paid = min (sint amount) ?due"
    if enough: "min (sint amount) ?due \<le> ?escrow"
  proof -
    obtain paid ev i' w' where
      step: "stream_step env i (world h) (Withdraw amount) (Amount paid) ev i' w'"
      and paid: "sint paid = min (sint amount) ?due"
      using withdraw_step_exists [OF assms(2-8) owes enough] assms(10) by blast
    have "stream_exec env (Withdraw amount) h = Inr (Amount paid, after i' (n + 1) (ev (n + 1)) w' h)"
      using implements_all [of env "Withdraw amount"] assms(1,11) step unfolding implements_def by blast
    then show ?thesis using paid by (auto simp: tx_simps)
  qed
  moreover have "stream_withdraw env amount h = Inl (Trap TokenFailure)"
    if "\<not> min (sint amount) ?due \<le> ?escrow"
    using short_escrow_traps [OF assms(1,2,4-8) owes _ assms(9)] that by (auto simp: min_le_iff_disj not_le)
  ultimately show ?thesis using owes by (simp add: Let_def max_def)
qed

lemma withdraw_first_failure:
  assumes "holds i n (instance_store h)" and "0 \<le> sint (withdrawn i)"
    and "first_failure env i (Withdraw amount) = Some e"
  shows "stream_withdraw env amount h = Inl e"
proof -
  have "stream_exec env (Withdraw amount) h = Inl e"
    using failing_Withdraw [of env amount] assms unfolding fails_in_order_def by blast
  then show ?thesis by (auto simp: amount_tx_def tx_fails)
qed

text \<open>Property C11. What a withdrawal from a consistent stream does, on every branch and in this order: an
  amount that is not positive fails with \<open>InvalidAmount\<close>, a cancelled stream with \<open>StreamCancelled\<close>, a
  caller who is not the recipient traps, an accrual that cannot be computed fails with
  \<open>ArithmeticOverflow\<close>, and one that has been withdrawn already with \<open>NothingToWithdraw\<close>. Otherwise
  the call pays the smaller of the amount and what is due when the escrow holds that much; when it
  does not, though it may hold a part, the call traps in the token transfer: \<open>withdraw\<close> is not capped
  by the escrow, as a settlement is. Assumed are a token contract that makes payable transfers, a
  recipient that is not the stream contract and can hold the amount, and an event number left.\<close>

theorem withdraw_outcome:
  assumes "holds i n (instance_store h)" and "info_inv t i"
    and "token_live (token_client env)" and "token_conserves (token_client env)"
    and "recipient i \<noteq> current_contract_address env"
    and "bal env (world h) (token i) (recipient i) + sint amount < 2 ^ 127" and "uint n + 1 < 2 ^ 64"
  shows "if sint amount \<le> 0 then stream_withdraw env amount h = Inl (Err InvalidAmount)
    else if is_cancelled i then stream_withdraw env amount h = Inl (Err StreamCancelled)
    else if \<not> has_authorized env (recipient i) then stream_withdraw env amount h = Inl (Trap AuthError)
    else case math_streamed_amount env i of
      Inl _ \<Rightarrow> stream_withdraw env amount h = Inl (Err ArithmeticOverflow)
    | Inr s \<Rightarrow>
       (let due = max 0 (sint s - sint (withdrawn i)); pays = min (sint amount) due in
        if due = 0 then stream_withdraw env amount h = Inl (Err NothingToWithdraw)
        else if pays \<le> bal env (world h) (token i) (current_contract_address env)
        then \<exists>paid h'. stream_withdraw env amount h = Inr (paid, h') \<and> sint paid = pays
        else stream_withdraw env amount h = Inl (Trap TokenFailure))"
proof -
  have rate: "0 < sint (rate_per_second i)" and wd: "0 \<le> sint (withdrawn i)"
    using assms(2) by (simp_all add: info_inv_def)
  note fails = withdraw_first_failure [OF assms(1) wd, of env amount]
  show ?thesis
  proof (cases "0 < sint amount \<and> \<not> is_cancelled i \<and> has_authorized env (recipient i)")
    case ok: True
    show ?thesis
    proof (cases "math_streamed_amount env i")
      case (Inl e)
      then show ?thesis using ok fails by simp
    next
      case (Inr s)
      note due = withdraw_due_outcome [OF assms(1-4) _ _ _ Inr assms(5-7)]
      show ?thesis using ok due Inr streamed_earned [OF Inr rate] by (simp add: not_le)
    qed
  next
    case False
    then show ?thesis using fails by (auto simp: not_less)
  qed
qed

text \<open>The concrete stream with an escrow of 10, at time 40.\<close>

definition wit_dry :: "balance_table stream_host" where
  "wit_dry = wit_host wit_info\<lparr>world := (\<lambda>tk who. if who = 10 then 10 else 0)\<rparr>"

theorem withdraw_outcome_witness:
  "stream_withdraw (wit_env 40) 30 wit_dry = Inl (Trap TokenFailure) \<and>
   stream_withdraw (wit_env 40) 0 wit_dry = Inl (Err InvalidAmount) \<and>
   (\<exists>paid h'. stream_withdraw (wit_env 40) 5 wit_dry = Inr (paid, h') \<and> sint paid = 5)"
proof -
  have holds: "holds wit_info 0 (instance_store wit_dry)" by (simp add: wit_dry_def wit_holds)
  have b: "bal (wit_env 40) (world wit_dry) 3 10 = 10" "bal (wit_env 40) (world wit_dry) 3 2 = 0"
    by (simp_all add: bal_def wit_dry_def ledger_token_def)
  note outcome = withdraw_outcome [where env = "wit_env 40", OF holds wit_info_inv]
  show ?thesis
    using outcome [where amount = 30] outcome [where amount = 0] outcome [where amount = 5]
      ledger_token_live ledger_token_conserves
    by (simp add: b Let_def wit_streamed)
qed

end
