(* ===== verification/Governor_Contract.thy ===== *)
theory Governor_Contract
  imports Soroban_Host
begin

text \<open>
  \<open>DripGovernor\<close> (\<open>contracts/governor/src\<close>): the protocol's parameters behind three
  roles. Errors, storage keys, time to live, the role module, the configuration and the entry
  points, in the order of the source.
\<close>

section \<open>Errors and storage\<close>

datatype governor_error = NotAuthorized | InvalidParam | AlreadyInitialized | LastAdmin | NotInitialized

fun governor_error_code :: "governor_error \<Rightarrow> nat" where
  "governor_error_code NotAuthorized = 1"
| "governor_error_code InvalidParam = 2"
| "governor_error_code AlreadyInitialized = 3"
| "governor_error_code LastAdmin = 4"
| "governor_error_code NotInitialized = 5"

datatype role = Admin | FeeManager | RateManager

record role_key =
  key_role :: role
  key_account :: address

datatype governor_key =
    FeeBps
  | FeeRecipient
  | MinDurationSeconds
  | MaxRatePerSecond
  | MaxDurationSeconds
  | FactoryAddress
  | Role role_key
  | AdminCount

type_synonym 'w governor_host = "(governor_key, unit stored, unit, 'w) host"

type_synonym ('w, 'a) governor_tx = "('w governor_host, governor_error, 'a) tx"

definition GOVERNOR_TTL_THRESHOLD :: u32 where
  "GOVERNOR_TTL_THRESHOLD = 100000"

definition GOVERNOR_TTL_EXTEND_TO :: u32 where
  "GOVERNOR_TTL_EXTEND_TO = 200000"

definition governor_ttl_bump :: "('w, unit) governor_tx" where
  "governor_ttl_bump = instance_extend_ttl GOVERNOR_TTL_THRESHOLD GOVERNOR_TTL_EXTEND_TO"

section \<open>Roles\<close>

definition role_storage_key :: "role \<Rightarrow> address \<Rightarrow> governor_key" where
  "role_storage_key r account = Role \<lparr>key_role = r, key_account = account\<rparr>"

definition role_has_role :: "role \<Rightarrow> address \<Rightarrow> ('w, bool) governor_tx" where
  "role_has_role r account = instance_has (role_storage_key r account)"

definition role_admin_count :: "('w, u32) governor_tx" where
  "role_admin_count =
     bind (instance_get as_u32 AdminCount) (\<lambda>x. return (unwrap_or x 0))"

definition role_grant :: "role \<Rightarrow> address \<Rightarrow> ('w, unit) governor_tx" where
  "role_grant r account =
     bind (role_has_role r account) (\<lambda>held.
     if held then return ()
     else
       bind (instance_set (role_storage_key r account) (VBool True)) (\<lambda>_.
       if r = Admin then
         bind role_admin_count (\<lambda>count.
         bind (expect (checked_add_u count 1) ArithmeticPanic) (\<lambda>nxt.
         instance_set AdminCount (VU32 nxt)))
       else return ()))"

definition role_revoke :: "role \<Rightarrow> address \<Rightarrow> ('w, unit) governor_tx" where
  "role_revoke r account =
     bind (role_has_role r account) (\<lambda>held.
     if \<not> held then return ()
     else
       bind (if r = Admin then
               bind role_admin_count (\<lambda>count.
               if count \<le> 1 then fail (Err LastAdmin)
               else
                 bind (expect (checked_sub_u count 1) ArithmeticPanic) (\<lambda>nxt.
                 instance_set AdminCount (VU32 nxt)))
             else return ()) (\<lambda>_.
       instance_remove (role_storage_key r account)))"

definition role_require_role ::
  "('w, 'n) env_scheme \<Rightarrow> address \<Rightarrow> role \<Rightarrow> ('w, unit) governor_tx" where
  "role_require_role env caller r =
     bind (require_auth env caller) (\<lambda>_.
     bind (role_has_role r caller) (\<lambda>held.
     bind (ensure held NotAuthorized) (\<lambda>_.
     governor_ttl_bump)))"

section \<open>Configuration\<close>

record governor_config =
  fee_bps :: u32
  fee_recipient :: address
  min_duration_seconds :: u64
  max_duration_seconds :: u64
  max_rate_per_second :: i128
  factory_address :: address

definition config_load :: "('w, governor_config) governor_tx" where
  "config_load =
     bind (instance_get as_address FeeRecipient) (\<lambda>fr.
     bind (ok_or fr NotInitialized) (\<lambda>recip.
     bind (instance_get as_address FactoryAddress) (\<lambda>fa.
     bind (ok_or fa NotInitialized) (\<lambda>factory.
     bind (instance_get as_u32 FeeBps) (\<lambda>fee.
     bind (instance_get as_u64 MinDurationSeconds) (\<lambda>min_d.
     bind (instance_get as_u64 MaxDurationSeconds) (\<lambda>max_d.
     bind (instance_get as_i128 MaxRatePerSecond) (\<lambda>rate.
     return \<lparr>fee_bps = unwrap_or fee 30, fee_recipient = recip,
       min_duration_seconds = unwrap_or min_d 3600,
       max_duration_seconds = unwrap_or max_d 315360000,
       max_rate_per_second = unwrap_or rate 1000000000000000,
       factory_address = factory\<rparr>))))))))"

section \<open>Entry points\<close>

definition governor_initialize :: "address \<Rightarrow> address \<Rightarrow> address \<Rightarrow> ('w, unit) governor_tx" where
  "governor_initialize authority recip factory =
     bind (instance_has FactoryAddress) (\<lambda>initialized.
     bind (ensure (\<not> initialized) AlreadyInitialized) (\<lambda>_.
     bind governor_ttl_bump (\<lambda>_.
     bind (instance_set FeeBps (VU32 30)) (\<lambda>_.
     bind (instance_set FeeRecipient (VAddress recip)) (\<lambda>_.
     bind (instance_set MinDurationSeconds (VU64 3600)) (\<lambda>_.
     bind (instance_set MaxDurationSeconds (VU64 315360000)) (\<lambda>_.
     bind (instance_set MaxRatePerSecond (VI128 1000000000000000)) (\<lambda>_.
     bind (instance_set FactoryAddress (VAddress factory)) (\<lambda>_.
     bind (role_grant Admin authority) (\<lambda>_.
     bind (role_grant FeeManager authority) (\<lambda>_.
     role_grant RateManager authority)))))))))))"

definition governor_get_config :: "('w, governor_config) governor_tx" where
  "governor_get_config = config_load"

definition governor_has_role :: "role \<Rightarrow> address \<Rightarrow> ('w, bool) governor_tx" where
  "governor_has_role r account = role_has_role r account"

definition governor_grant_role ::
  "('w, 'n) env_scheme \<Rightarrow> address \<Rightarrow> role \<Rightarrow> address \<Rightarrow> ('w, unit) governor_tx" where
  "governor_grant_role env caller r account =
     bind (role_require_role env caller Admin) (\<lambda>_.
     role_grant r account)"

definition governor_revoke_role ::
  "('w, 'n) env_scheme \<Rightarrow> address \<Rightarrow> role \<Rightarrow> address \<Rightarrow> ('w, unit) governor_tx" where
  "governor_revoke_role env caller r account =
     bind (role_require_role env caller Admin) (\<lambda>_.
     role_revoke r account)"

definition governor_transfer_authority ::
  "('w, 'n) env_scheme \<Rightarrow> address \<Rightarrow> address \<Rightarrow> ('w, unit) governor_tx" where
  "governor_transfer_authority env caller new_authority =
     bind (role_require_role env caller Admin) (\<lambda>_.
     bind (role_grant Admin new_authority) (\<lambda>_.
     role_revoke Admin caller))"

definition governor_set_fee_bps ::
  "('w, 'n) env_scheme \<Rightarrow> address \<Rightarrow> u32 \<Rightarrow> ('w, unit) governor_tx" where
  "governor_set_fee_bps env caller bps =
     bind (role_require_role env caller FeeManager) (\<lambda>_.
     bind (ensure (\<not> 10000 < bps) InvalidParam) (\<lambda>_.
     instance_set FeeBps (VU32 bps)))"

definition governor_set_fee_recipient ::
  "('w, 'n) env_scheme \<Rightarrow> address \<Rightarrow> address \<Rightarrow> ('w, unit) governor_tx" where
  "governor_set_fee_recipient env caller recip =
     bind (role_require_role env caller FeeManager) (\<lambda>_.
     instance_set FeeRecipient (VAddress recip))"

definition governor_set_min_duration ::
  "('w, 'n) env_scheme \<Rightarrow> address \<Rightarrow> u64 \<Rightarrow> ('w, unit) governor_tx" where
  "governor_set_min_duration env caller seconds =
     bind (role_require_role env caller RateManager) (\<lambda>_.
     bind (ensure (seconds \<noteq> 0) InvalidParam) (\<lambda>_.
     bind (instance_get as_i128 MaxRatePerSecond) (\<lambda>x.
     let max_rate = unwrap_or x 1000000000000000; secs_i = u64_as_i128 seconds in
     bind (ok_or (checked_mul_i128 max_rate secs_i) InvalidParam) (\<lambda>_.
     instance_set MinDurationSeconds (VU64 seconds)))))"

definition governor_set_max_rate ::
  "('w, 'n) env_scheme \<Rightarrow> address \<Rightarrow> i128 \<Rightarrow> ('w, unit) governor_tx" where
  "governor_set_max_rate env caller max_rate =
     bind (role_require_role env caller RateManager) (\<lambda>_.
     bind (ensure (\<not> sint max_rate \<le> 0) InvalidParam) (\<lambda>_.
     bind (instance_get as_u64 MinDurationSeconds) (\<lambda>x.
     let min_duration = unwrap_or x 3600; secs_i = u64_as_i128 min_duration in
     bind (ok_or (checked_mul_i128 max_rate secs_i) InvalidParam) (\<lambda>_.
     instance_set MaxRatePerSecond (VI128 max_rate)))))"

definition governor_set_max_duration ::
  "('w, 'n) env_scheme \<Rightarrow> address \<Rightarrow> u64 \<Rightarrow> ('w, unit) governor_tx" where
  "governor_set_max_duration env caller seconds =
     bind (role_require_role env caller RateManager) (\<lambda>_.
     bind (ensure (seconds \<noteq> 0) InvalidParam) (\<lambda>_.
     instance_set MaxDurationSeconds (VU64 seconds)))"

end
