(* ===== verification/Governor_Spec.thy ===== *)
theory Governor_Spec
  imports Governor_Contract Machine
begin

text \<open>
  The governor as an abstract machine: a configuration and, per role, the set of its holders.
  \<open>governor_next\<close> is the specification of a call as a function on it; the entry points implement
  it, on every branch.
\<close>

section \<open>Calls\<close>

datatype governor_call =
    GrantRole role address
  | RevokeRole role address
  | TransferAuthority address
  | SetFeeBps u32
  | SetFeeRecipient address
  | SetMinDuration u64
  | SetMaxRate i128
  | SetMaxDuration u64

fun governor_exec ::
  "('w, 'n) env_scheme \<Rightarrow> address \<Rightarrow> governor_call \<Rightarrow> ('w, unit) governor_tx" where
  "governor_exec env caller (GrantRole r a) = governor_grant_role env caller r a"
| "governor_exec env caller (RevokeRole r a) = governor_revoke_role env caller r a"
| "governor_exec env caller (TransferAuthority a) = governor_transfer_authority env caller a"
| "governor_exec env caller (SetFeeBps b) = governor_set_fee_bps env caller b"
| "governor_exec env caller (SetFeeRecipient a) = governor_set_fee_recipient env caller a"
| "governor_exec env caller (SetMinDuration s) = governor_set_min_duration env caller s"
| "governor_exec env caller (SetMaxRate r) = governor_set_max_rate env caller r"
| "governor_exec env caller (SetMaxDuration s) = governor_set_max_duration env caller s"

section \<open>The abstract state\<close>

record governor_state = governor_config +
  holders :: "role \<Rightarrow> address set"

text \<open>The role that a call needs.\<close>

fun role_needed :: "governor_call \<Rightarrow> role" where
  "role_needed (GrantRole _ _) = Admin"
| "role_needed (RevokeRole _ _) = Admin"
| "role_needed (TransferAuthority _) = Admin"
| "role_needed (SetFeeBps _) = FeeManager"
| "role_needed (SetFeeRecipient _) = FeeManager"
| "role_needed (SetMinDuration _) = RateManager"
| "role_needed (SetMaxRate _) = RateManager"
| "role_needed (SetMaxDuration _) = RateManager"

definition hold :: "role \<Rightarrow> address \<Rightarrow> governor_state \<Rightarrow> governor_state" where
  "hold r a g = g\<lparr>holders := (holders g)(r := insert a (holders g r))\<rparr>"

definition drop_role :: "role \<Rightarrow> address \<Rightarrow> governor_state \<Rightarrow> governor_state" where
  "drop_role r a g = g\<lparr>holders := (holders g)(r := holders g r - {a})\<rparr>"

text \<open>Granting the role to a new admin counts it, in 32 bits; the last admin cannot be dropped.\<close>

definition grant_next :: "role \<Rightarrow> address \<Rightarrow> governor_state \<Rightarrow> governor_error failure + governor_state" where
  "grant_next r a g =
     (if r = Admin \<and> a \<notin> holders g Admin \<and> card (holders g Admin) = 2 ^ 32 - 1
      then Inl (Trap ArithmeticPanic) else Inr (hold r a g))"

definition revoke_next :: "role \<Rightarrow> address \<Rightarrow> governor_state \<Rightarrow> governor_error failure + governor_state" where
  "revoke_next r a g =
     (if r = Admin \<and> holders g Admin = {a} then Inl (Err LastAdmin) else Inr (drop_role r a g))"

definition governor_next ::
  "(address \<Rightarrow> bool) \<Rightarrow> address \<Rightarrow> governor_call \<Rightarrow> governor_state \<Rightarrow>
     governor_error failure + governor_state" where
  "governor_next auth caller c g =
     (if \<not> auth caller then Inl (Trap AuthError)
      else if caller \<notin> holders g (role_needed c) then Inl (Err NotAuthorized)
      else case c of
        GrantRole r a \<Rightarrow> grant_next r a g
      | RevokeRole r a \<Rightarrow> revoke_next r a g
      | TransferAuthority a \<Rightarrow>
          (case grant_next Admin a g of Inl e \<Rightarrow> Inl e | Inr g' \<Rightarrow> revoke_next Admin caller g')
      | SetFeeBps b \<Rightarrow> if 10000 < b then Inl (Err InvalidParam) else Inr (g\<lparr>fee_bps := b\<rparr>)
      | SetFeeRecipient a \<Rightarrow> Inr (g\<lparr>fee_recipient := a\<rparr>)
      | SetMinDuration s \<Rightarrow>
          if s = 0 \<or> \<not> i128_fits (sint (max_rate_per_second g) * uint s)
          then Inl (Err InvalidParam) else Inr (g\<lparr>min_duration_seconds := s\<rparr>)
      | SetMaxRate r \<Rightarrow>
          if sint r \<le> 0 \<or> \<not> i128_fits (sint r * uint (min_duration_seconds g))
          then Inl (Err InvalidParam) else Inr (g\<lparr>max_rate_per_second := r\<rparr>)
      | SetMaxDuration s \<Rightarrow>
          if s = 0 then Inl (Err InvalidParam) else Inr (g\<lparr>max_duration_seconds := s\<rparr>))"

section \<open>How it is stored\<close>

fun governor_store :: "governor_state \<Rightarrow> governor_key \<Rightarrow> unit stored option" where
  "governor_store g FeeBps = Some (VU32 (fee_bps g))"
| "governor_store g FeeRecipient = Some (VAddress (fee_recipient g))"
| "governor_store g MinDurationSeconds = Some (VU64 (min_duration_seconds g))"
| "governor_store g MaxRatePerSecond = Some (VI128 (max_rate_per_second g))"
| "governor_store g MaxDurationSeconds = Some (VU64 (max_duration_seconds g))"
| "governor_store g FactoryAddress = Some (VAddress (factory_address g))"
| "governor_store g (Role k) =
     (if key_account k \<in> holders g (key_role k) then Some (VBool True) else None)"
| "governor_store g AdminCount = Some (VU32 (of_nat (card (holders g Admin))))"

text \<open>What holds of a governor in use.\<close>

definition governed :: "governor_state \<Rightarrow> bool" where
  "governed g \<longleftrightarrow>
     finite (holders g Admin) \<and> holders g Admin \<noteq> {} \<and> card (holders g Admin) < 2 ^ 32 \<and>
     fee_bps g \<le> 10000 \<and> min_duration_seconds g \<noteq> 0 \<and> max_duration_seconds g \<noteq> 0 \<and>
     0 < sint (max_rate_per_second g) \<and>
     i128_fits (sint (max_rate_per_second g) * uint (min_duration_seconds g))"

lemma governor_store_role [simp]:
  "governor_store g (role_storage_key r a) = (if a \<in> holders g r then Some (VBool True) else None)"
  by (simp add: role_storage_key_def)

lemma role_storage_key_neq [simp]:
  "role_storage_key r a \<noteq> AdminCount" "AdminCount \<noteq> role_storage_key r a"
  by (simp_all add: role_storage_key_def)

lemma uint_admin_count:
  "card A < 2 ^ 32 \<Longrightarrow> uint (of_nat (card A) :: u32) = int (card A)"
  by (simp add: unsigned_of_nat take_bit_nat_eq_self)

lemma governor_store_hold_role:
  "r \<noteq> Admin \<Longrightarrow> (governor_store g)(role_storage_key r a \<mapsto> VBool True) = governor_store (hold r a g)"
  by (rule ext, rename_tac k, case_tac k)
    (auto simp: hold_def role_storage_key_def split: if_splits)

lemma governor_store_drop_role:
  "r \<noteq> Admin \<Longrightarrow> (governor_store g)(role_storage_key r a := None) = governor_store (drop_role r a g)"
  by (rule ext, rename_tac k, case_tac k)
    (auto simp: drop_role_def role_storage_key_def split: if_splits)

lemma governor_store_hold_admin:
  "n = of_nat (card (insert a (holders g Admin))) \<Longrightarrow>
   (governor_store g)(role_storage_key Admin a \<mapsto> VBool True, AdminCount \<mapsto> VU32 n) =
     governor_store (hold Admin a g)"
  by (rule ext, rename_tac k, case_tac k)
    (auto simp: hold_def role_storage_key_def split: if_splits)

lemma governor_store_drop_admin:
  "n = of_nat (card (holders g Admin - {a})) \<Longrightarrow>
   (governor_store g)(AdminCount \<mapsto> VU32 n, role_storage_key Admin a := None) =
     governor_store (drop_role Admin a g)"
  by (rule ext, rename_tac k, case_tac k)
    (auto simp: drop_role_def role_storage_key_def split: if_splits)

lemma hold_held: "a \<in> holders g r \<Longrightarrow> hold r a g = g"
  by (cases g) (auto simp: hold_def insert_absorb fun_upd_idem)

lemma drop_absent: "a \<notin> holders g r \<Longrightarrow> drop_role r a g = g"
  by (cases g) (auto simp: drop_role_def fun_upd_idem)

definition with_store :: "'w governor_host \<Rightarrow> governor_error failure + governor_state \<Rightarrow>
    governor_error failure + unit \<times> 'w governor_host" where
  "with_store h x =
     (case x of Inl e \<Rightarrow> Inl e | Inr g \<Rightarrow> Inr ((), h\<lparr>instance_store := governor_store g\<rparr>))"

lemma role_grant_eval:
  assumes "instance_store h = governor_store g" and "governed g"
  shows "role_grant r a h = with_store h (grant_next r a g)"
proof (cases "a \<in> holders g r")
  case True
  have "h\<lparr>instance_store := governor_store g\<rparr> = h" using assms(1) by (cases h) simp
  with True assms(1) show ?thesis
    by (auto simp: role_grant_def role_has_role_def tx_eval host_eval with_store_def grant_next_def
        hold_held)
next
  case False
  show ?thesis
  proof (cases "r = Admin")
    case True
    let ?n = "card (holders g Admin)"
    have n: "finite (holders g Admin)" "?n < 2 ^ 32" using assms(2) by (simp_all add: governed_def)
    have count: "uint (of_nat ?n :: u32) = int ?n" using n(2) by (rule uint_admin_count)
    have next': "of_nat ?n + (1 :: u32) = of_nat (card (insert a (holders g Admin)))"
      using False True n(1) by simp
    have "int ?n + 1 < 2 ^ 32 \<longleftrightarrow> ?n \<noteq> 2 ^ 32 - 1" using n(2) by auto
    then have add: "checked_add_u (of_nat ?n :: u32) 1 =
        (if ?n = 2 ^ 32 - 1 then None else Some (of_nat (card (insert a (holders g Admin)))))"
      by (simp add: checked_add_u_def count next')
    show ?thesis
      using False True assms(1) governor_store_hold_admin [OF refl, of g a]
      by (simp add: role_grant_def role_has_role_def role_admin_count_def tx_eval host_eval
          with_store_def grant_next_def add)
  next
    case other: False
    then show ?thesis
      using False assms(1) governor_store_hold_role [OF other, of g a]
      by (simp add: role_grant_def role_has_role_def tx_eval host_eval with_store_def grant_next_def)
  qed
qed

lemma role_revoke_eval:
  assumes "instance_store h = governor_store g" and "governed g"
  shows "role_revoke r a h = with_store h (revoke_next r a g)"
proof (cases "a \<in> holders g r")
  case False
  have "h\<lparr>instance_store := governor_store g\<rparr> = h" using assms(1) by (cases h) simp
  with False assms(1) show ?thesis
    by (auto simp: role_revoke_def role_has_role_def tx_eval host_eval with_store_def revoke_next_def
        drop_absent)
next
  case True
  show ?thesis
  proof (cases "r = Admin")
    case r: True
    let ?n = "card (holders g Admin)"
    have n: "finite (holders g Admin)" "?n < 2 ^ 32" using assms(2) by (simp_all add: governed_def)
    have count: "uint (of_nat ?n :: u32) = int ?n" using n(2) by (rule uint_admin_count)
    have pos: "0 < ?n" using True r n(1) by (auto simp: card_gt_0_iff)
    have "of_nat ?n \<le> (1 :: u32) \<longleftrightarrow> ?n = 1" using pos by (auto simp: word_le_def count)
    also have "\<dots> \<longleftrightarrow> holders g Admin = {a}" using True r by (auto simp: card_1_singleton_iff)
    finally have last: "of_nat ?n \<le> (1 :: u32) \<longleftrightarrow> holders g Admin = {a}" .
    have "card (holders g Admin - {a}) = ?n - 1" using True r n(1) by simp
    then have "of_nat ?n - (1 :: u32) = of_nat (card (holders g Admin - {a}))"
      using pos by (simp add: of_nat_diff)
    then have sub: "checked_sub_u (of_nat ?n :: u32) 1 = Some (of_nat (card (holders g Admin - {a})))"
      using pos by (simp add: checked_sub_u_def count)
    show ?thesis
      using True r assms(1) governor_store_drop_admin [OF refl, of g a]
      by (simp add: role_revoke_def role_has_role_def role_admin_count_def tx_eval host_eval
          with_store_def revoke_next_def last sub)
  next
    case other: False
    then show ?thesis
      using True assms(1) governor_store_drop_role [OF other, of g a]
      by (simp add: role_revoke_def role_has_role_def tx_eval host_eval with_store_def revoke_next_def)
  qed
qed

lemma grant_governed:
  assumes "grant_next r a g = Inr g'" and "governed g"
  shows "governed g'"
proof -
  have "card (insert a (holders g Admin)) < 2 ^ 32"
    if "a \<notin> holders g Admin" "card (holders g Admin) \<noteq> 2 ^ 32 - 1"
    using that assms(2) by (simp add: governed_def)
  with assms show ?thesis
    by (cases "a \<in> holders g Admin")
      (auto simp: grant_next_def hold_def governed_def insert_absorb split: if_splits)
qed

lemma revoke_governed:
  assumes "revoke_next r a g = Inr g'" and "governed g"
  shows "governed g'"
proof -
  have "card (holders g Admin - {a}) < 2 ^ 32"
    using assms(2) card_Diff1_le [of "holders g Admin" a] unfolding governed_def by linarith
  moreover have "holders g Admin - {a} \<noteq> {}" if "holders g Admin \<noteq> {a}"
    using that assms(2) by (auto simp: governed_def)
  ultimately show ?thesis
    using assms by (auto simp: revoke_next_def drop_role_def governed_def split: if_splits)
qed

lemma governor_next_governed:
  assumes "governor_next auth caller c g = Inr g'" and "governed g"
  shows "governed g'"
proof (cases c)
  case (GrantRole r a)
  with assms show ?thesis
    by (auto simp: governor_next_def intro: grant_governed split: if_splits)
next
  case (RevokeRole r a)
  with assms show ?thesis
    by (auto simp: governor_next_def intro: revoke_governed split: if_splits)
next
  case (TransferAuthority a)
  with assms show ?thesis
    by (auto simp: governor_next_def split: if_splits sum.splits
        intro: grant_governed revoke_governed)
qed (use assms in \<open>auto simp: governor_next_def governed_def not_less split: if_splits\<close>)

section \<open>The entry points implement it\<close>

lemma require_role_eval:
  assumes "instance_store h = governor_store g"
  shows "role_require_role env caller r h =
    (if \<not> has_authorized env caller then Inl (Trap AuthError)
     else if caller \<notin> holders g r then Inl (Err NotAuthorized)
     else Inr ((), h\<lparr>ttl_log := ttl_log h @ [(None, GOVERNOR_TTL_THRESHOLD, GOVERNOR_TTL_EXTEND_TO)]\<rparr>))"
  using assms
  by (simp add: role_require_role_def role_has_role_def governor_ttl_bump_def tx_eval host_eval)

lemma governor_store_upd:
  "(governor_store g)(FeeBps \<mapsto> VU32 b) = governor_store (g\<lparr>fee_bps := b\<rparr>)"
  "(governor_store g)(FeeRecipient \<mapsto> VAddress a) = governor_store (g\<lparr>fee_recipient := a\<rparr>)"
  "(governor_store g)(MinDurationSeconds \<mapsto> VU64 s) = governor_store (g\<lparr>min_duration_seconds := s\<rparr>)"
  "(governor_store g)(MaxRatePerSecond \<mapsto> VI128 x) = governor_store (g\<lparr>max_rate_per_second := x\<rparr>)"
  "(governor_store g)(MaxDurationSeconds \<mapsto> VU64 s) = governor_store (g\<lparr>max_duration_seconds := s\<rparr>)"
  by (rule ext, rename_tac k, case_tac k; simp)+

lemma with_store_simps [simp]:
  "with_store h (Inl e) = Inl e"
  "with_store h (Inr g) = Inr ((), h\<lparr>instance_store := governor_store g\<rparr>)"
  by (simp_all add: with_store_def)

lemma governor_exec_eval:
  assumes "instance_store h = governor_store g" and "governed g"
  shows "governor_exec env caller c h =
    (case governor_next (has_authorized env) caller c g of
       Inl e \<Rightarrow> Inl e
     | Inr g' \<Rightarrow> Inr ((), h\<lparr>instance_store := governor_store g',
         ttl_log := ttl_log h @ [(None, GOVERNOR_TTL_THRESHOLD, GOVERNOR_TTL_EXTEND_TO)]\<rparr>))"
proof -
  let ?h = "h\<lparr>ttl_log := ttl_log h @ [(None, GOVERNOR_TTL_THRESHOLD, GOVERNOR_TTL_EXTEND_TO)]\<rparr>"
  have store: "instance_store ?h = governor_store g" using assms(1) by simp
  note steps = require_role_eval [OF assms(1)] role_grant_eval [OF store assms(2)]
    role_revoke_eval [OF store assms(2)] governor_next_def tx_eval host_eval store
  show ?thesis
  proof (cases c)
    case (GrantRole r a)
    then show ?thesis
      by (simp add: governor_grant_role_def steps split: sum.splits)
  next
    case (RevokeRole r a)
    then show ?thesis
      by (simp add: governor_revoke_role_def steps split: sum.splits)
  next
    case (TransferAuthority a)
    have "role_revoke Admin caller (?h\<lparr>instance_store := governor_store g'\<rparr>) =
        with_store (?h\<lparr>instance_store := governor_store g'\<rparr>) (revoke_next Admin caller g')"
      if "grant_next Admin a g = Inr g'" for g'
      using that assms(2) by (intro role_revoke_eval) (auto intro: grant_governed)
    with TransferAuthority show ?thesis
      by (auto simp: governor_transfer_authority_def steps split: sum.splits)
  next
    case (SetFeeBps b)
    then show ?thesis using assms(1)
      by (simp add: governor_set_fee_bps_def steps governor_store_upd)
  next
    case (SetFeeRecipient a)
    then show ?thesis using assms(1)
      by (simp add: governor_set_fee_recipient_def steps governor_store_upd)
  next
    case (SetMinDuration s)
    then show ?thesis using assms(1)
      by (simp add: governor_set_min_duration_def steps governor_store_upd checked_mul_i128_def
          i128_of_def Let_def)
  next
    case (SetMaxRate r)
    then show ?thesis using assms(1)
      by (simp add: governor_set_max_rate_def steps governor_store_upd checked_mul_i128_def
          i128_of_def Let_def)
  next
    case (SetMaxDuration s)
    then show ?thesis using assms(1)
      by (simp add: governor_set_max_duration_def steps governor_store_upd)
  qed
qed

text \<open>Property C20. Each call of the governor computes exactly the abstract transition, on every
  branch: the same error or trap (missing authorization, missing role, invalid parameter, last
  admin, a full admin count), or the new configuration and holders stored under their keys, the
  admin counter equal to the number of admins, and one extension of the time to live.\<close>

theorem governor_exec_refines:
  assumes "instance_store h = governor_store g" and "governed g"
  shows "governor_exec env caller c h =
    (case governor_next (has_authorized env) caller c g of
       Inl e \<Rightarrow> Inl e
     | Inr g' \<Rightarrow> Inr ((), h\<lparr>instance_store := governor_store g',
         ttl_log := ttl_log h @ [(None, GOVERNOR_TTL_THRESHOLD, GOVERNOR_TTL_EXTEND_TO)]\<rparr>))"
  using assms by (rule governor_exec_eval)

end
