(* ===== verification/Governor_Machine.thy ===== *)
theory Governor_Machine
  imports Governor_Spec
begin

text \<open>
  The governor from its initialization on: what holds in every reachable state, who can change
  what, and how the admin role changes hands.
\<close>

section \<open>Initialization\<close>

definition initial_governor :: "address \<Rightarrow> address \<Rightarrow> address \<Rightarrow> governor_state" where
  "initial_governor authority recip factory =
     \<lparr>fee_bps = 30, fee_recipient = recip, min_duration_seconds = 3600,
      max_duration_seconds = 315360000, max_rate_per_second = 1000000000000000,
      factory_address = factory, holders = (\<lambda>_. {authority})\<rparr>"

lemma initial_governed: "governed (initial_governor authority recip factory)"
  by (simp add: governed_def initial_governor_def i128_fits_def)

lemma initial_store:
  "[FeeBps \<mapsto> VU32 30, FeeRecipient \<mapsto> VAddress recip, MinDurationSeconds \<mapsto> VU64 3600,
    MaxDurationSeconds \<mapsto> VU64 315360000, MaxRatePerSecond \<mapsto> VI128 1000000000000000,
    FactoryAddress \<mapsto> VAddress factory, role_storage_key Admin authority \<mapsto> VBool True,
    AdminCount \<mapsto> VU32 1, role_storage_key FeeManager authority \<mapsto> VBool True,
    role_storage_key RateManager authority \<mapsto> VBool True] =
   governor_store (initial_governor authority recip factory)"
proof
  fix k
  show "[FeeBps \<mapsto> VU32 30, FeeRecipient \<mapsto> VAddress recip, MinDurationSeconds \<mapsto> VU64 3600,
    MaxDurationSeconds \<mapsto> VU64 315360000, MaxRatePerSecond \<mapsto> VI128 1000000000000000,
    FactoryAddress \<mapsto> VAddress factory, role_storage_key Admin authority \<mapsto> VBool True,
    AdminCount \<mapsto> VU32 1, role_storage_key FeeManager authority \<mapsto> VBool True,
    role_storage_key RateManager authority \<mapsto> VBool True] k =
   governor_store (initial_governor authority recip factory) k"
  proof (cases k)
    case (Role rk)
    then show ?thesis
      by (cases rk; cases "key_role rk") (auto simp: initial_governor_def role_storage_key_def)
  qed (simp_all add: initial_governor_def role_storage_key_def)
qed

text \<open>Initialization happens once: on a governor that has stored its factory address it
  fails with \<open>AlreadyInitialized\<close>, whoever calls; on a fresh one it succeeds, stores the documented
  defaults and makes the authority the only holder of each of the three roles.\<close>

lemma governor_initialize_eval:
  "(instance_store h FactoryAddress \<noteq> None \<longrightarrow>
      governor_initialize authority recip factory h = Inl (Err AlreadyInitialized)) \<and>
   (instance_store h = Map.empty \<longrightarrow>
      governor_initialize authority recip factory h =
        Inr ((), h\<lparr>instance_store := governor_store (initial_governor authority recip factory),
          ttl_log := ttl_log h @ [(None, GOVERNOR_TTL_THRESHOLD, GOVERNOR_TTL_EXTEND_TO)]\<rparr>))"
  by (auto simp: governor_initialize_def governor_ttl_bump_def role_grant_def role_has_role_def
      role_admin_count_def tx_eval host_eval checked_add_u_def role_storage_key_def
      initial_store [unfolded role_storage_key_def])

section \<open>Reachable governors\<close>

inductive governor_init :: "'w governor_host \<Rightarrow> bool" where
  governor_initI:
    "\<lbrakk> instance_store h0 = Map.empty;
       governor_initialize authority recip factory h0 = Inr ((), h) \<rbrakk> \<Longrightarrow> governor_init h"

inductive governor_move :: "'w governor_host \<Rightarrow> 'w governor_host \<Rightarrow> bool" where
  governor_moveI:
    "governor_exec (env :: 'w env) caller c h = Inr ((), h') \<Longrightarrow> governor_move h h'"

definition governor_inv :: "'w governor_host \<Rightarrow> bool" where
  "governor_inv h \<longleftrightarrow> (\<exists>g. instance_store h = governor_store g \<and> governed g)"

lemma governor_exec_next:
  assumes "governor_exec env caller c h = Inr ((), h')" and "instance_store h = governor_store g"
    and "governed g"
  obtains g' where "governor_next (has_authorized env) caller c g = Inr g'" and "governed g'"
    and "instance_store h' = governor_store g'"
proof -
  obtain g' where g': "governor_next (has_authorized env) caller c g = Inr g'"
    and h': "h' = h\<lparr>instance_store := governor_store g',
         ttl_log := ttl_log h @ [(None, GOVERNOR_TTL_THRESHOLD, GOVERNOR_TTL_EXTEND_TO)]\<rparr>"
    using assms(1) governor_exec_eval [OF assms(2,3), of env caller c] by (auto split: sum.splits)
  show ?thesis using g' governor_next_governed [OF g' assms(3)] by (rule that) (simp add: h')
qed

lemma governor_init_inv: "governor_init h \<Longrightarrow> governor_inv h"
proof (induction rule: governor_init.induct)
  case (governor_initI h0 authority recip factory h)
  then have "instance_store h = governor_store (initial_governor authority recip factory)"
    using governor_initialize_eval [of h0 authority recip factory] by auto
  then show ?case using initial_governed by (auto simp: governor_inv_def)
qed

lemma governor_move_inv: "governor_move h h' \<Longrightarrow> governor_inv h \<Longrightarrow> governor_inv h'"
  by (induction rule: governor_move.induct) (auto simp: governor_inv_def elim: governor_exec_next)

interpretation governor_machine: invariant governor_init governor_move governor_inv
  by unfold_locales (auto intro: governor_init_inv governor_move_inv)

text \<open>The configuration that a governor in use answers with.\<close>

definition config_of :: "governor_state \<Rightarrow> governor_config" where
  "config_of g = governor_config.truncate g"

lemma config_load_store:
  "instance_store h = governor_store g \<Longrightarrow> governor_get_config h = Inr (config_of g, h)"
  by (simp add: governor_get_config_def config_load_def tx_eval host_eval config_of_def
      governor_config.truncate_def)

text \<open>Property C21. In every reachable governor there is at least one admin, the stored admin counter
  is the number of accounts that hold the admin role, \<open>config\<close> answers (it never reports
  \<open>NotInitialized\<close>) with a fee of at most 100 percent, positive duration bounds and a positive rate
  bound, and the rate bound times the least duration fits in 128 bits.\<close>

theorem reachable_governors_are_sound:
  assumes "reaches governor_init governor_move h"
  shows "\<exists>c A n. governor_get_config h = Inr (c, h) \<and> A \<noteq> {} \<and> finite A \<and>
    (\<forall>a. governor_has_role Admin a h = Inr (a \<in> A, h)) \<and>
    instance_store h AdminCount = Some (VU32 n) \<and> uint n = int (card A) \<and>
    uint (fee_bps c) \<le> 10000 \<and> 0 < uint (min_duration_seconds c) \<and>
    0 < uint (max_duration_seconds c) \<and> 0 < sint (max_rate_per_second c) \<and>
    sint (max_rate_per_second c) * uint (min_duration_seconds c) < 2 ^ 127"
proof -
  have "governor_inv h" using assms by (rule governor_machine.inv_reaches)
  then obtain g where g: "instance_store h = governor_store g" "governed g"
    by (auto simp: governor_inv_def)
  then have "governor_has_role Admin a h = Inr (a \<in> holders g Admin, h)" for a
    by (simp add: governor_has_role_def role_has_role_def tx_eval host_eval)
  moreover have "0 < uint (min_duration_seconds g)" "0 < uint (max_duration_seconds g)"
    using g(2) by (simp_all add: governed_def uint_pos_iff)
  ultimately show ?thesis
    using g config_load_store [OF g(1)]
    by (intro exI [of _ "config_of g"] exI [of _ "holders g Admin"]
        exI [of _ "of_nat (card (holders g Admin))"])
      (auto simp: governed_def config_of_def governor_config.truncate_def uint_admin_count
        word_le_def i128_fits_def unsigned_eq_0_iff)
qed

section \<open>Who can change what\<close>

text \<open>Property C28. Separation of powers: a call that succeeds was authorized by a caller who held
  the role the call needs; the role holders change only at the hands of an admin, the fee and its
  recipient only of a fee manager, the duration and rate bounds only of a rate manager, and the
  factory address never.\<close>

theorem governor_powers_are_separate:
  assumes "instance_store h = governor_store g" and "governed g"
    and "governor_exec env caller c h = Inr ((), h')"
  shows "\<exists>g'. instance_store h' = governor_store g' \<and>
    has_authorized env caller \<and> caller \<in> holders g (role_needed c) \<and>
    (holders g' \<noteq> holders g \<longrightarrow> caller \<in> holders g Admin) \<and>
    ((fee_bps g', fee_recipient g') \<noteq> (fee_bps g, fee_recipient g) \<longrightarrow>
       caller \<in> holders g FeeManager) \<and>
    ((min_duration_seconds g', max_duration_seconds g', max_rate_per_second g') \<noteq>
       (min_duration_seconds g, max_duration_seconds g, max_rate_per_second g) \<longrightarrow>
       caller \<in> holders g RateManager) \<and>
    factory_address g' = factory_address g"
proof -
  obtain g' where g': "governor_next (has_authorized env) caller c g = Inr g'"
    and h': "instance_store h' = governor_store g'"
    using governor_exec_next [OF assms(3,1,2)] by blast
  have frame: "grant_next r a x = Inr y \<Longrightarrow> config_of y = config_of x"
    "revoke_next r a x = Inr y \<Longrightarrow> config_of y = config_of x" for r a x y
    by (auto simp: grant_next_def hold_def revoke_next_def drop_role_def config_of_def
        governor_config.truncate_def split: if_splits)
  show ?thesis
  proof (intro exI [of _ g'] conjI h')
    show "has_authorized env caller" "caller \<in> holders g (role_needed c)"
      using g' by (auto simp: governor_next_def split: if_splits)
    show "holders g' \<noteq> holders g \<longrightarrow> caller \<in> holders g Admin"
      using g' by (cases c) (auto simp: governor_next_def split: if_splits)
    show "(fee_bps g', fee_recipient g') \<noteq> (fee_bps g, fee_recipient g) \<longrightarrow>
        caller \<in> holders g FeeManager"
      using g' by (cases c) (auto simp: governor_next_def config_of_def governor_config.truncate_def
          split: if_splits sum.splits dest!: frame)
    show "(min_duration_seconds g', max_duration_seconds g', max_rate_per_second g') \<noteq>
        (min_duration_seconds g, max_duration_seconds g, max_rate_per_second g) \<longrightarrow>
        caller \<in> holders g RateManager"
      using g' by (cases c) (auto simp: governor_next_def config_of_def governor_config.truncate_def
          split: if_splits sum.splits dest!: frame)
    show "factory_address g' = factory_address g"
      using g' by (cases c) (auto simp: governor_next_def config_of_def governor_config.truncate_def
          split: if_splits sum.splits dest!: frame)
  qed
qed

section \<open>Handing over\<close>

text \<open>Property C29. \<open>transfer_authority\<close> by an admin moves the admin role: afterwards the admins are
  the old ones with the new authority and without the caller. Handing over to oneself is the
  exception: the only admin gets \<open>LastAdmin\<close>, and one of several admins loses the role.\<close>

theorem transfer_authority_outcome:
  assumes "instance_store h = governor_store g" and "governed g"
    and "has_authorized env caller" and "caller \<in> holders g Admin"
    and "card (holders g Admin) < 2 ^ 32 - 1"
  shows "(holders g Admin = {caller} \<and> a = caller \<longrightarrow>
      governor_transfer_authority env caller a h = Inl (Err LastAdmin)) \<and>
    (\<not> (holders g Admin = {caller} \<and> a = caller) \<longrightarrow>
      (\<exists>g' h'. governor_transfer_authority env caller a h = Inr ((), h') \<and>
         instance_store h' = governor_store g' \<and>
         holders g' Admin = insert a (holders g Admin) - {caller} \<and>
         (\<forall>r. r \<noteq> Admin \<longrightarrow> holders g' r = holders g r)))"
proof -
  have exec: "governor_transfer_authority env caller a h =
    (case revoke_next Admin caller (hold Admin a g) of
       Inl e \<Rightarrow> Inl e
     | Inr g' \<Rightarrow> Inr ((), h\<lparr>instance_store := governor_store g',
         ttl_log := ttl_log h @ [(None, GOVERNOR_TTL_THRESHOLD, GOVERNOR_TTL_EXTEND_TO)]\<rparr>))"
    using governor_exec_eval [OF assms(1,2), of env caller "TransferAuthority a"] assms(3-5)
    by (simp add: governor_next_def grant_next_def)
  have "insert a (holders g Admin) = {caller} \<longleftrightarrow> holders g Admin = {caller} \<and> a = caller"
    using assms(4) by auto
  with exec show ?thesis
    by (auto simp: revoke_next_def hold_def drop_role_def)
qed

text \<open>The duration bounds are not checked against each other: a rate manager can put
  the least duration above the greatest, as long as the product with the rate bound fits.\<close>

theorem duration_bounds_can_cross:
  assumes "instance_store h = governor_store g" and "governed g"
    and "has_authorized env caller" and "caller \<in> holders g RateManager"
    and "max_duration_seconds g < s" and "i128_fits (sint (max_rate_per_second g) * uint s)"
  shows "\<exists>c h'. governor_set_min_duration env caller s h = Inr ((), h') \<and>
    governor_get_config h' = Inr (c, h') \<and>
    max_duration_seconds c < min_duration_seconds c"
proof -
  have "s \<noteq> 0" using assms(5) by auto
  then obtain h' where "governor_set_min_duration env caller s h = Inr ((), h')"
    and "instance_store h' = governor_store (g\<lparr>min_duration_seconds := s\<rparr>)"
    using governor_exec_eval [OF assms(1,2), of env caller "SetMinDuration s"] assms(3-6)
    by (simp add: governor_next_def)
  with config_load_store [OF this(2)] assms(5) show ?thesis
    by (auto simp: config_of_def governor_config.truncate_def)
qed

end
