(* ===== verification/Bytes.thy ===== *)
theory Bytes
  imports Prelude
begin

text \<open>
  Rust's \<open>to_be_bytes\<close> on machine integers: the bytes of a word, most significant first, their
  number, and that they determine the word.
\<close>

definition be_bytes :: "nat \<Rightarrow> 'n::len word \<Rightarrow> u8 list" where
  "be_bytes n x = map (\<lambda>k. ucast (drop_bit (8 * k) x)) (rev [0 ..< n])"

definition u64_to_be_bytes :: "u64 \<Rightarrow> u8 list" where
  "u64_to_be_bytes = be_bytes 8"

definition i128_to_be_bytes :: "i128 \<Rightarrow> u8 list" where
  "i128_to_be_bytes = be_bytes 16"

lemma length_be_bytes [simp]: "length (be_bytes n x) = n"
  by (simp add: be_bytes_def)

lemma length_to_be_bytes [simp]:
  "length (u64_to_be_bytes t) = 8" "length (i128_to_be_bytes a) = 16"
  by (simp_all add: u64_to_be_bytes_def i128_to_be_bytes_def)

lemma be_bytes_inject:
  assumes "be_bytes n x = be_bytes n y" and "LENGTH('n::len) = 8 * n"
  shows "x = (y :: 'n word)"
proof (rule bit_word_eqI)
  fix i assume i: "i < LENGTH('n)"
  let ?k = "i div 8"
  have "?k < n" using i assms(2) by (simp add: less_mult_imp_div_less mult.commute)
  then have "ucast (drop_bit (8 * ?k) x) = (ucast (drop_bit (8 * ?k) y) :: u8)"
    using assms(1) by (auto simp: be_bytes_def)
  then have "bit (ucast (drop_bit (8 * ?k) x) :: u8) (i mod 8) =
      bit (ucast (drop_bit (8 * ?k) y) :: u8) (i mod 8)"
    by (rule arg_cong)
  then show "bit x i = bit y i"
    by (simp add: bit_unsigned_iff bit_drop_bit_eq)
qed

lemma u64_to_be_bytes_inject: "u64_to_be_bytes t = u64_to_be_bytes t' \<Longrightarrow> t = t'"
  by (rule be_bytes_inject [of 8]) (simp_all add: u64_to_be_bytes_def)

lemma i128_to_be_bytes_inject: "i128_to_be_bytes a = i128_to_be_bytes b \<Longrightarrow> a = b"
  by (rule be_bytes_inject [of 16]) (simp_all add: i128_to_be_bytes_def)

end
