(* ===== verification/Factory_Types.thy ===== *)
theory Factory_Types
  imports Stream_Machine Governor_Machine Bytes
begin

text \<open>
  The data of \<open>DripFactory\<close> (\<open>contracts/factory/src\<close>: \<open>errors.rs\<close>, \<open>storage.rs\<close>,
  \<open>events.rs\<close>) and the ledger it acts on: the token balances, the governor contracts and the
  stream contracts it deploys.
\<close>

section \<open>Errors\<close>

datatype factory_error =
    NotInitialized
  | InvalidDeposit
  | InvalidRate
  | InvalidTimeRange
  | InsufficientDeposit
  | BackdatedStream
  | AlreadyInitialized
  | RateExceedsMax
  | DurationTooShort
  | ArithmeticOverflow
  | ContractPaused
  | AlreadyPaused
  | NotPaused
  | DurationExceedsMax
  | GovernorNotResponding
  | EmptyBatch
  | BatchTooLarge
  | InvalidSignature
  | NonceAlreadyUsed
  | NetworkMismatch
  | SignatureExpired

fun factory_error_code :: "factory_error \<Rightarrow> nat" where
  "factory_error_code NotInitialized = 1"
| "factory_error_code InvalidDeposit = 2"
| "factory_error_code InvalidRate = 3"
| "factory_error_code InvalidTimeRange = 4"
| "factory_error_code InsufficientDeposit = 5"
| "factory_error_code BackdatedStream = 6"
| "factory_error_code AlreadyInitialized = 7"
| "factory_error_code RateExceedsMax = 8"
| "factory_error_code DurationTooShort = 9"
| "factory_error_code ArithmeticOverflow = 10"
| "factory_error_code ContractPaused = 11"
| "factory_error_code AlreadyPaused = 12"
| "factory_error_code NotPaused = 13"
| "factory_error_code DurationExceedsMax = 14"
| "factory_error_code GovernorNotResponding = 15"
| "factory_error_code EmptyBatch = 16"
| "factory_error_code BatchTooLarge = 17"
| "factory_error_code InvalidSignature = 18"
| "factory_error_code NonceAlreadyUsed = 19"
| "factory_error_code NetworkMismatch = 20"
| "factory_error_code SignatureExpired = 21"

section \<open>Storage and events\<close>

datatype factory_key =
    StreamCount
  | StreamAddr u64
  | BySender address
  | ByRecipient address
  | StreamWasmHash
  | GovernorAddress
  | Paused
  | LastBumpedId
  | SignatureNonce address

record batch_stream_request =
  request_recipient :: address
  request_token :: address
  request_deposit :: i128
  request_rate_per_sec :: i128
  request_start_time :: u64
  request_end_time :: u64

datatype factory_event =
    FactoryPaused address u64
  | FactoryUnpaused address u64

section \<open>The ledger\<close>

text \<open>
  The token balances are the state of the token contracts. The governor and stream contracts keep
  a storage each, and share the balances.
\<close>

record 'w ledger =
  tokens :: 'w
  governor_at :: "address \<Rightarrow> unit governor_host option"
  stream_at :: "address \<Rightarrow> unit stream_host option"

text \<open>
  \<open>sha256\<close> and \<open>contract_id\<close> (the address of a contract deployed by a given one with a given
  salt) are the host's; \<open>wasm_initialize\<close> is the \<open>initialize\<close> of the code that a hash names,
  on a fresh instance.
\<close>

record 'w factory_env = "'w env" +
  sha256 :: "u8 list \<Rightarrow> u8 list"
  contract_id :: "address \<Rightarrow> u8 list \<Rightarrow> address"
  wasm_initialize :: "u8 list \<Rightarrow> address \<Rightarrow> address \<Rightarrow> address \<Rightarrow> i128 \<Rightarrow> u64 \<Rightarrow> u64 \<Rightarrow> bool \<Rightarrow>
    (unit, unit) stream_tx"

text \<open>A factory stores vectors of stream ids beside the plain values.\<close>

type_synonym 'w factory_host = "(factory_key, u64 list stored, factory_event, 'w ledger) host"

type_synonym ('w, 'a) factory_tx = "('w factory_host, factory_error, 'a) tx"

text \<open>The storage of a contract that has just been deployed.\<close>

definition fresh_host :: "('k, 'v, 'e, unit) host" where
  "fresh_host = \<lparr>instance_store = Map.empty, persistent_store = Map.empty, ttl_log = [],
     event_log = [], world = ()\<rparr>"

text \<open>\<open>wasm_is_stream env hash\<close>: the hash names the code of \<open>contracts/stream\<close>.\<close>

definition wasm_is_stream :: "('w, 'n) factory_env_scheme \<Rightarrow> u8 list \<Rightarrow> bool" where
  "wasm_is_stream env hash \<longleftrightarrow> wasm_initialize env hash = stream_initialize"

section \<open>Token transfers on the ledger\<close>

definition ledger_transfer_tokens ::
  "('w, 'n) env_scheme \<Rightarrow> address \<Rightarrow> address \<Rightarrow> address \<Rightarrow> i128 \<Rightarrow> ('w, unit) factory_tx" where
  "ledger_transfer_tokens env tk src dst amount =
     (\<lambda>h. case token_transfer (token_client env) (tokens (world h)) tk src dst amount of
            None \<Rightarrow> Inl (Trap TokenFailure)
          | Some w \<Rightarrow> Inr ((), h\<lparr>world := (world h)\<lparr>tokens := w\<rparr>\<rparr>))"

lemma ledger_transfer_tokens_Inr_iff [tx_simps]:
  "ledger_transfer_tokens env tk src dst amount h = Inr r \<longleftrightarrow>
     (\<exists>w. token_transfer (token_client env) (tokens (world h)) tk src dst amount = Some w \<and>
          r = ((), h\<lparr>world := (world h)\<lparr>tokens := w\<rparr>\<rparr>))"
  by (auto simp: ledger_transfer_tokens_def split: option.splits)

lemma ledger_transfer_tokens_Inl_iff [tx_fails]:
  "ledger_transfer_tokens env tk src dst amount h = Inl e \<longleftrightarrow>
     token_transfer (token_client env) (tokens (world h)) tk src dst amount = None \<and>
     e = Trap TokenFailure"
  by (auto simp: ledger_transfer_tokens_def split: option.splits)

end
