(* ===== verification/Factory_Contract.thy ===== *)
theory Factory_Contract
  imports Factory_Types
begin

text \<open>
  The operations of \<open>DripFactory\<close>: \<open>ttl.rs\<close>, \<open>query.rs\<close>, \<open>pause.rs\<close>, \<open>governance.rs\<close>,
  \<open>deploy.rs\<close> and the entry points of \<open>lib.rs\<close>, in the order of the source.
\<close>

section \<open>Time to live\<close>

definition THRESHOLD :: u32 where
  "THRESHOLD = 100000"

definition EXTEND_TO :: u32 where
  "EXTEND_TO = 200000"

definition BATCH_LIMIT :: u32 where
  "BATCH_LIMIT = 8"

definition bump_instance :: "('w, unit) factory_tx" where
  "bump_instance = instance_extend_ttl THRESHOLD EXTEND_TO"

definition bump_persistent :: "factory_key \<Rightarrow> ('w, unit) factory_tx" where
  "bump_persistent key = persistent_extend_ttl key THRESHOLD EXTEND_TO"

definition u32_into_u64_saturating :: "u32 \<Rightarrow> u64" where
  "u32_into_u64_saturating v = ucast v"

text \<open>The loop of the walker over the offsets that remain, with \<open>new_last\<close> and \<open>touched\<close>.\<close>

fun bump_walk ::
  "u64 \<Rightarrow> u64 \<Rightarrow> nat list \<Rightarrow> u64 \<Rightarrow> u32 \<Rightarrow> ('w, u64 \<times> u32) factory_tx" where
  "bump_walk count cursor [] new_last touched = return (new_last, touched)"
| "bump_walk count cursor (i # is) new_last touched =
     (let nxt = saturating_add_u (saturating_add_u cursor 1) (u32_into_u64_saturating (of_nat i));
          id = nxt mod count;
          key = StreamAddr id in
      bind (persistent_has key) (\<lambda>live.
      bind (if live then
              bind (persistent_extend_ttl key THRESHOLD EXTEND_TO) (\<lambda>_.
              expect (checked_add_u touched 1) ArithmeticPanic)
            else return touched) (\<lambda>t.
      bump_walk count cursor is id t)))"

definition bump_persistent_bucket :: "('w, u32) factory_tx" where
  "bump_persistent_bucket =
     bind (instance_get as_u64 StreamCount) (\<lambda>c.
     let count = unwrap_or c 0 in
     if count = 0 then return 0
     else
       bind (instance_get as_u64 LastBumpedId) (\<lambda>x.
       let cursor = unwrap_or x 0 in
       bind (bump_walk count cursor [0 ..< unat BATCH_LIMIT] cursor 0) (\<lambda>(new_last, touched).
       bind (instance_set LastBumpedId (VU64 new_last)) (\<lambda>_.
       return touched))))"

section \<open>Pagination\<close>

text \<open>\<open>usize\<close> is 32 bits wide on the contract's target.\<close>

definition paginate :: "u64 list \<Rightarrow> u32 \<Rightarrow> u32 \<Rightarrow> u64 list" where
  "paginate v offset limit =
     (let start = unat offset; stop = unat (saturating_add_u offset limit) in
      map (\<lambda>i. v ! i) [start ..< min stop (length v)])"

section \<open>The pause flag\<close>

definition pause_is_paused :: "('w, bool) factory_tx" where
  "pause_is_paused = bind (instance_get as_bool Paused) (\<lambda>x. return (unwrap_or x False))"

definition pause_set_paused :: "bool \<Rightarrow> ('w, unit) factory_tx" where
  "pause_set_paused b = instance_set Paused (VBool b)"

section \<open>The governor's bounds\<close>

text \<open>
  \<open>try_config\<close> on the governor's contract: a missing contract, a host error and an error of the
  governor all read \<open>GovernorNotResponding\<close>. Reading the configuration changes nothing.
\<close>

definition governance_config :: "'w ledger \<Rightarrow> address \<Rightarrow> factory_error + governor_config" where
  "governance_config l governor =
     (case governor_at l governor of
        None \<Rightarrow> Inl GovernorNotResponding
      | Some gh \<Rightarrow>
          (case governor_get_config gh of
             Inl _ \<Rightarrow> Inl GovernorNotResponding
           | Inr (c, _) \<Rightarrow> Inr c))"

definition enforce_bounds ::
  "governor_config \<Rightarrow> i128 \<Rightarrow> u64 \<Rightarrow> u64 \<Rightarrow> ('w, unit) factory_tx" where
  "enforce_bounds c rate t0 t1 =
     bind (ensure (\<not> sint (max_rate_per_second c) < sint rate) RateExceedsMax) (\<lambda>_.
     if 0 < t1 then
       bind (expect (checked_sub_u t1 t0) ArithmeticPanic) (\<lambda>dur.
       bind (ensure (\<not> dur < min_duration_seconds c) DurationTooShort) (\<lambda>_.
       ensure (\<not> max_duration_seconds c < dur) DurationExceedsMax))
     else return ())"

section \<open>Deployment\<close>

definition deploy_contract :: "address \<Rightarrow> ('w, unit) factory_tx" where
  "deploy_contract addr =
     (\<lambda>h. if stream_at (world h) addr = None \<and> governor_at (world h) addr = None
          then Inr ((), h\<lparr>world := (world h)\<lparr>stream_at := (stream_at (world h))(addr \<mapsto> fresh_host)\<rparr>\<rparr>)
          else Inl (Trap DeployFailure))"

definition invoke_stream :: "address \<Rightarrow> (unit, unit) stream_tx \<Rightarrow> ('w, unit) factory_tx" where
  "invoke_stream addr m =
     (\<lambda>h. case stream_at (world h) addr of
            None \<Rightarrow> Inl (Trap CallFailure)
          | Some sh \<Rightarrow>
              (case m sh of
                 Inl _ \<Rightarrow> Inl (Trap CallFailure)
               | Inr (_, sh') \<Rightarrow>
                   Inr ((), h\<lparr>world := (world h)\<lparr>stream_at := (stream_at (world h))(addr \<mapsto> sh')\<rparr>\<rparr>)))"

definition deploy_stream ::
  "('w, 'n) factory_env_scheme \<Rightarrow> u8 list \<Rightarrow> u64 \<Rightarrow> (unit, unit) stream_tx \<Rightarrow> ('w, address) factory_tx" where
  "deploy_stream env wasm_hash stream_id initialize =
     (let salt = sha256 env (u64_to_be_bytes stream_id);
          addr = contract_id env (current_contract_address env) salt in
      bind (deploy_contract addr) (\<lambda>_.
      bind (invoke_stream addr initialize) (\<lambda>_.
      return addr)))"

section \<open>Entry points\<close>

definition MAX_BATCH_SIZE :: u32 where
  "MAX_BATCH_SIZE = 100"

definition factory_initialize :: "u8 list \<Rightarrow> address \<Rightarrow> ('w, unit) factory_tx" where
  "factory_initialize wasm_hash governor =
     bind (instance_has StreamCount) (\<lambda>initialized.
     bind (ensure (\<not> initialized) AlreadyInitialized) (\<lambda>_.
     bind bump_instance (\<lambda>_.
     bind (instance_set StreamWasmHash (VBytes wasm_hash)) (\<lambda>_.
     bind (instance_set GovernorAddress (VAddress governor)) (\<lambda>_.
     instance_set StreamCount (VU64 0))))))"

text \<open>The validation of \<open>create_stream\<close>, up to the point where it touches any state.\<close>

definition check_stream_terms ::
  "('w, 'n) env_scheme \<Rightarrow> i128 \<Rightarrow> i128 \<Rightarrow> u64 \<Rightarrow> u64 \<Rightarrow> ('w, unit) factory_tx" where
  "check_stream_terms env deposit rate t0 t1 =
     bind (ensure (\<not> sint deposit \<le> 0) InvalidDeposit) (\<lambda>_.
     bind (ensure (\<not> sint rate \<le> 0) InvalidRate) (\<lambda>_.
     bind (ensure (\<not> sint deposit < sint rate) InsufficientDeposit) (\<lambda>_.
     bind (ensure (\<not> (0 < t1 \<and> t1 \<le> t0)) InvalidTimeRange) (\<lambda>_.
     bind (ensure (\<not> t0 < ledger_timestamp env) BackdatedStream) (\<lambda>_.
     if 0 < t1 then
       bind (expect (checked_sub_u t1 t0) ArithmeticPanic) (\<lambda>dur.
       bind (ok_or (checked_mul_i128 rate (u64_as_i128 dur)) ArithmeticOverflow) (\<lambda>required.
       ensure (\<not> sint deposit < sint required) InsufficientDeposit))
     else return ())))))"

text \<open>Appending an id to one of the two indices of \<open>create_stream\<close>.\<close>

definition index_stream :: "factory_key \<Rightarrow> u64 \<Rightarrow> ('w, unit) factory_tx" where
  "index_stream key stream_id =
     bind (persistent_get as_struct key) (\<lambda>ids.
     bind (persistent_set key (VStruct (unwrap_or ids [] @ [stream_id]))) (\<lambda>_.
     persistent_extend_ttl key THRESHOLD EXTEND_TO))"

definition factory_create_stream ::
  "('w, 'n) factory_env_scheme \<Rightarrow> address \<Rightarrow> address \<Rightarrow> address \<Rightarrow> i128 \<Rightarrow> i128 \<Rightarrow> u64 \<Rightarrow> u64 \<Rightarrow> bool \<Rightarrow>
     ('w, u64) factory_tx" where
  "factory_create_stream env sndr rcp tok deposit rate t0 t1 clawback =
     bind (require_auth env sndr) (\<lambda>_.
     bind pause_is_paused (\<lambda>paused.
     bind (ensure (\<not> paused) ContractPaused) (\<lambda>_.
     bind (check_stream_terms env deposit rate t0 t1) (\<lambda>_.
     bind (instance_get as_address GovernorAddress) (\<lambda>g.
     bind (ok_or g NotInitialized) (\<lambda>governor.
     bind (gets (\<lambda>h. governance_config (world h) governor)) (\<lambda>res.
     bind (lift_result res) (\<lambda>c.
     bind (enforce_bounds c rate t0 t1) (\<lambda>_.
     bind bump_instance (\<lambda>_.
     bind (ledger_transfer_tokens env tok sndr (current_contract_address env) deposit) (\<lambda>_.
     bind (instance_get as_u64 StreamCount) (\<lambda>n.
     let stream_count = unwrap_or n 0; stream_id = stream_count in
     bind (instance_get as_bytes StreamWasmHash) (\<lambda>wh.
     bind (ok_or wh NotInitialized) (\<lambda>wasm_hash.
     bind (deploy_stream env wasm_hash stream_id
             (wasm_initialize env wasm_hash sndr rcp tok rate t0 t1 clawback)) (\<lambda>stream_addr.
     bind (ledger_transfer_tokens env tok (current_contract_address env) stream_addr deposit) (\<lambda>_.
     bind (persistent_set (StreamAddr stream_id) (VAddress stream_addr)) (\<lambda>_.
     bind (persistent_extend_ttl (StreamAddr stream_id) THRESHOLD EXTEND_TO) (\<lambda>_.
     bind (expect (checked_add_u stream_count 1) ArithmeticPanic) (\<lambda>nxt.
     bind (instance_set StreamCount (VU64 nxt)) (\<lambda>_.
     bind (index_stream (BySender sndr) stream_id) (\<lambda>_.
     bind (index_stream (ByRecipient rcp) stream_id) (\<lambda>_.
     return stream_id))))))))))))))))))))))"

fun create_each ::
  "('w, 'n) factory_env_scheme \<Rightarrow> address \<Rightarrow> bool \<Rightarrow> batch_stream_request list \<Rightarrow> u64 list \<Rightarrow>
     ('w, u64 list) factory_tx" where
  "create_each env sndr clawback [] ids = return ids"
| "create_each env sndr clawback (r # rs) ids =
     bind (factory_create_stream env sndr (request_recipient r) (request_token r)
        (request_deposit r) (request_rate_per_sec r) (request_start_time r) (request_end_time r)
        clawback) (\<lambda>stream_id.
     create_each env sndr clawback rs (ids @ [stream_id]))"

definition factory_create_batch_streams ::
  "('w, 'n) factory_env_scheme \<Rightarrow> address \<Rightarrow> batch_stream_request list \<Rightarrow> bool \<Rightarrow>
     ('w, u64 list) factory_tx" where
  "factory_create_batch_streams env sndr requests clawback =
     bind (ensure (\<not> requests = []) EmptyBatch) (\<lambda>_.
     bind (ensure (\<not> unat MAX_BATCH_SIZE < length requests) BatchTooLarge) (\<lambda>_.
     create_each env sndr clawback requests []))"

definition factory_stream_address :: "u64 \<Rightarrow> ('w, address option) factory_tx" where
  "factory_stream_address stream_id = persistent_get as_address (StreamAddr stream_id)"

definition factory_streams_by_sender :: "address \<Rightarrow> u32 \<Rightarrow> u32 \<Rightarrow> ('w, u64 list) factory_tx" where
  "factory_streams_by_sender sndr offset limit =
     bind (persistent_get as_struct (BySender sndr)) (\<lambda>x.
     return (paginate (unwrap_or x []) offset limit))"

definition factory_streams_by_recipient :: "address \<Rightarrow> u32 \<Rightarrow> u32 \<Rightarrow> ('w, u64 list) factory_tx" where
  "factory_streams_by_recipient rcp offset limit =
     bind (persistent_get as_struct (ByRecipient rcp)) (\<lambda>x.
     return (paginate (unwrap_or x []) offset limit))"

definition factory_stream_count :: "('w, u64) factory_tx" where
  "factory_stream_count = bind (instance_get as_u64 StreamCount) (\<lambda>x. return (unwrap_or x 0))"

definition factory_protocol_fee_bps :: "('w, u32) factory_tx" where
  "factory_protocol_fee_bps =
     bind (instance_get as_address GovernorAddress) (\<lambda>g.
     case g of
       Some governor \<Rightarrow>
         bind (gets (\<lambda>h. governance_config (world h) governor)) (\<lambda>res.
         return (case res of Inl _ \<Rightarrow> 30 | Inr c \<Rightarrow> fee_bps c))
     | None \<Rightarrow> return 30)"

definition factory_upgrade_stream_wasm ::
  "('w, 'n) env_scheme \<Rightarrow> u8 list \<Rightarrow> ('w, unit) factory_tx" where
  "factory_upgrade_stream_wasm env new_wasm_hash =
     bind (instance_get as_address GovernorAddress) (\<lambda>g.
     bind (ok_or g NotInitialized) (\<lambda>governor.
     bind (require_auth env governor) (\<lambda>_.
     bind bump_instance (\<lambda>_.
     bind bump_persistent_bucket (\<lambda>_.
     instance_set StreamWasmHash (VBytes new_wasm_hash))))))"

definition factory_pause :: "('w, 'n) env_scheme \<Rightarrow> ('w, unit) factory_tx" where
  "factory_pause env =
     bind (instance_get as_address GovernorAddress) (\<lambda>g.
     bind (ok_or g NotInitialized) (\<lambda>governor.
     bind (require_auth env governor) (\<lambda>_.
     bind pause_is_paused (\<lambda>paused.
     bind (ensure (\<not> paused) AlreadyPaused) (\<lambda>_.
     bind bump_instance (\<lambda>_.
     bind bump_persistent_bucket (\<lambda>_.
     bind (pause_set_paused True) (\<lambda>_.
     publish (FactoryPaused governor (ledger_timestamp env))))))))))"

definition factory_unpause :: "('w, 'n) env_scheme \<Rightarrow> ('w, unit) factory_tx" where
  "factory_unpause env =
     bind (instance_get as_address GovernorAddress) (\<lambda>g.
     bind (ok_or g NotInitialized) (\<lambda>governor.
     bind (require_auth env governor) (\<lambda>_.
     bind pause_is_paused (\<lambda>paused.
     bind (ensure paused NotPaused) (\<lambda>_.
     bind bump_instance (\<lambda>_.
     bind bump_persistent_bucket (\<lambda>_.
     bind (pause_set_paused False) (\<lambda>_.
     publish (FactoryUnpaused governor (ledger_timestamp env))))))))))"

definition factory_is_paused :: "('w, bool) factory_tx" where
  "factory_is_paused = pause_is_paused"

end
