(* ===== verification/Factory_Create.thy ===== *)
theory Factory_Create
  imports Factory_Contract
begin

text \<open>
  What \<open>create_stream\<close> does: the conditions under which it succeeds and the state it then leaves,
  as one relation, and the order of its errors.
\<close>

section \<open>Conditions\<close>

definition terms_ok :: "u64 \<Rightarrow> i128 \<Rightarrow> i128 \<Rightarrow> u64 \<Rightarrow> u64 \<Rightarrow> bool" where
  "terms_ok now deposit rate t0 t1 \<longleftrightarrow>
     0 < sint rate \<and> sint rate \<le> sint deposit \<and> now \<le> t0 \<and>
     (t1 = 0 \<or> t0 < t1 \<and> sint rate * (uint t1 - uint t0) \<le> sint deposit)"

definition bounds_ok :: "governor_config \<Rightarrow> i128 \<Rightarrow> u64 \<Rightarrow> u64 \<Rightarrow> bool" where
  "bounds_ok c rate t0 t1 \<longleftrightarrow>
     sint rate \<le> sint (max_rate_per_second c) \<and>
     (t1 = 0 \<or> uint (min_duration_seconds c) \<le> uint t1 - uint t0 \<and>
        uint t1 - uint t0 \<le> uint (max_duration_seconds c))"

text \<open>The address at which the factory deploys the stream with a given id.\<close>

definition stream_contract :: "('w, 'n) factory_env_scheme \<Rightarrow> u64 \<Rightarrow> address" where
  "stream_contract env n =
     contract_id env (current_contract_address env) (sha256 env (u64_to_be_bytes n))"

fun ids_of :: "u64 list stored option \<Rightarrow> u64 list" where
  "ids_of (Some (VStruct ids)) = ids"
| "ids_of _ = []"

definition has_ids :: "u64 list stored option \<Rightarrow> bool" where
  "has_ids x \<longleftrightarrow> (x = None \<or> (\<exists>ids. x = Some (VStruct ids)))"

lemma checked_sub_time:
  "t0 < t1 \<Longrightarrow> checked_sub_u t1 t0 = Some (t1 - t0) \<and> uint (t1 - t0) = uint t1 - uint (t0 :: u64)"
  by (simp add: checked_sub_u_def word_less_alt uint_minus_le)

lemma check_stream_terms_Inr_iff [tx_simps]:
  "check_stream_terms env deposit rate t0 t1 h = Inr r \<longleftrightarrow>
     terms_ok (ledger_timestamp env) deposit rate t0 t1 \<and> r = ((), h)"
proof (cases "t1 = 0")
  case True
  then show ?thesis by (auto simp: check_stream_terms_def tx_simps terms_ok_def)
next
  case False
  show ?thesis
  proof (cases "t0 < t1")
    case less: True
    let ?x = "sint rate * (uint t1 - uint t0)"
    have fits: "0 < sint rate \<Longrightarrow> ?x \<le> sint deposit \<Longrightarrow> i128_fits ?x"
      using less sint_i128_range [of deposit]
        mult_nonneg_nonneg [of "sint rate" "uint t1 - uint t0"]
      unfolding i128_fits_def word_less_alt by linarith
    have mul: "checked_mul_i128 rate (u64_as_i128 (t1 - t0)) = Some x \<longleftrightarrow> sint x = ?x" for x
      using checked_sub_time [OF less] by (simp add: checked_mul_i128_def i128_of_Some_iff)
    have "?x \<le> sint deposit \<Longrightarrow> 0 < sint rate \<Longrightarrow> \<exists>x :: i128. sint x = ?x"
      using fits by (blast intro: i128_exists)
    then show ?thesis
      using less False checked_sub_time [OF less]
      by (auto simp: check_stream_terms_def tx_simps terms_ok_def word_gt_0 mul not_less not_le)
        metis
  next
    case False
    with \<open>t1 \<noteq> 0\<close> show ?thesis
      by (auto simp: check_stream_terms_def tx_simps terms_ok_def word_gt_0)
  qed
qed

lemma enforce_bounds_Inr_iff:
  assumes "t1 = 0 \<or> t0 < t1"
  shows "enforce_bounds c rate t0 t1 h = Inr r \<longleftrightarrow> bounds_ok c rate t0 t1 \<and> r = ((), h)"
proof (cases "t1 = 0")
  case True
  then show ?thesis by (auto simp: enforce_bounds_def tx_simps bounds_ok_def)
next
  case False
  then have "t0 < t1" using assms by simp
  from checked_sub_time [OF this] False show ?thesis
    by (auto simp: enforce_bounds_def tx_simps bounds_ok_def word_gt_0 not_less word_le_def)
qed

lemma pause_is_paused_Inr_iff [tx_simps]:
  "pause_is_paused h = Inr r \<longleftrightarrow>
     (instance_store h Paused = None \<and> r = (False, h)) \<or>
     (\<exists>b. instance_store h Paused = Some (VBool b) \<and> r = (b, h))"
proof -
  have "as_bool v = Some b \<longleftrightarrow> v = VBool b" for v :: "u64 list stored" and b
    by (cases v) auto
  then show ?thesis by (auto simp: pause_is_paused_def tx_simps)
qed

lemma index_stream_Inr_iff [tx_simps]:
  "index_stream key n h = Inr r \<longleftrightarrow> has_ids (persistent_store h key) \<and>
     r = ((), h\<lparr>persistent_store := (persistent_store h)(key \<mapsto> VStruct (ids_of (persistent_store h key) @ [n])),
            ttl_log := ttl_log h @ [(Some key, THRESHOLD, EXTEND_TO)]\<rparr>)"
proof -
  have "as_struct v = Some b \<longleftrightarrow> v = VStruct b" for v :: "u64 list stored" and b
    by (cases v) auto
  then show ?thesis by (auto simp: index_stream_def tx_simps has_ids_def)
qed

lemma deploy_stream_Inr_iff [tx_simps]:
  "deploy_stream env hash n m h = Inr r \<longleftrightarrow>
     stream_at (world h) (stream_contract env n) = None \<and>
     governor_at (world h) (stream_contract env n) = None \<and>
     (\<exists>sh. m fresh_host = Inr ((), sh) \<and>
        r = (stream_contract env n,
             h\<lparr>world := (world h)\<lparr>stream_at := (stream_at (world h))(stream_contract env n \<mapsto> sh)\<rparr>\<rparr>))"
  by (auto simp: deploy_stream_def deploy_contract_def invoke_stream_def tx_simps
      stream_contract_def Let_def split: sum.splits)

lemma succ_u64: "checked_add_u (n :: u64) 1 = Some m \<longleftrightarrow> uint n + 1 < 2 ^ 64 \<and> m = n + 1"
  by (auto simp: checked_add_u_def)

lemma as_simps:
  "as_u64 v = Some x \<longleftrightarrow> v = VU64 x"
  "as_address v = Some a \<longleftrightarrow> v = VAddress a"
  "as_bytes v = Some b \<longleftrightarrow> v = VBytes b"
  by (cases v; auto)+

section \<open>The success of a creation\<close>

text \<open>
  \<open>creates env s r tk d rate t0 t1 cb h n h'\<close>: from the state \<open>h\<close> the stream is created with id
  \<open>n\<close>, and the state after it is \<open>h'\<close>.
\<close>

inductive creates ::
  "('w, 'n) factory_env_scheme \<Rightarrow> address \<Rightarrow> address \<Rightarrow> address \<Rightarrow> i128 \<Rightarrow> i128 \<Rightarrow> u64 \<Rightarrow> u64 \<Rightarrow> bool \<Rightarrow>
     'w factory_host \<Rightarrow> u64 \<Rightarrow> 'w factory_host \<Rightarrow> bool" where
  create:
    "\<lbrakk> has_authorized env sndr;
       instance_store h Paused \<in> {None, Some (VBool False)};
       terms_ok (ledger_timestamp env) deposit rate t0 t1;
       instance_store h GovernorAddress = Some (VAddress governor);
       governance_config (world h) governor = Inr c;
       bounds_ok c rate t0 t1;
       token_transfer (token_client env) (tokens (world h)) tok sndr
         (current_contract_address env) deposit = Some w1;
       instance_store h StreamCount = Some (VU64 n) \<or> instance_store h StreamCount = None \<and> n = 0;
       instance_store h StreamWasmHash = Some (VBytes wasm_hash);
       addr = stream_contract env n;
       stream_at (world h) addr = None; governor_at (world h) addr = None;
       wasm_initialize env wasm_hash sndr rcp tok rate t0 t1 clawback fresh_host = Inr ((), sh);
       token_transfer (token_client env) w1 tok (current_contract_address env) addr deposit = Some w2;
       uint n + 1 < 2 ^ 64;
       has_ids (persistent_store h (BySender sndr)); has_ids (persistent_store h (ByRecipient rcp));
       h' = h\<lparr>instance_store := (instance_store h)(StreamCount \<mapsto> VU64 (n + 1)),
         persistent_store := (persistent_store h)(StreamAddr n \<mapsto> VAddress addr,
           BySender sndr \<mapsto> VStruct (ids_of (persistent_store h (BySender sndr)) @ [n]),
           ByRecipient rcp \<mapsto> VStruct (ids_of (persistent_store h (ByRecipient rcp)) @ [n])),
         ttl_log := ttl_log h @ [(None, THRESHOLD, EXTEND_TO),
           (Some (StreamAddr n), THRESHOLD, EXTEND_TO),
           (Some (BySender sndr), THRESHOLD, EXTEND_TO),
           (Some (ByRecipient rcp), THRESHOLD, EXTEND_TO)],
         world := (world h)\<lparr>tokens := w2, stream_at := (stream_at (world h))(addr \<mapsto> sh)\<rparr>\<rparr> \<rbrakk>
     \<Longrightarrow> creates env sndr rcp tok deposit rate t0 t1 clawback h n h'"

inductive_simps creates_iff: "creates env sndr rcp tok deposit rate t0 t1 clawback h n h'"

lemma has_ids_upd [simp]:
  "has_ids (Some (VStruct x))"
  by (simp add: has_ids_def)

lemma factory_create_stream_iff:
  "factory_create_stream env sndr rcp tok deposit rate t0 t1 clawback h = Inr (n, h') \<longleftrightarrow>
     creates env sndr rcp tok deposit rate t0 t1 clawback h n h'"
proof -
  have t: "terms_ok now deposit rate t0 t1 \<Longrightarrow> t1 = 0 \<or> t0 < t1" for now
    by (auto simp: terms_ok_def)
  show ?thesis
    unfolding factory_create_stream_def creates_iff
    by (auto simp: tx_simps Let_def bump_instance_def as_simps enforce_bounds_Inr_iff [OF t]
        succ_u64 ex_bool_eq)
qed

text \<open>Property C4. \<open>create_stream\<close> succeeds exactly under these conditions: the sender authorized it,
  the factory is not paused, the terms are valid and fully funded and not backdated, the governor
  answers and its bounds hold, both token transfers go through, the id's address is free, the
  stream's own initialization accepts the terms, and an id is left. It then returns the old stream
  count as id, counts up, stores the stream's address, appends the id to the sender's and the
  recipient's index, extends the time to live of exactly the entries it wrote, and changes nothing
  else.\<close>

theorem create_stream_exact:
  "factory_create_stream env sndr rcp tok deposit rate t0 t1 clawback h = Inr (n, h') \<longleftrightarrow>
     creates env sndr rcp tok deposit rate t0 t1 clawback h n h'"
  by (rule factory_create_stream_iff)

end
