(* ===== verification/Factory_Walker.thy ===== *)
theory Factory_Walker
  imports Factory_Create
begin

text \<open>
  Pagination of the indices, and the walker that keeps the address entries alive: what one call
  extends, and that successive calls reach every stream.
\<close>

section \<open>Pagination\<close>

lemma map_nth_upt: "map (\<lambda>i. v ! i) [a ..< min b (length v)] = take (b - a) (drop a v)"
proof (rule nth_equalityI)
  fix i assume "i < length (map (\<lambda>i. v ! i) [a ..< min b (length v)])"
  then have "i < min b (length v) - a" by simp
  then have i: "a + i < min b (length v)" by linarith
  then have e: "[a ..< min b (length v)] ! i = a + i" by (rule nth_upt)
  then show "map (\<lambda>i. v ! i) [a ..< min b (length v)] ! i = take (b - a) (drop a v) ! i"
    using i by (simp add: e less_diff_conv add.commute)
qed auto

lemma unat_saturating_add: "unat (saturating_add_u a b) = min (unat a + unat b) (2 ^ 32 - 1)"
  for a b :: u32
proof -
  have "uint a + uint b < 2 ^ 32 \<longleftrightarrow> int (unat a + unat b) < int (2 ^ 32)"
    by (simp only: of_nat_add uint_nat of_nat_power of_nat_numeral)
  also have "\<dots> \<longleftrightarrow> unat a + unat b < 2 ^ 32" by (rule of_nat_less_iff)
  finally have iff: "uint a + uint b < 2 ^ 32 \<longleftrightarrow> unat a + unat b < 2 ^ 32" .
  show ?thesis
  proof (cases "unat a + unat b < 2 ^ 32")
    case True
    then show ?thesis using iff unat_add_lem [of a b] by (simp add: saturating_add_u_def)
  next
    case False
    have "unat (- 1 :: u32) = 2 ^ 32 - 1"
      by (simp add: unsigned_minus_1_eq_mask mask_eq_exp_minus_1)
    then show ?thesis using False iff by (simp add: saturating_add_u_def)
  qed
qed

text \<open>A page is exactly the requested window of the list: \<open>limit\<close> entries from
  \<open>offset\<close> on, fewer at the end, none past it; offset and limit can be any 32-bit values,
  also when their sum does not fit.\<close>

theorem paginate_window:
  assumes "length v < 2 ^ 32"
  shows "paginate v offset limit = take (unat limit) (drop (unat offset) v)"
proof -
  have "min (unat (saturating_add_u offset limit)) (length v) = min (unat offset + unat limit) (length v)"
    using assms by (simp add: unat_saturating_add)
  then show ?thesis
    using map_nth_upt [of v "unat offset" "unat offset + unat limit"] by (simp add: paginate_def Let_def)
qed

section \<open>The walker\<close>

text \<open>The request that the walker makes for one id.\<close>

definition address_bump :: "u64 \<Rightarrow> factory_key option \<times> u32 \<times> u32" where
  "address_bump n = (Some (StreamAddr n), THRESHOLD, EXTEND_TO)"

definition walked :: "nat \<Rightarrow> nat \<Rightarrow> nat \<Rightarrow> u64" where
  "walked N cursor j = of_nat ((cursor + 1 + j) mod N)"

text \<open>Every id below the count has an address entry, and the cursor is below the count.\<close>

definition walkable :: "nat \<Rightarrow> nat \<Rightarrow> 'w factory_host \<Rightarrow> bool" where
  "walkable N cursor h \<longleftrightarrow>
     0 < N \<and> N + 8 < 2 ^ 64 \<and> cursor < N \<and>
     instance_store h StreamCount = Some (VU64 (of_nat N)) \<and>
     (instance_store h LastBumpedId = Some (VU64 (of_nat cursor)) \<or>
      instance_store h LastBumpedId = None \<and> cursor = 0) \<and>
     (\<forall>n. unat n < N \<longrightarrow> persistent_store h (StreamAddr n) \<noteq> None)"

lemma unat_of_nat_u64: "k < 2 ^ 64 \<Longrightarrow> unat (of_nat k :: u64) = k"
  by (simp add: unsigned_of_nat take_bit_nat_eq_self)

lemma uint_of_nat_u64: "k < 2 ^ 64 \<Longrightarrow> uint (of_nat k :: u64) = int k"
  by (simp add: unsigned_of_nat take_bit_nat_eq_self)

lemma saturating_add_of_nat:
  "a + b < 2 ^ 64 \<Longrightarrow> saturating_add_u (of_nat a :: u64) (of_nat b) = of_nat (a + b)"
  by (simp add: saturating_add_u_def uint_of_nat_u64)

lemma next_walked:
  assumes "N + 8 < 2 ^ 64" and "0 < N" and "cursor < N" and "i < 8"
  shows "saturating_add_u (saturating_add_u (of_nat cursor :: u64) 1)
      (u32_into_u64_saturating (of_nat i)) mod of_nat N = walked N cursor i"
proof -
  have "u32_into_u64_saturating (of_nat i) = of_nat i"
    using assms(4)
    by (simp add: u32_into_u64_saturating_def word_eq_iff_unsigned unsigned_ucast_eq unsigned_of_nat take_bit_nat_eq_self)
  moreover have "saturating_add_u (of_nat cursor :: u64) 1 = of_nat (cursor + 1)"
    using saturating_add_of_nat [of cursor 1] assms by simp
  moreover have "saturating_add_u (of_nat (cursor + 1) :: u64) (of_nat i) = of_nat (cursor + 1 + i)"
    using assms by (intro saturating_add_of_nat) simp
  moreover have "(of_nat (cursor + 1 + i) :: u64) mod of_nat N = of_nat ((cursor + 1 + i) mod N)"
    using assms unat_of_nat_u64 [of "cursor + 1 + i"] unat_of_nat_u64 [of N]
    by (simp add: word_arith_nat_mod del: of_nat_add of_nat_Suc)
  ultimately show ?thesis by (simp add: walked_def)
qed

lemma walked_less: "0 < N \<Longrightarrow> N < 2 ^ 64 \<Longrightarrow> unat (walked N cursor j) < N"
  by (simp add: walked_def unat_of_nat_u64 less_trans [OF mod_less_divisor])

lemma bump_walk_eval:
  assumes "walkable N cursor h" and "length js + unat touched \<le> 8" and "\<forall>i \<in> set js. i < 8"
    and "persistent_store h' = persistent_store h"
  shows "bump_walk (of_nat N) (of_nat cursor) js new_last touched h' =
    Inr ((last (new_last # map (walked N cursor) js), touched + of_nat (length js)),
      h'\<lparr>ttl_log := ttl_log h' @ map (address_bump \<circ> walked N cursor) js\<rparr>)"
  using assms(2-4)
proof (induction js arbitrary: new_last touched h')
  case Nil
  then show ?case by (simp add: tx_eval)
next
  case (Cons i js)
  have walkable: "N + 8 < 2 ^ 64" "0 < N" "cursor < N" "i < 8"
    using assms(1) Cons.prems by (simp_all add: walkable_def)
  then have "unat (walked N cursor i) < N" by (intro walked_less) simp_all
  then have live: "persistent_store h' (StreamAddr (walked N cursor i)) \<noteq> None"
    using assms(1) Cons.prems(3) by (auto simp: walkable_def)
  have t: "unat (touched + 1) = unat touched + 1"
    using Cons.prems(1) unat_add_lem [of touched 1] by simp
  have "unat touched < 8" using Cons.prems(1) by simp
  then have "uint touched < 8" by (simp only: uint_nat of_nat_less_numeral_iff)
  then have "checked_add_u touched 1 = Some (touched + 1)" by (simp add: checked_add_u_def)
  with live have step: "bump_walk (of_nat N) (of_nat cursor) (i # js) new_last touched h' =
      bump_walk (of_nat N) (of_nat cursor) js (walked N cursor i) (touched + 1)
        (h'\<lparr>ttl_log := ttl_log h' @ [address_bump (walked N cursor i)]\<rparr>)"
    by (auto simp: next_walked [OF walkable] tx_eval host_eval Let_def address_bump_def)
  have "\<dots> = Inr ((last (walked N cursor i # map (walked N cursor) js), touched + 1 + of_nat (length js)),
      h'\<lparr>ttl_log := (ttl_log h' @ [address_bump (walked N cursor i)]) @
        map (address_bump \<circ> walked N cursor) js\<rparr>)"
    using Cons.prems t by (subst Cons.IH) auto
  with step show ?case by (simp add: add.assoc)
qed

lemma bump_bucket_eval:
  assumes "walkable N cursor h"
  shows "bump_persistent_bucket h = Inr (8, h\<lparr>instance_store :=
      (instance_store h)(LastBumpedId \<mapsto> VU64 (of_nat ((cursor + 8) mod N))),
    ttl_log := ttl_log h @ map (address_bump \<circ> walked N cursor) [0 ..< 8]\<rparr>)"
proof -
  have eight: "[0 ..< unat BATCH_LIMIT] = [0 ..< 8]" by (simp add: BATCH_LIMIT_def)
  have last: "last (c # map (walked N cursor) [0 ..< 8]) = of_nat ((cursor + 8) mod N)" for c
    by (simp add: upt_rec walked_def eval_nat_numeral)
  have "(of_nat N :: u64) \<noteq> 0"
    using assms unat_of_nat_u64 [of N] by (auto simp: walkable_def)
  moreover have "bump_walk (of_nat N) (of_nat cursor) [0 ..< 8] (of_nat cursor) 0 h =
      Inr ((of_nat ((cursor + 8) mod N), 8),
        h\<lparr>ttl_log := ttl_log h @ map (address_bump \<circ> walked N cursor) [0 ..< 8]\<rparr>)"
    using bump_walk_eval [OF assms, of "[0 ..< 8]" 0 h "of_nat cursor"] last by simp
  moreover have "instance_store h LastBumpedId = None \<Longrightarrow> (0 :: u64) = of_nat cursor"
    using assms by (auto simp: walkable_def)
  ultimately show ?thesis
    using assms unfolding bump_persistent_bucket_def eight
    by (auto simp: walkable_def tx_eval host_eval Let_def)
qed

lemma bump_bucket_walkable:
  assumes "walkable N cursor h" and "bump_persistent_bucket h = Inr (t, h')"
  shows "walkable N ((cursor + 8) mod N) h'"
  using assms(1) assms(2) [unfolded bump_bucket_eval [OF assms(1)]]
  by (auto simp: walkable_def)

fun bump_times :: "nat \<Rightarrow> ('w, unit) factory_tx" where
  "bump_times 0 = return ()"
| "bump_times (Suc k) = bind bump_persistent_bucket (\<lambda>_. bump_times k)"

lemma walked_shift: "walked N ((cursor + 8) mod N) j = walked N cursor (8 + j)"
proof -
  have "((cursor + 8) mod N + 1 + j) mod N = (cursor + 8 + (1 + j)) mod N"
    by (simp only: add.assoc mod_add_left_eq)
  also have "cursor + 8 + (1 + j) = cursor + 1 + (8 + j)" by simp
  finally show ?thesis by (simp only: walked_def)
qed

lemma bump_times_eval:
  "walkable N cursor h \<Longrightarrow>
   \<exists>h'. bump_times k h = Inr ((), h') \<and> persistent_store h' = persistent_store h \<and>
     ttl_log h' = ttl_log h @ map (address_bump \<circ> walked N cursor) [0 ..< 8 * k]"
proof (induction k arbitrary: cursor h)
  case 0
  then show ?case by (simp add: tx_eval)
next
  case (Suc k)
  define h1 where "h1 = h\<lparr>instance_store :=
      (instance_store h)(LastBumpedId \<mapsto> VU64 (of_nat ((cursor + 8) mod N))),
    ttl_log := ttl_log h @ map (address_bump \<circ> walked N cursor) [0 ..< 8]\<rparr>"
  have first: "bump_persistent_bucket h = Inr (8, h1)"
    unfolding h1_def by (rule bump_bucket_eval [OF Suc.prems])
  then have "walkable N ((cursor + 8) mod N) h1"
    by (rule bump_bucket_walkable [OF Suc.prems])
  from Suc.IH [OF this] obtain h' where h': "bump_times k h1 = Inr ((), h')"
    "persistent_store h' = persistent_store h1"
    "ttl_log h' = ttl_log h1 @ map (address_bump \<circ> walked N ((cursor + 8) mod N)) [0 ..< 8 * k]"
    by blast
  have split: "[0 ..< 8 * Suc k] = [0 ..< 8] @ map ((+) 8) [0 ..< 8 * k]"
    using upt_add_eq_append [of 0 8 "8 * k"] map_add_upt [of 8 "8 * k"] by (simp add: add.commute [of _ 8])
  have "map (address_bump \<circ> walked N ((cursor + 8) mod N)) [0 ..< 8 * k] =
      map (address_bump \<circ> walked N cursor) (map ((+) 8) [0 ..< 8 * k])"
    by (simp add: walked_shift)
  then have "ttl_log h' = ttl_log h @ map (address_bump \<circ> walked N cursor) [0 ..< 8 * Suc k]"
    unfolding split h'(3) by (simp add: h1_def)
  with first h'(1,2) show ?case by (simp add: tx_eval h1_def)
qed

lemma walked_covers:
  assumes "0 < N" and "N < 2 ^ 64" and "N \<le> m" and "unat n < N"
  shows "\<exists>j < m. walked N cursor j = n"
proof -
  let ?c = "(cursor + 1) mod N"
  define j where "j = (unat n + (N - ?c)) mod N"
  have "?c < N" using assms(1) by simp
  then have "?c + (unat n + (N - ?c)) = unat n + N" by linarith
  moreover have "(cursor + 1 + j) mod N = (?c + (unat n + (N - ?c))) mod N"
    by (simp only: j_def mod_add_left_eq mod_add_right_eq)
  ultimately have "(cursor + 1 + j) mod N = unat n" using assms(4) by simp
  then have "walked N cursor j = n" by (simp add: walked_def)
  moreover have "j < m" using assms(1,3) by (simp add: j_def less_le_trans [OF mod_less_divisor])
  ultimately show ?thesis by blast
qed

text \<open>Property C33. The maintenance walker never fails and keeps every registry entry alive: one call
  asks to extend exactly the eight address entries after the cursor, wrapping around, and moves the
  cursor on by eight; so with \<open>N\<close> streams any run of at least \<open>N\<close>/8 calls extends the entry of every
  stream, and touches no stored entry.\<close>

theorem walker_reaches_every_stream:
  assumes "walkable N cursor h" and "N \<le> 8 * k"
  shows "\<exists>h'. bump_times k h = Inr ((), h') \<and> persistent_store h' = persistent_store h \<and>
    ttl_log h' = ttl_log h @ map (address_bump \<circ> walked N cursor) [0 ..< 8 * k] \<and>
    (\<forall>n. unat n < N \<longrightarrow> address_bump n \<in> set (drop (length (ttl_log h)) (ttl_log h')))"
proof -
  obtain h' where h': "bump_times k h = Inr ((), h')" "persistent_store h' = persistent_store h"
    "ttl_log h' = ttl_log h @ map (address_bump \<circ> walked N cursor) [0 ..< 8 * k]"
    using bump_times_eval [OF assms(1)] by blast
  have "address_bump n \<in> set (map (address_bump \<circ> walked N cursor) [0 ..< 8 * k])"
    if "unat n < N" for n
  proof -
    from that obtain j where "j < 8 * k" "walked N cursor j = n"
      using walked_covers [of N "8 * k" n cursor] assms by (auto simp: walkable_def)
    then show ?thesis by (force simp: image_iff)
  qed
  with h' show ?thesis by simp
qed

end
