(* ===== verification/Factory_Registry.thy ===== *)
theory Factory_Registry
  imports Factory_Walker
begin

text \<open>
  The factory's registry: the stream count, the address of every id and the two indices stay
  consistent with the sequence of creations, whatever is called.
\<close>

section \<open>What is registered\<close>

text \<open>A created stream: its sender, its recipient and its address.\<close>

type_synonym creation = "address \<times> address \<times> address"

definition indexed :: "(creation \<Rightarrow> bool) \<Rightarrow> creation list \<Rightarrow> u64 list" where
  "indexed P cs = map of_nat (filter (\<lambda>i. P (cs ! i)) [0 ..< length cs])"

definition registers :: "creation list \<Rightarrow> 'w factory_host \<Rightarrow> bool" where
  "registers cs h \<longleftrightarrow>
     length cs < 2 ^ 64 \<and>
     instance_store h StreamCount = Some (VU64 (of_nat (length cs))) \<and>
     (\<forall>n. persistent_store h (StreamAddr n) =
        (if unat n < length cs then Some (VAddress (snd (snd (cs ! unat n)))) else None)) \<and>
     (\<forall>a. has_ids (persistent_store h (BySender a)) \<and>
        ids_of (persistent_store h (BySender a)) = indexed (\<lambda>c. fst c = a) cs) \<and>
     (\<forall>a. has_ids (persistent_store h (ByRecipient a)) \<and>
        ids_of (persistent_store h (ByRecipient a)) = indexed (\<lambda>c. fst (snd c) = a) cs)"

lemma indexed_snoc:
  "indexed P (cs @ [c]) = indexed P cs @ (if P c then [of_nat (length cs)] else [])"
proof -
  have "filter (\<lambda>i. P ((cs @ [c]) ! i)) [0 ..< length cs] = filter (\<lambda>i. P (cs ! i)) [0 ..< length cs]"
    by (rule filter_cong) (auto simp: nth_append)
  then show ?thesis by (simp add: indexed_def)
qed

lemma registers_frame:
  assumes "registers cs h" and "persistent_store h' = persistent_store h"
    and "instance_store h' StreamCount = instance_store h StreamCount"
  shows "registers cs h'"
  using assms by (simp add: registers_def)

lemma creates_registers:
  assumes "creates env sndr rcp tok deposit rate t0 t1 clawback h n h'" and "registers cs h"
  shows "n = of_nat (length cs) \<and> length cs + 1 < 2 ^ 64 \<and>
    registers (cs @ [(sndr, rcp, stream_contract env n)]) h'"
proof -
  have n: "n = of_nat (length cs)" and less: "uint n + 1 < 2 ^ 64"
    using assms by (auto simp: creates_iff registers_def)
  have un: "unat n = length cs" using assms(2) by (simp add: n registers_def unat_of_nat_u64)
  have "int (length cs) + 1 < 2 ^ 64"
    using less assms(2) by (simp add: n registers_def uint_of_nat_u64)
  then have len: "length cs + 1 < 2 ^ 64" by simp
  have idx: "m = n \<longleftrightarrow> unat m = length cs" for m
    using un by (auto simp: word_unat_eq_iff)
  let ?a = "stream_contract env n" and ?p = "persistent_store h"
  have store: "instance_store h' StreamCount = Some (VU64 (n + 1))"
    and entries: "persistent_store h' = ?p(StreamAddr n \<mapsto> VAddress ?a,
      BySender sndr \<mapsto> VStruct (ids_of (?p (BySender sndr)) @ [n]),
      ByRecipient rcp \<mapsto> VStruct (ids_of (?p (ByRecipient rcp)) @ [n]))"
    using assms(1) by (auto simp: creates_iff)
  have "\<forall>m. persistent_store h' (StreamAddr m) =
      (if unat m < length (cs @ [(sndr, rcp, ?a)])
       then Some (VAddress (snd (snd ((cs @ [(sndr, rcp, ?a)]) ! unat m)))) else None)"
    using assms(2) by (auto simp: entries idx registers_def nth_append less_Suc_eq)
  then show ?thesis
    using assms(2) n len by (simp add: registers_def store entries indexed_snoc)
qed

section \<open>The factory as a state machine\<close>

text \<open>
  The factory starts with a successful \<open>initialize\<close> on a fresh instance. It then takes calls, and
  the other contracts of the ledger act on their own: streams, governors and tokens change, the
  factory's storage does not.
\<close>

inductive factory_init :: "'w factory_host \<Rightarrow> bool" where
  factory_initI:
    "\<lbrakk> instance_store h0 = Map.empty; persistent_store h0 = Map.empty;
       factory_initialize wasm_hash governor h0 = Inr ((), h) \<rbrakk> \<Longrightarrow> factory_init h"

inductive factory_move :: "'w factory_host \<Rightarrow> 'w factory_host \<Rightarrow> bool" where
  move_create:
    "factory_create_stream (env :: 'w factory_env) sndr rcp tok deposit rate t0 t1 clawback h =
       Inr (n, h') \<Longrightarrow> factory_move h h'"
| move_batch:
    "factory_create_batch_streams (env :: 'w factory_env) sndr requests clawback h = Inr (ids, h') \<Longrightarrow>
     factory_move h h'"
| move_upgrade: "factory_upgrade_stream_wasm (env :: 'w factory_env) hash h = Inr (u, h') \<Longrightarrow> factory_move h h'"
| move_pause: "factory_pause (env :: 'w factory_env) h = Inr (u, h') \<Longrightarrow> factory_move h h'"
| move_unpause: "factory_unpause (env :: 'w factory_env) h = Inr (u, h') \<Longrightarrow> factory_move h h'"
| move_others: "factory_move h (h\<lparr>world := l\<rparr>)"

text \<open>The walker touches no entry but its cursor.\<close>

definition same_but_cursor :: "'w factory_host \<Rightarrow> 'w factory_host \<Rightarrow> bool" where
  "same_but_cursor h h' \<longleftrightarrow>
     persistent_store h' = persistent_store h \<and> world h' = world h \<and> event_log h' = event_log h \<and>
     (\<forall>k. k \<noteq> LastBumpedId \<longrightarrow> instance_store h' k = instance_store h k)"

lemma bump_walk_frame:
  "bump_walk count cursor js new_last touched h = Inr (r, h') \<Longrightarrow>
   persistent_store h' = persistent_store h \<and> world h' = world h \<and> event_log h' = event_log h \<and>
   instance_store h' = instance_store h"
  by (induction js arbitrary: new_last touched h)
    (auto simp: tx_simps Let_def split: if_splits)

lemma bump_bucket_frame: "bump_persistent_bucket h = Inr (t, h') \<Longrightarrow> same_but_cursor h h'"
  by (auto simp: bump_persistent_bucket_def same_but_cursor_def tx_simps Let_def
      dest!: bump_walk_frame split: if_splits prod.splits)

section \<open>Batches\<close>

inductive creates_all ::
  "('w, 'n) factory_env_scheme \<Rightarrow> address \<Rightarrow> bool \<Rightarrow> batch_stream_request list \<Rightarrow>
     'w factory_host \<Rightarrow> u64 list \<Rightarrow> 'w factory_host \<Rightarrow> bool" for env sndr clawback where
  creates_none: "creates_all env sndr clawback [] h [] h"
| creates_more:
    "\<lbrakk> creates env sndr (request_recipient r) (request_token r) (request_deposit r)
         (request_rate_per_sec r) (request_start_time r) (request_end_time r) clawback h n h1;
       creates_all env sndr clawback rs h1 ns h2 \<rbrakk>
     \<Longrightarrow> creates_all env sndr clawback (r # rs) h (n # ns) h2"

inductive_simps creates_all_Nil: "creates_all env sndr clawback [] h ns h'"
inductive_simps creates_all_Cons: "creates_all env sndr clawback (r # rs) h ns h'"

lemma create_each_iff:
  "create_each env sndr clawback rs ids h = Inr (ids', h') \<longleftrightarrow>
     (\<exists>ns. creates_all env sndr clawback rs h ns h' \<and> ids' = ids @ ns)"
proof (induction rs arbitrary: ids h)
  case Nil
  then show ?case by (auto simp: tx_simps creates_all_Nil)
next
  case (Cons r rs)
  then show ?case
    by (auto simp: bind_Inr_iff factory_create_stream_iff creates_all_Cons)
qed

lemma creates_all_registers:
  "creates_all env sndr clawback rs h ns h' \<Longrightarrow> registers cs h \<Longrightarrow>
   ns = map of_nat [length cs ..< length cs + length rs] \<and>
   (\<exists>ds. length ds = length rs \<and> registers (cs @ ds) h')"
proof (induction rs arbitrary: cs h ns)
  case Nil
  then show ?case by (auto simp: creates_all_Nil)
next
  case (Cons r rs)
  then obtain n h1 ms where n: "creates env sndr (request_recipient r) (request_token r)
      (request_deposit r) (request_rate_per_sec r) (request_start_time r) (request_end_time r)
      clawback h n h1" and ms: "creates_all env sndr clawback rs h1 ms h'" and ns: "ns = n # ms"
    by (auto simp: creates_all_Cons)
  let ?c = "(sndr, request_recipient r, stream_contract env n)"
  have first: "n = of_nat (length cs)" "registers (cs @ [?c]) h1"
    using creates_registers [OF n Cons.prems(2)] by auto
  from Cons.IH [OF ms first(2)] obtain ds where ds: "length ds = length rs"
    "registers ((cs @ [?c]) @ ds) h'"
    and ms': "ms = map of_nat [length (cs @ [?c]) ..< length (cs @ [?c]) + length rs]"
    by blast
  have "ns = map of_nat [length cs ..< length cs + length (r # rs)]"
    using first(1) ns ms' by (simp add: upt_conv_Cons del: upt_Suc)
  moreover have "length (?c # ds) = length (r # rs)" using ds(1) by simp
  moreover have "registers (cs @ (?c # ds)) h'" using ds(2) by simp
  ultimately show ?case by blast
qed

text \<open>A batch is the sequence of its single creations and nothing else: as far as the host
  lets one call ask its sender more than once, it succeeds exactly when it has between one and a hundred requests and each creation in turn succeeds in the state
  the earlier ones left (one that fails fails the batch, whose writes the host drops); its ids are
  consecutive from the stream count on, and the registry holds them all.\<close>

theorem batch_is_sequence_of_creations:
  assumes "registers cs h"
  shows "factory_create_batch_streams env sndr requests clawback h = Inr (ids, h') \<longleftrightarrow>
    0 < length requests \<and> length requests \<le> 100 \<and>
    creates_all env sndr clawback requests h ids h' \<and>
    ids = map of_nat [length cs ..< length cs + length requests] \<and>
    (\<exists>ds. length ds = length requests \<and> registers (cs @ ds) h')"
  using creates_all_registers [OF _ assms, of env sndr clawback requests ids h']
  by (auto simp: factory_create_batch_streams_def tx_simps create_each_iff MAX_BATCH_SIZE_def)

section \<open>Reachable registries\<close>

definition cursor_ok :: "nat \<Rightarrow> 'w factory_host \<Rightarrow> bool" where
  "cursor_ok N h \<longleftrightarrow>
     instance_store h LastBumpedId = None \<or>
     (\<exists>c. instance_store h LastBumpedId = Some (VU64 c) \<and> unat c < N)"

definition configured :: "'w factory_host \<Rightarrow> bool" where
  "configured h \<longleftrightarrow>
     (\<exists>governor. instance_store h GovernorAddress = Some (VAddress governor)) \<and>
     (\<exists>hash. instance_store h StreamWasmHash = Some (VBytes hash)) \<and>
     (instance_store h Paused = None \<or> (\<exists>b. instance_store h Paused = Some (VBool b)))"

definition factory_inv :: "'w factory_host \<Rightarrow> bool" where
  "factory_inv h \<longleftrightarrow> (\<exists>cs. registers cs h \<and> cursor_ok (length cs) h) \<and> configured h"

text \<open>From \<open>h\<close> to \<open>h'\<close> the registry only grows.\<close>

definition grows :: "'w factory_host \<Rightarrow> 'w factory_host \<Rightarrow> bool" where
  "grows h h' \<longleftrightarrow>
     (\<forall>cs. registers cs h \<and> cursor_ok (length cs) h \<longrightarrow>
        (\<exists>ds. registers (cs @ ds) h' \<and> cursor_ok (length (cs @ ds)) h')) \<and>
     (configured h \<longrightarrow> configured h')"

lemma grows_refl: "grows h h"
  unfolding grows_def by (metis append_Nil2)

lemma grows_trans: "grows h h1 \<Longrightarrow> grows h1 h2 \<Longrightarrow> grows h h2"
  unfolding grows_def by (metis append.assoc)

lemma grows_frame:
  assumes "persistent_store h' = persistent_store h"
    and "\<And>k. k \<notin> {StreamWasmHash, Paused} \<Longrightarrow> instance_store h' k = instance_store h k"
    and "configured h \<Longrightarrow> configured h'"
  shows "grows h h'"
  using assms registers_frame [of _ h h']
  by (auto simp: grows_def cursor_ok_def intro!: exI [of _ "[]"])

lemma creates_grows:
  assumes "creates env sndr rcp tok deposit rate t0 t1 clawback h n h'"
  shows "grows h h'"
proof -
  have "\<exists>ds. registers (cs @ ds) h' \<and> cursor_ok (length (cs @ ds)) h'"
    if "registers cs h" "cursor_ok (length cs) h" for cs
  proof (intro exI conjI)
    show "registers (cs @ [(sndr, rcp, stream_contract env n)]) h'"
      using creates_registers [OF assms that(1)] by blast
    show "cursor_ok (length (cs @ [(sndr, rcp, stream_contract env n)])) h'"
      using assms that(2) by (auto simp: creates_iff cursor_ok_def)
  qed
  moreover have "configured h \<longrightarrow> configured h'"
    using assms by (auto simp: creates_iff configured_def)
  ultimately show ?thesis by (simp add: grows_def)
qed

lemma creates_all_grows: "creates_all env sndr clawback rs h ns h' \<Longrightarrow> grows h h'"
  by (induction rule: creates_all.induct) (auto intro: grows_refl grows_trans creates_grows)

lemma unat_mod_less: "count \<noteq> 0 \<Longrightarrow> unat (x mod count) < unat (count :: u64)"
  by (simp add: unat_mod_distrib unat_gt_0)

lemma bump_walk_last:
  "bump_walk count cursor js new_last touched h = Inr ((l, t), h') \<Longrightarrow> count \<noteq> 0 \<Longrightarrow>
   js = [] \<and> l = new_last \<or> unat l < unat count"
  by (induction js arbitrary: new_last touched h)
    (fastforce simp: tx_simps Let_def unat_mod_less split: if_splits)+

lemma bump_bucket_grows:
  assumes "bump_persistent_bucket h = Inr (t, h')"
  shows "grows h h'"
proof -
  have frame: "same_but_cursor h h'" using assms by (rule bump_bucket_frame)
  have "registers cs h' \<and> cursor_ok (length cs) h'"
    if cs: "registers cs h" "cursor_ok (length cs) h" for cs
  proof
    show "registers cs h'"
      using frame by (intro registers_frame [OF cs(1)]) (simp_all add: same_but_cursor_def)
    have un: "unat (of_nat (length cs) :: u64) = length cs" 
      using cs(1) by (simp add: registers_def unat_of_nat_u64)
    have js: "[0 ..< unat BATCH_LIMIT] \<noteq> []" by (simp add: BATCH_LIMIT_def)
    show "cursor_ok (length cs) h'"
      using assms cs js un
      by (auto simp: bump_persistent_bucket_def tx_simps Let_def cursor_ok_def registers_def as_simps
          dest!: bump_walk_last split: if_splits prod.splits)
  qed
  then have "\<exists>ds. registers (cs @ ds) h' \<and> cursor_ok (length (cs @ ds)) h'"
    if "registers cs h" "cursor_ok (length cs) h" for cs
    using that by (intro exI [of _ "[]"]) simp
  moreover have "configured h \<longrightarrow> configured h'"
    using frame by (simp add: same_but_cursor_def configured_def)
  ultimately show ?thesis by (simp add: grows_def)
qed

lemma maintenance_grows:
  assumes "bump_persistent_bucket (h\<lparr>ttl_log := l\<rparr>) = Inr (t, h1)"
    and "persistent_store h' = persistent_store h1"
    and "\<And>k. k \<notin> {StreamWasmHash, Paused} \<Longrightarrow> instance_store h' k = instance_store h1 k"
    and "configured h1 \<Longrightarrow> configured h'"
  shows "grows h h'"
proof -
  have "grows h (h\<lparr>ttl_log := l\<rparr>)" by (rule grows_frame) (simp_all add: configured_def)
  from this bump_bucket_grows [OF assms(1)] have "grows h h1" by (rule grows_trans)
  then show ?thesis by (rule grows_trans) (rule grows_frame [OF assms(2-4)])
qed

lemma factory_move_grows: "factory_move h h' \<Longrightarrow> grows h h'"
proof (induction rule: factory_move.induct)
  case move_create
  then show ?case by (auto simp: factory_create_stream_iff intro: creates_grows)
next
  case move_batch
  then show ?case
    by (auto simp: factory_create_batch_streams_def tx_simps create_each_iff intro: creates_all_grows)
next
  case move_upgrade
  then show ?case
    by (auto simp: factory_upgrade_stream_wasm_def tx_simps bump_instance_def configured_def
        elim!: maintenance_grows)
next
  case move_pause
  then show ?case
    by (auto simp: factory_pause_def tx_simps bump_instance_def pause_set_paused_def configured_def
        elim!: maintenance_grows split: if_splits)
next
  case move_unpause
  then show ?case
    by (auto simp: factory_unpause_def tx_simps bump_instance_def pause_set_paused_def configured_def
        elim!: maintenance_grows split: if_splits)
next
  case move_others
  show ?case by (rule grows_frame) (simp_all add: configured_def)
qed

lemma factory_init_inv: "factory_init h \<Longrightarrow> factory_inv h"
proof (induction rule: factory_init.induct)
  case (factory_initI h0 wasm_hash governor h)
  then have "registers [] h \<and> cursor_ok 0 h \<and> configured h"
    by (auto simp: factory_initialize_def tx_simps bump_instance_def registers_def cursor_ok_def
        configured_def has_ids_def indexed_def)
  then show ?case unfolding factory_inv_def by (metis list.size(3))
qed

lemma factory_move_inv: "factory_move h h' \<Longrightarrow> factory_inv h \<Longrightarrow> factory_inv h'"
  using factory_move_grows [of h h'] unfolding grows_def factory_inv_def by blast

interpretation factory_machine: invariant factory_init factory_move factory_inv
  by unfold_locales (auto intro: factory_init_inv factory_move_inv)

lemma grows_later: "later factory_move h h' \<Longrightarrow> grows h h'"
  by (induction rule: later.induct) (auto intro: grows_refl grows_trans factory_move_grows)

lemma registers_views:
  assumes "registers cs h"
  shows "factory_stream_count h = Inr (of_nat (length cs), h)"
    and "factory_stream_address n h =
      Inr (if unat n < length cs then Some (snd (snd (cs ! unat n))) else None, h)"
    and "factory_streams_by_sender a off lim h =
      Inr (paginate (indexed (\<lambda>c. fst c = a) cs) off lim, h)"
    and "factory_streams_by_recipient a off lim h =
      Inr (paginate (indexed (\<lambda>c. fst (snd c) = a) cs) off lim, h)"
proof -
  show "factory_stream_count h = Inr (of_nat (length cs), h)"
    "factory_stream_address n h =
      Inr (if unat n < length cs then Some (snd (snd (cs ! unat n))) else None, h)"
    using assms
    by (auto simp: registers_def factory_stream_count_def factory_stream_address_def tx_eval host_eval)
  have stored: "x = None \<and> ids = [] \<or> x = Some (VStruct ids)"
    if "has_ids x" "ids_of x = ids" for x ids
    using that by (auto simp: has_ids_def)
  have "persistent_store h (BySender a) = None \<and> indexed (\<lambda>c. fst c = a) cs = [] \<or>
      persistent_store h (BySender a) = Some (VStruct (indexed (\<lambda>c. fst c = a) cs))"
    using assms by (intro stored) (simp_all add: registers_def)
  then show "factory_streams_by_sender a off lim h =
      Inr (paginate (indexed (\<lambda>c. fst c = a) cs) off lim, h)"
    by (auto simp: factory_streams_by_sender_def tx_eval host_eval)
  have "persistent_store h (ByRecipient a) = None \<and> indexed (\<lambda>c. fst (snd c) = a) cs = [] \<or>
      persistent_store h (ByRecipient a) = Some (VStruct (indexed (\<lambda>c. fst (snd c) = a) cs))"
    using assms by (intro stored) (simp_all add: registers_def)
  then show "factory_streams_by_recipient a off lim h =
      Inr (paginate (indexed (\<lambda>c. fst (snd c) = a) cs) off lim, h)"
    by (auto simp: factory_streams_by_recipient_def tx_eval host_eval)
qed

text \<open>Property C22. The registry is consistent in every reachable state: there is one sequence of
  creations (sender, recipient, address) whose length \<open>stream_count\<close> reads, whose \<open>n\<close>-th address
  \<open>stream_address(n)\<close> reads and nothing from the count on, and of which the two indices page
  through exactly the ids with that sender and with that recipient, in order of creation; and in
  every later state the sequence has only been appended to, so no id ever changes its stream.\<close>

theorem registry_is_consistent:
  assumes "reaches factory_init factory_move h"
  shows "\<exists>cs. length cs < 2 ^ 64 \<and>
    factory_stream_count h = Inr (of_nat (length cs), h) \<and>
    (\<forall>n. factory_stream_address n h =
       Inr (if unat n < length cs then Some (snd (snd (cs ! unat n))) else None, h)) \<and>
    (\<forall>a off lim. factory_streams_by_sender a off lim h =
       Inr (paginate (map of_nat (filter (\<lambda>i. fst (cs ! i) = a) [0 ..< length cs])) off lim, h)) \<and>
    (\<forall>a off lim. factory_streams_by_recipient a off lim h =
       Inr (paginate (map of_nat (filter (\<lambda>i. fst (snd (cs ! i)) = a) [0 ..< length cs])) off lim, h)) \<and>
    (\<forall>h' n. later factory_move h h' \<and> unat n < length cs \<longrightarrow>
       factory_stream_address n h' = Inr (Some (snd (snd (cs ! unat n))), h'))"
proof -
  have "factory_inv h" using assms by (rule factory_machine.inv_reaches)
  then obtain cs where cs: "registers cs h" "cursor_ok (length cs) h"
    by (auto simp: factory_inv_def)
  have "factory_stream_address n h' = Inr (Some (snd (snd (cs ! unat n))), h')"
    if lat: "later factory_move h h'" and n: "unat n < length cs" for h' n
  proof -
    obtain ds where "registers (cs @ ds) h'"
      using grows_later [OF lat] cs unfolding grows_def by blast
    then show ?thesis using n by (simp add: registers_views nth_append)
  qed
  moreover have "length cs < 2 ^ 64" using cs(1) by (simp add: registers_def)
  ultimately show ?thesis
    using registers_views [OF cs(1)] unfolding indexed_def by blast
qed

end
