(* ===== verification/Factory_Safety.thy ===== *)
theory Factory_Safety
  imports Factory_Registry
begin

text \<open>
  The emergency pause, the calls that only the governor may make, the order of the errors of a
  creation, the protocol fee, and where the deposit goes.
\<close>

section \<open>Errors of a creation\<close>

text \<open>The first failing check of \<open>create_stream\<close>, before it touches any state.\<close>

definition create_failure ::
  "('w, 'n) env_scheme \<Rightarrow> 'w factory_host \<Rightarrow> address \<Rightarrow> i128 \<Rightarrow> i128 \<Rightarrow> u64 \<Rightarrow> u64 \<Rightarrow>
     factory_error failure option" where
  "create_failure env h sndr deposit rate t0 t1 =
     (if \<not> has_authorized env sndr then Some (Trap AuthError)
      else if instance_store h Paused = Some (VBool True) then Some (Err ContractPaused)
      else if sint deposit \<le> 0 then Some (Err InvalidDeposit)
      else if sint rate \<le> 0 then Some (Err InvalidRate)
      else if sint deposit < sint rate then Some (Err InsufficientDeposit)
      else if 0 < t1 \<and> t1 \<le> t0 then Some (Err InvalidTimeRange)
      else if t0 < ledger_timestamp env then Some (Err BackdatedStream)
      else if 0 < t1 \<and> 2 ^ 127 \<le> sint rate * (uint t1 - uint t0) then Some (Err ArithmeticOverflow)
      else if 0 < t1 \<and> sint deposit < sint rate * (uint t1 - uint t0)
        then Some (Err InsufficientDeposit)
      else case instance_store h GovernorAddress of
        Some (VAddress governor) \<Rightarrow>
          (case governance_config (world h) governor of
             Inl e \<Rightarrow> Some (Err GovernorNotResponding)
           | Inr c \<Rightarrow>
               if sint (max_rate_per_second c) < sint rate then Some (Err RateExceedsMax)
               else if 0 < t1 \<and> uint t1 - uint t0 < uint (min_duration_seconds c)
                 then Some (Err DurationTooShort)
               else if 0 < t1 \<and> uint (max_duration_seconds c) < uint t1 - uint t0
                 then Some (Err DurationExceedsMax)
               else None)
      | _ \<Rightarrow> Some (Err NotInitialized))"

lemma governance_config_Inl: "governance_config l g = Inl e \<Longrightarrow> e = GovernorNotResponding"
  by (auto simp: governance_config_def split: option.splits sum.splits)

lemma check_stream_terms_eval:
  "check_stream_terms env deposit rate t0 t1 h =
     (if sint deposit \<le> 0 then Inl (Err InvalidDeposit)
      else if sint rate \<le> 0 then Inl (Err InvalidRate)
      else if sint deposit < sint rate then Inl (Err InsufficientDeposit)
      else if 0 < t1 \<and> t1 \<le> t0 then Inl (Err InvalidTimeRange)
      else if t0 < ledger_timestamp env then Inl (Err BackdatedStream)
      else if 0 < t1 \<and> 2 ^ 127 \<le> sint rate * (uint t1 - uint t0) then Inl (Err ArithmeticOverflow)
      else if 0 < t1 \<and> sint deposit < sint rate * (uint t1 - uint t0)
        then Inl (Err InsufficientDeposit)
      else Inr ((), h))"
proof (cases "0 < t1 \<and> t0 < t1 \<and> 0 < sint rate")
  case True
  let ?x = "sint rate * (uint t1 - uint t0)"
  have sub: "checked_sub_u t1 t0 = Some (t1 - t0)" "uint (t1 - t0) = uint t1 - uint t0"
    using checked_sub_time [of t0 t1] True by auto
  have "0 \<le> ?x" using True by (simp add: word_less_alt)
  show ?thesis
  proof (cases "2 ^ 127 \<le> ?x")
    case big: True
    then have "checked_mul_i128 rate (u64_as_i128 (t1 - t0)) = None"
      using sub by (simp add: checked_mul_i128_def i128_of_def i128_fits_def)
    with big True sub show ?thesis
      by (auto simp: check_stream_terms_def tx_eval not_le)
  next
    case False
    then have "i128_fits ?x" using \<open>0 \<le> ?x\<close> by (simp add: i128_fits_def)
    from i128_exists [OF this] obtain x :: i128 where x: "sint x = ?x" ..
    then have "checked_mul_i128 rate (u64_as_i128 (t1 - t0)) = Some x"
      using sub by (simp add: checked_mul_i128_def i128_of_Some_iff)
    with False True sub x show ?thesis
      by (auto simp: check_stream_terms_def tx_eval not_le)
  qed
next
  case False
  then show ?thesis by (auto simp: check_stream_terms_def tx_eval not_le not_less)
qed

lemma enforce_bounds_eval:
  assumes "t1 = 0 \<or> t0 < t1"
  shows "enforce_bounds c rate t0 t1 h =
     (if sint (max_rate_per_second c) < sint rate then Inl (Err RateExceedsMax)
      else if 0 < t1 \<and> uint t1 - uint t0 < uint (min_duration_seconds c)
        then Inl (Err DurationTooShort)
      else if 0 < t1 \<and> uint (max_duration_seconds c) < uint t1 - uint t0
        then Inl (Err DurationExceedsMax)
      else Inr ((), h))"
proof (cases "t1 = 0")
  case True
  then show ?thesis by (simp add: enforce_bounds_def tx_eval)
next
  case False
  then have "t0 < t1" using assms by simp
  from checked_sub_time [OF this] False show ?thesis
    by (simp add: enforce_bounds_def tx_eval word_less_alt word_gt_0)
qed

text \<open>Property C30. The errors of a creation come in a fixed order, and before any state is touched:
  authorization, the pause, the terms (deposit, rate, funding of a second, time range, start in the
  past, overflow, funding of the whole length), then a governor that does not answer and its bounds
  on the rate and on the length.\<close>

theorem create_fails_in_order:
  assumes "configured h" and "create_failure env h sndr deposit rate t0 t1 = Some e"
  shows "factory_create_stream env sndr rcp tok deposit rate t0 t1 clawback h = Inl e"
proof -
  obtain governor where g: "instance_store h GovernorAddress = Some (VAddress governor)"
    using assms(1) by (auto simp: configured_def)
  have paused: "pause_is_paused h = Inr (instance_store h Paused = Some (VBool True), h)"
    using assms(1) by (auto simp: configured_def pause_is_paused_def tx_eval host_eval)
  show ?thesis
  proof (cases "governance_config (world h) governor")
    case (Inl x)
    then have "x = GovernorNotResponding" by (rule governance_config_Inl)
    with Inl assms(2) g paused show ?thesis
      by (auto simp: create_failure_def factory_create_stream_def tx_eval host_eval
          check_stream_terms_eval split: if_splits)
  next
    case (Inr c)
    show ?thesis
    proof (cases "t1 = 0 \<or> t0 < t1")
      case True
      with Inr assms(2) g paused show ?thesis
        by (auto simp: create_failure_def factory_create_stream_def tx_eval host_eval
            check_stream_terms_eval enforce_bounds_eval [OF True] split: if_splits)
    next
      case False
      with Inr assms(2) g paused show ?thesis
        by (auto simp: create_failure_def factory_create_stream_def tx_eval host_eval
            check_stream_terms_eval not_less word_gt_0 split: if_splits)
    qed
  qed
qed

section \<open>The emergency pause\<close>

text \<open>While the factory is paused no stream is created, singly or in a batch: every
  attempt that is authorized fails with \<open>ContractPaused\<close>, whatever its terms, and the others fail
  too; \<open>is_paused\<close> reports it, and pausing again fails with \<open>AlreadyPaused\<close>.\<close>

theorem pause_halts_creation:
  assumes "configured h" and "instance_store h Paused = Some (VBool True)"
  shows "factory_is_paused h = Inr (True, h) \<and>
    factory_create_stream env sndr rcp tok deposit rate t0 t1 clawback h =
      Inl (if has_authorized env sndr then Err ContractPaused else Trap AuthError) \<and>
    (\<exists>e. factory_create_batch_streams env sndr requests clawback h = Inl e) \<and>
    (\<exists>e. factory_pause env h = Inl e)"
proof -
  have create: "factory_create_stream env sndr r tk d rt s0 s1 cb h =
      Inl (if has_authorized env sndr then Err ContractPaused else Trap AuthError)" for r tk d rt s0 s1 cb
    using assms(2) by (simp add: factory_create_stream_def pause_is_paused_def tx_eval host_eval)
  have "\<exists>e. factory_create_batch_streams env sndr requests clawback h = Inl e"
    by (cases requests) (simp_all add: factory_create_batch_streams_def tx_eval create)
  moreover have "\<exists>e. factory_pause env h = Inl e"
    using assms by (auto simp: configured_def factory_pause_def pause_is_paused_def tx_eval host_eval)
  ultimately show ?thesis
    using create assms(2) by (simp add: factory_is_paused_def pause_is_paused_def tx_eval host_eval)
qed

text \<open>Property C31. Only the governor's own address can pause, unpause or change the code of new
  streams: each needs its authorization; a pause that succeeds sets the flag and publishes it, an
  unpause clears it, and none of the three touches the registry, the ledger or anything else but
  the walker's cursor.\<close>

theorem maintenance_needs_governor:
  assumes "instance_store h GovernorAddress = Some (VAddress governor)"
  shows "(factory_pause env h = Inr (u, h') \<longrightarrow>
      has_authorized env governor \<and> factory_is_paused h' = Inr (True, h') \<and>
      persistent_store h' = persistent_store h \<and> world h' = world h \<and>
      event_log h' = event_log h @ [FactoryPaused governor (ledger_timestamp env)] \<and>
      (\<forall>k. k \<notin> {Paused, LastBumpedId} \<longrightarrow> instance_store h' k = instance_store h k)) \<and>
    (factory_unpause env h = Inr (u, h') \<longrightarrow>
      has_authorized env governor \<and> factory_is_paused h' = Inr (False, h') \<and>
      persistent_store h' = persistent_store h \<and> world h' = world h \<and>
      event_log h' = event_log h @ [FactoryUnpaused governor (ledger_timestamp env)] \<and>
      (\<forall>k. k \<notin> {Paused, LastBumpedId} \<longrightarrow> instance_store h' k = instance_store h k)) \<and>
    (factory_upgrade_stream_wasm env hash h = Inr (u, h') \<longrightarrow>
      has_authorized env governor \<and> instance_store h' StreamWasmHash = Some (VBytes hash) \<and>
      persistent_store h' = persistent_store h \<and> world h' = world h \<and> event_log h' = event_log h \<and>
      (\<forall>k. k \<notin> {StreamWasmHash, LastBumpedId} \<longrightarrow> instance_store h' k = instance_store h k))"
proof -
  note unfolds = tx_simps bump_instance_def pause_set_paused_def factory_is_paused_def assms
  show ?thesis
    by (auto simp: factory_pause_def factory_unpause_def factory_upgrade_stream_wasm_def unfolds
        same_but_cursor_def dest!: bump_bucket_frame)
qed

section \<open>The protocol fee\<close>

text \<open>\<open>protocol_fee_bps\<close> always answers: the fee of the governor's live configuration,
  and 30 when no governor is stored or the governor does not answer.\<close>

theorem protocol_fee_answers:
  "factory_protocol_fee_bps (h :: 'w factory_host) =
     (case instance_store h GovernorAddress of
        None \<Rightarrow> Inr (30, h)
      | Some (VAddress governor) \<Rightarrow>
          (case governor_at (world h) governor of
             None \<Rightarrow> Inr (30, h)
           | Some gh \<Rightarrow>
               (case governor_get_config gh of Inl _ \<Rightarrow> Inr (30, h) | Inr (c, _) \<Rightarrow> Inr (fee_bps c, h)))
      | Some _ \<Rightarrow> Inl (Trap ConversionError))"
  by (simp add: factory_protocol_fee_bps_def governance_config_def tx_eval host_eval
      split: option.splits sum.splits stored.splits prod.splits)

section \<open>The deposit\<close>

text \<open>A creation moves exactly the deposit from the sender to the new stream's contract, in the
  stream's token: the factory keeps nothing, and no other balance of any token changes.\<close>

lemma creates_moves_deposit:
  assumes "token_conserves (token_client env)"
    and "creates env sndr rcp tok deposit rate t0 t1 clawback h n h'"
  shows "sint (token_balance (token_client env) (tokens (world h')) tk who) =
    sint (token_balance (token_client env) (tokens (world h)) tk who) +
      (if tk = tok then moved sndr (stream_contract env n) (sint deposit) who else 0)"
proof -
  obtain w1 w2 where w1: "token_transfer (token_client env) (tokens (world h)) tok sndr
      (current_contract_address env) deposit = Some w1"
    and w2: "token_transfer (token_client env) w1 tok (current_contract_address env)
      (stream_contract env n) deposit = Some w2"
    and h': "tokens (world h') = w2"
    using assms(2) by (auto simp: creates_iff)
  show ?thesis
    using token_transfer_balance [OF assms(1) w1] token_transfer_balance [OF assms(1) w2]
    by (simp add: h' moved_def)
qed

section \<open>Maintenance completes\<close>

lemma bump_walk_Cons_eval:
  "bump_walk count cursor (j # js) new_last touched h =
     (let id = saturating_add_u (saturating_add_u cursor 1) (u32_into_u64_saturating (of_nat j)) mod count in
      case persistent_store h (StreamAddr id) of
        None \<Rightarrow> bump_walk count cursor js id touched h
      | Some _ \<Rightarrow>
          (case checked_add_u touched 1 of
             None \<Rightarrow> Inl (Trap ArithmeticPanic)
           | Some t \<Rightarrow> bump_walk count cursor js id t (h\<lparr>ttl_log := ttl_log h @ [address_bump id]\<rparr>)))"
  by (simp add: tx_eval host_eval Let_def address_bump_def split: option.splits)

declare bump_walk.simps(2) [simp del]

lemma bump_walk_completes:
  assumes "unat touched + length js < 2 ^ 32"
  shows "\<exists>l t h'. bump_walk count cursor js new_last touched h = Inr ((l, t), h') \<and>
     length (ttl_log h') \<le> length (ttl_log h) + length js"
  using assms
proof (induction js arbitrary: new_last touched h)
  case Nil
  then show ?case by (simp add: tx_eval)
next
  case (Cons j js)
  define id where "id = saturating_add_u (saturating_add_u cursor 1) (u32_into_u64_saturating (of_nat j)) mod count"
  note unfold = bump_walk_Cons_eval [of count cursor j js new_last touched h, unfolded Let_def, folded id_def]
  show ?case
  proof (cases "persistent_store h (StreamAddr id)")
    case None
    obtain l t h' where "bump_walk count cursor js id touched h = Inr ((l, t), h')"
      and "length (ttl_log h') \<le> length (ttl_log h) + length js"
      using Cons.IH [of touched id h] Cons.prems by auto
    then show ?thesis using None by (simp add: unfold)
  next
    case (Some v)
    have "unat (touched + 1) = unat touched + 1"
      using Cons.prems unat_add_lem [of touched 1] by simp
    moreover have "checked_add_u touched 1 = Some (touched + 1)"
    proof -
      have "unat touched < 4294967295" using Cons.prems by simp
      then have "uint touched < 4294967295" by (simp only: uint_nat of_nat_less_numeral_iff)
      then show ?thesis by (simp add: checked_add_u_def)
    qed
    moreover obtain l t h' where
      "bump_walk count cursor js id (touched + 1) (h\<lparr>ttl_log := ttl_log h @ [address_bump id]\<rparr>) = Inr ((l, t), h')"
      and "length (ttl_log h') \<le> length (ttl_log (h\<lparr>ttl_log := ttl_log h @ [address_bump id]\<rparr>)) + length js"
      using Cons.IH [of "touched + 1" id "h\<lparr>ttl_log := ttl_log h @ [address_bump id]\<rparr>"] Cons.prems
        calculation by auto
    ultimately show ?thesis using Some by (simp add: unfold)
  qed
qed

lemma bump_bucket_completes:
  assumes "factory_inv h"
  shows "\<exists>t h'. bump_persistent_bucket h = Inr (t, h') \<and> length (ttl_log h') \<le> length (ttl_log h) + 8"
proof -
  obtain cs where cs: "registers cs h" "cursor_ok (length cs) h"
    using assms by (auto simp: factory_inv_def)
  then obtain c where count: "instance_store h StreamCount = Some (VU64 c)" by (simp add: registers_def)
  obtain x where cursor: "instance_store h LastBumpedId = None \<and> x = 0 \<or>
      instance_store h LastBumpedId = Some (VU64 x)"
    using cs(2) by (auto simp: cursor_ok_def)
  have eight: "length [0 ..< unat BATCH_LIMIT] = 8" by (simp add: BATCH_LIMIT_def)
  obtain l t h1 where walk: "bump_walk c x [0 ..< unat BATCH_LIMIT] x 0 h = Inr ((l, t), h1)"
    and log: "length (ttl_log h1) \<le> length (ttl_log h) + 8"
    using bump_walk_completes [of 0 "[0 ..< unat BATCH_LIMIT]" c x x h] unfolding eight by auto
  show ?thesis
    using cursor walk log count
    by (auto simp: bump_persistent_bucket_def tx_eval host_eval Let_def unwrap_or_def)
qed

lemma factory_inv_frame:
  assumes "factory_inv h" and "instance_store h' = instance_store h"
    and "persistent_store h' = persistent_store h"
  shows "factory_inv h'"
  using assms registers_frame [of _ h h'] unfolding factory_inv_def cursor_ok_def configured_def by auto

text \<open>Property C32. Maintenance always completes: in every reachable factory, when the governor's address
  authorizes the call, \<open>upgrade_stream_wasm\<close> succeeds, and of \<open>pause\<close> and \<open>unpause\<close> exactly the one
  that changes the flag does; whatever the number of streams, the walker makes at most eight of the
  nine requests for time to live, so a call's work is bounded.\<close>

theorem maintenance_completes:
  assumes "reaches factory_init factory_move h"
    and "instance_store h GovernorAddress = Some (VAddress governor)" and "has_authorized env governor"
  shows "\<exists>p u1 u2 u3 h1 h2 h3. factory_is_paused h = Inr (p, h) \<and>
    factory_upgrade_stream_wasm env hash h = Inr (u1, h1) \<and>
    length (ttl_log h1) \<le> length (ttl_log h) + 9 \<and>
    factory_pause env h = (if p then Inl (Err AlreadyPaused) else Inr (u2, h2)) \<and>
    factory_unpause env h = (if p then Inr (u3, h3) else Inl (Err NotPaused)) \<and>
    length (ttl_log (if p then h3 else h2)) \<le> length (ttl_log h) + 9"
proof -
  have inv: "factory_inv h" using assms(1) by (rule factory_machine.inv_reaches)
  have "\<exists>p. factory_is_paused h = Inr (p, h)"
  proof -
    consider "instance_store h Paused = None" | b where "instance_store h Paused = Some (VBool b)"
      using inv by (auto simp: factory_inv_def configured_def)
    then show ?thesis
      by cases (auto simp: factory_is_paused_def pause_is_paused_def tx_eval host_eval intro: exI [of _ False])
  qed
  then obtain p where p: "factory_is_paused h = Inr (p, h)" by blast
  let ?h = "h\<lparr>ttl_log := ttl_log h @ [(None, THRESHOLD, EXTEND_TO)]\<rparr>"
  have "factory_inv ?h" using inv by (rule factory_inv_frame) simp_all
  from bump_bucket_completes [OF this] obtain t h' where walk: "bump_persistent_bucket ?h = Inr (t, h')"
    and log: "length (ttl_log h') \<le> length (ttl_log h) + 9"
    by auto
  have paused: "pause_is_paused h = Inr (p, h)" using p by (simp add: factory_is_paused_def)
  note steps = tx_eval host_eval assms(2,3) bump_instance_def walk paused pause_set_paused_def
  show ?thesis
    using p log
    by (simp add: factory_upgrade_stream_wasm_def factory_pause_def factory_unpause_def steps)
qed

end
