(* ===== verification/Factory_Interfaces.thy ===== *)
theory Factory_Interfaces
  imports Factory_Safety Stream_Solvency
begin

text \<open>
  What the factory relies on of the two contracts it calls, as interfaces, with the facts that
  follow for the factory, and the proofs that the models of the governor and of the stream provide
  them.
\<close>

section \<open>The governor, as the factory sees it\<close>

definition config_sound :: "governor_config \<Rightarrow> bool" where
  "config_sound c \<longleftrightarrow>
     uint (fee_bps c) \<le> 10000 \<and> min_duration_seconds c \<noteq> 0 \<and> max_duration_seconds c \<noteq> 0 \<and>
     0 < sint (max_rate_per_second c) \<and>
     i128_fits (sint (max_rate_per_second c) * uint (min_duration_seconds c))"

locale config_provider =
  fixes answer :: "'g \<Rightarrow> governor_config option"
    and in_use :: "'g \<Rightarrow> bool"
  assumes answers: "in_use g \<Longrightarrow> \<exists>c. answer g = Some c \<and> config_sound c"
begin

text \<open>An open-ended stream at the least rate is within the bounds of any governor in use.\<close>

lemma some_stream_within_bounds:
  "in_use g \<Longrightarrow> \<exists>c. answer g = Some c \<and> bounds_ok c 1 t0 0"
  using answers [of g] by (auto simp: bounds_ok_def config_sound_def)

lemma bounded_stream_has_length:
  assumes "in_use g" and "answer g = Some c" and "bounds_ok c rate t0 t1" and "t1 \<noteq> 0"
  shows "uint t0 < uint t1"
proof -
  have "min_duration_seconds c \<noteq> 0" using answers [OF assms(1)] assms(2) by (auto simp: config_sound_def)
  then have "0 < uint (min_duration_seconds c)" by (simp add: uint_pos_iff)
  then show ?thesis using assms(3,4) by (simp add: bounds_ok_def)
qed

lemma fee_at_most_everything: "in_use g \<Longrightarrow> answer g = Some c \<Longrightarrow> uint (fee_bps c) \<le> 10000"
  using answers [of g] by (auto simp: config_sound_def)

end

definition try_config :: "'w governor_host \<Rightarrow> governor_config option" where
  "try_config gh = (case governor_get_config gh of Inl _ \<Rightarrow> None | Inr (c, _) \<Rightarrow> Some c)"

lemma governor_provides_config:
  assumes "governor_inv gh"
  shows "\<exists>c. try_config gh = Some c \<and> config_sound c"
proof -
  obtain g where g: "instance_store gh = governor_store g" "governed g"
    using assms by (auto simp: governor_inv_def)
  have "try_config gh = Some (config_of g)"
    using config_load_store [OF g(1)] by (simp add: try_config_def)
  moreover have "config_sound (config_of g)"
    using g(2) by (simp add: governed_def config_sound_def config_of_def governor_config.truncate_def
        word_le_def)
  ultimately show ?thesis by blast
qed

interpretation live_governor: config_provider try_config governor_inv
  by unfold_locales (rule governor_provides_config)

lemma governance_config_try:
  "governor_at l a = Some gh \<Longrightarrow>
   governance_config l a = (case try_config gh of None \<Rightarrow> Inl GovernorNotResponding | Some c \<Rightarrow> Inr c)"
  by (simp add: governance_config_def try_config_def split: sum.splits)

section \<open>The stream, as the factory sees it\<close>

text \<open>
  \<open>started i sh\<close> says that the instance \<open>sh\<close> holds the stream \<open>i\<close> at its beginning.
\<close>

locale stream_provider =
  fixes initialize :: "address \<Rightarrow> address \<Rightarrow> address \<Rightarrow> i128 \<Rightarrow> u64 \<Rightarrow> u64 \<Rightarrow> bool \<Rightarrow> (unit, unit) stream_tx"
    and started :: "stream_info \<Rightarrow> unit stream_host \<Rightarrow> bool"
  assumes accepts: "0 < sint rate \<Longrightarrow> t1 = 0 \<or> t0 < t1 \<Longrightarrow>
      \<exists>sh. initialize sndr rcp tok rate t0 t1 clawback fresh_host = Inr ((), sh)"
    and starts: "initialize sndr rcp tok rate t0 t1 clawback fresh_host = Inr ((), sh) \<Longrightarrow>
      started (initial_info sndr rcp tok rate t0 t1 clawback) sh"
begin

text \<open>Valid terms are never refused by the new stream.\<close>

lemma terms_accepted:
  assumes "terms_ok now deposit rate t0 t1"
  obtains sh where "initialize sndr rcp tok rate t0 t1 clawback fresh_host = Inr ((), sh)"
    and "started (initial_info sndr rcp tok rate t0 t1 clawback) sh"
  using assms accepts [of rate t1 t0 sndr rcp tok clawback] starts by (auto simp: terms_ok_def)

lemma created_is_started:
  assumes "creates env sndr rcp tok deposit rate t0 t1 clawback h n h'"
    and "\<And>hash. instance_store h StreamWasmHash = Some (VBytes hash) \<Longrightarrow>
      wasm_initialize env hash = initialize"
  shows "\<exists>sh. stream_at (world h') (stream_contract env n) = Some sh \<and>
    started (initial_info sndr rcp tok rate t0 t1 clawback) sh"
  using assms by (auto simp: creates_iff intro: starts)

end

definition stream_started :: "stream_info \<Rightarrow> unit stream_host \<Rightarrow> bool" where
  "stream_started i sh \<longleftrightarrow> holds i 0 (instance_store sh) \<and> event_log sh = [] \<and> stream_init (0, sh)"

lemma stream_initialize_fresh:
  assumes "stream_initialize sndr rcp tok rate t0 t1 clawback fresh_host = Inr ((), sh)"
  shows "stream_started (initial_info sndr rcp tok rate t0 t1 clawback) sh"
proof -
  have "stream_init (0, sh)"
    by (rule stream_initI [OF _ _ assms]) (simp_all add: fresh_host_def)
  then show ?thesis
    using assms by (auto simp: stream_started_def stream_initialize_Inr_iff holds_def fresh_host_def)
qed

interpretation drip_stream: stream_provider stream_initialize stream_started
  by unfold_locales
    (auto simp: stream_initialize_Inr_iff fresh_host_def intro: stream_initialize_fresh)

section \<open>A stream on the ledger\<close>

text \<open>The host as a deployed stream sees it: its own storage, and the balances of the ledger.\<close>

definition on_ledger :: "unit stream_host \<Rightarrow> 'w \<Rightarrow> 'w stream_host" where
  "on_ledger sh w = \<lparr>instance_store = instance_store sh, persistent_store = persistent_store sh,
     ttl_log = ttl_log sh, event_log = event_log sh, world = w\<rparr>"

lemma on_ledger_simps [simp]:
  "instance_store (on_ledger sh w) = instance_store sh"
  "event_log (on_ledger sh w) = event_log sh"
  "world (on_ledger sh w) = w"
  by (simp_all add: on_ledger_def)

lemma created_solvent:
  assumes "token_conserves (token_client env)"
    and "\<And>hash. instance_store h StreamWasmHash = Some (VBytes hash) \<Longrightarrow> wasm_is_stream env hash"
    and "creates env sndr rcp tok deposit rate t0 t1 False h n h'" and "t1 \<noteq> 0"
    and "stream_contract env n \<noteq> sndr"
  obtains sh where "stream_at (world h') (stream_contract env n) = Some sh"
    and "solvent (token_client env) (stream_contract env n) (now, on_ledger sh (tokens (world h')))"
    and "holds (initial_info sndr rcp tok rate t0 t1 False) 0 (instance_store sh)"
proof -
  let ?T = "token_client env" and ?addr = "stream_contract env n"
  let ?i = "initial_info sndr rcp tok rate t0 t1 False"
  obtain sh where sh: "stream_at (world h') ?addr = Some sh" and "stream_started ?i sh"
    using drip_stream.created_is_started [OF assms(3)] assms(2) by (auto simp: wasm_is_stream_def)
  then have holds: "holds ?i 0 (instance_store sh)" by (simp add: stream_started_def)
  obtain w1 where rate: "0 < sint rate" and t: "t0 < t1"
    and funds: "sint rate * (uint t1 - uint t0) \<le> sint deposit"
    and w1: "token_transfer ?T w1 tok (current_contract_address env) ?addr deposit =
      Some (tokens (world h'))"
    using assms(3,4) by (auto simp: creates_iff terms_ok_def)
  have "sint deposit \<le> sint (token_balance ?T (tokens (world h')) tok ?addr)"
  proof (cases "current_contract_address env = ?addr")
    case False
    then show ?thesis
      using token_transfer_balance [OF assms(1) w1, of tok ?addr]
        token_balance_nonneg [OF assms(1), of w1 tok ?addr] by simp
  next
    case True
    obtain w0 where w0: "token_transfer ?T (tokens (world h)) tok sndr ?addr deposit = Some w0"
      and same: "token_transfer ?T w0 tok ?addr ?addr deposit = Some (tokens (world h'))"
      using assms(3) True by (auto simp: creates_iff)
    then show ?thesis
      using token_transfer_balance [OF assms(1) w0, of tok ?addr]
        token_transfer_balance [OF assms(1) same, of tok ?addr]
        token_balance_nonneg [OF assms(1), of "tokens (world h)" tok ?addr] assms(5)
      by simp
  qed
  then have "funded ?T ?addr ?i (tokens (world h'))"
    using assms(4,5) funds by (simp add: funded_def remaining_due_def duration_def)
      (simp add: initial_info_def)
  moreover have "info_inv now ?i" using rate t by (intro initial_info_inv) auto
  ultimately have solvent: "solvent ?T ?addr (now, on_ledger sh (tokens (world h')))"
    using assms(1) holds by (auto simp: solvent_def)
  show ?thesis by (rule that [OF sh solvent holds])
qed

end
