(* ===== verification/Governor_Witness.thy ===== *)
theory Governor_Witness
  imports Governor_Machine
begin

text \<open>
  A concrete governor, just initialized by account 1, on which the hypotheses of the properties of
  the governor hold.
\<close>

definition wit_governor :: governor_state where
  "wit_governor = initial_governor 1 2 3"

definition wit_governor_host :: "unit governor_host" where
  "wit_governor_host = \<lparr>instance_store = governor_store wit_governor, persistent_store = Map.empty,
     ttl_log = [(None, GOVERNOR_TTL_THRESHOLD, GOVERNOR_TTL_EXTEND_TO)], event_log = [], world = ()\<rparr>"

definition wit_governor_env :: "unit env" where
  "wit_governor_env = \<lparr>ledger_timestamp = 0, current_contract_address = 4,
     has_authorized = (\<lambda>a. a = 1),
     token_client = \<lparr>token_balance = (\<lambda>_ _ _. 0), token_transfer = (\<lambda>_ _ _ _ _. None)\<rparr>\<rparr>"

lemma wit_governor_store: "instance_store wit_governor_host = governor_store wit_governor"
  by (simp add: wit_governor_host_def)

lemma wit_governed: "governed wit_governor"
  by (simp add: wit_governor_def initial_governed)

lemma wit_governor_simps [simp]:
  "holders wit_governor r = {1}" "max_duration_seconds wit_governor = 315360000"
  "max_rate_per_second wit_governor = 1000000000000000"
  "fee_bps wit_governor = 30"
  "has_authorized wit_governor_env = (\<lambda>a. a = 1)"
  by (simp_all add: wit_governor_def initial_governor_def wit_governor_env_def)

theorem governor_exec_refines_witness:
  "governor_exec wit_governor_env 1 (SetFeeBps 10001) wit_governor_host = Inl (Err InvalidParam)"
  using governor_exec_refines [OF wit_governor_store wit_governed, of wit_governor_env 1 "SetFeeBps 10001"]
  by (simp add: governor_next_def)

lemma wit_governor_init: "governor_init wit_governor_host"
proof (rule governor_initI)
  let ?h = "\<lparr>instance_store = Map.empty, persistent_store = Map.empty, ttl_log = [], event_log = [],
    world = ()\<rparr>"
  show "governor_initialize 1 2 3 ?h = Inr ((), wit_governor_host)"
    using initial_store [of 2 3 1]
    by (simp add: governor_initialize_def governor_ttl_bump_def role_grant_def role_has_role_def
        role_admin_count_def tx_eval host_eval checked_add_u_def role_storage_key_def
        wit_governor_host_def wit_governor_def)
qed simp

theorem reachable_governors_are_sound_witness:
  "\<exists>c. governor_get_config wit_governor_host = Inr (c, wit_governor_host) \<and> uint (fee_bps c) \<le> 10000"
proof -
  have "reaches governor_init governor_move wit_governor_host"
    using wit_governor_init by (rule reaches_init)
  from reachable_governors_are_sound [OF this] show ?thesis by blast
qed

theorem governor_powers_are_separate_witness:
  "\<exists>h' g'. governor_exec wit_governor_env 1 (SetFeeBps 50) wit_governor_host = Inr ((), h') \<and>
     instance_store h' = governor_store g' \<and> factory_address g' = factory_address wit_governor"
proof -
  obtain h' where h': "governor_exec wit_governor_env 1 (SetFeeBps 50) wit_governor_host = Inr ((), h')"
    by (simp add: governor_set_fee_bps_def require_role_eval [OF wit_governor_store] tx_eval host_eval)
  from governor_powers_are_separate [OF wit_governor_store wit_governed this] h' show ?thesis by blast
qed

theorem transfer_authority_outcome_witness:
  "governor_transfer_authority wit_governor_env 1 1 wit_governor_host = Inl (Err LastAdmin) \<and>
   (\<exists>g' h'. governor_transfer_authority wit_governor_env 1 7 wit_governor_host = Inr ((), h') \<and>
      instance_store h' = governor_store g' \<and> holders g' Admin = insert 7 {1} - {1})"
  using transfer_authority_outcome [OF wit_governor_store wit_governed, of wit_governor_env 1 1]
    transfer_authority_outcome [OF wit_governor_store wit_governed, of wit_governor_env 1 7]
  by simp blast

theorem duration_bounds_can_cross_witness:
  "\<exists>c h'. governor_set_min_duration wit_governor_env 1 400000000 wit_governor_host = Inr ((), h') \<and>
     governor_get_config h' = Inr (c, h') \<and> max_duration_seconds c < min_duration_seconds c"
  using duration_bounds_can_cross [OF wit_governor_store wit_governed, of wit_governor_env 1 400000000]
  by (simp add: i128_fits_def)

end
