(* ===== verification/Factory_Signature.thy ===== *)
theory Factory_Signature
  imports Factory_Types
begin

text \<open>
  \<open>contracts/factory/src/signature.rs\<close>: the domain-separated digest of a stream creation signed
  off chain. \<open>sha256\<close> and \<open>ed25519_verify\<close> are the host's and are parameters.
\<close>

text \<open>The bytes of \<open>Conduit Stream Creation v1\<close>.\<close>

definition DOMAIN_SEPARATOR_PREFIX :: "u8 list" where
  "DOMAIN_SEPARATOR_PREFIX =
     [67, 111, 110, 100, 117, 105, 116, 32, 83, 116, 114, 101, 97, 109, 32,
      67, 114, 101, 97, 116, 105, 111, 110, 32, 118, 49]"

text \<open>A \<open>BytesN<32>\<close> is a byte list of length 32 (\<open>payload_sized\<close>).\<close>

record signature_payload =
  payload_sender :: "u8 list"
  payload_recipient :: "u8 list"
  payload_token :: "u8 list"
  payload_deposit :: i128
  payload_rate_per_sec :: i128
  payload_start_time :: u64
  payload_end_time :: u64
  payload_clawback :: bool
  payload_nonce :: u64
  payload_deadline :: u64
  payload_network_passphrase :: "u8 list"

definition encode_bool :: "bool \<Rightarrow> u8" where
  "encode_bool val = (if val then 1 else 0)"

definition encode_i128 :: "i128 \<Rightarrow> u8 list" where
  "encode_i128 = i128_to_be_bytes"

definition encode_u64 :: "u64 \<Rightarrow> u8 list" where
  "encode_u64 = u64_to_be_bytes"

text \<open>The bytes that the struct hash is taken of.\<close>

definition struct_input :: "signature_payload \<Rightarrow> u8 list" where
  "struct_input p =
     payload_sender p @ payload_recipient p @ payload_token p @
     encode_i128 (payload_deposit p) @ encode_i128 (payload_rate_per_sec p) @
     encode_u64 (payload_start_time p) @ encode_u64 (payload_end_time p) @
     [encode_bool (payload_clawback p)] @
     encode_u64 (payload_nonce p) @ encode_u64 (payload_deadline p) @
     payload_network_passphrase p"

definition hash_payload :: "(u8 list \<Rightarrow> u8 list) \<Rightarrow> u8 list \<Rightarrow> signature_payload \<Rightarrow> u8 list" where
  "hash_payload sha factory_addr p =
     (let domain_hash = sha (DOMAIN_SEPARATOR_PREFIX @ factory_addr);
          struct_hash = sha (struct_input p) in
      sha (domain_hash @ struct_hash))"

definition verify_signature ::
  "(u8 list \<Rightarrow> u8 list) \<Rightarrow> (u8 list \<Rightarrow> u8 list \<Rightarrow> u8 list \<Rightarrow> bool) \<Rightarrow> u8 list \<Rightarrow>
     signature_payload \<Rightarrow> u8 list \<Rightarrow> u8 list \<Rightarrow> ('h, factory_error, unit) tx" where
  "verify_signature sha ed25519 factory_addr p public_key signature =
     (let digest = hash_payload sha factory_addr p in
      if ed25519 public_key digest signature then return () else fail (Trap SignatureFailure))"

section \<open>What a digest binds\<close>

definition collides :: "(u8 list \<Rightarrow> u8 list) \<Rightarrow> u8 list \<Rightarrow> u8 list \<Rightarrow> bool" where
  "collides sha x y \<longleftrightarrow> x \<noteq> y \<and> sha x = sha y"

definition payload_sized :: "signature_payload \<Rightarrow> bool" where
  "payload_sized p \<longleftrightarrow> length (payload_sender p) = 32 \<and> length (payload_recipient p) = 32 \<and>
     length (payload_token p) = 32"

lemma length_encode [simp]: "length (encode_i128 a) = 16" "length (encode_u64 t) = 8"
  by (simp_all add: encode_i128_def encode_u64_def)

lemma encode_inject:
  "encode_i128 a = encode_i128 b \<longleftrightarrow> a = b"
  "encode_u64 t = encode_u64 u \<longleftrightarrow> t = u"
  "encode_bool x = encode_bool y \<longleftrightarrow> x = y"
  by (auto simp: encode_i128_def encode_u64_def encode_bool_def
      dest: i128_to_be_bytes_inject u64_to_be_bytes_inject split: if_splits)

lemma struct_input_inject:
  assumes "struct_input p = struct_input q" and "payload_sized p" and "payload_sized q"
  shows "p = (q :: signature_payload)"
  using assms by (cases p; cases q) (simp add: struct_input_def payload_sized_def encode_inject)

text \<open>Property C39. A digest binds everything: two signed payloads of two factories with the same
  digest are the same payload of the same factory, or one of three given pairs of different inputs
  collides under the hash function. So a signature cannot
  be replayed with other parameters, another nonce, deadline or network, or at another factory.\<close>

theorem digest_binds_payload:
  assumes "hash_payload sha fa p = hash_payload sha fb q"
    and "length fa = 32" and "length fb = 32" and "payload_sized p" and "payload_sized q"
    and "\<forall>x. length (sha x) = 32"
  shows "fa = fb \<and> p = q \<or>
    collides sha (DOMAIN_SEPARATOR_PREFIX @ fa) (DOMAIN_SEPARATOR_PREFIX @ fb) \<or>
    collides sha (struct_input p) (struct_input q) \<or>
    collides sha (sha (DOMAIN_SEPARATOR_PREFIX @ fa) @ sha (struct_input p))
      (sha (DOMAIN_SEPARATOR_PREFIX @ fb) @ sha (struct_input q))"
proof -
  let ?da = "DOMAIN_SEPARATOR_PREFIX @ fa" and ?db = "DOMAIN_SEPARATOR_PREFIX @ fb"
  let ?sp = "struct_input p" and ?sq = "struct_input q"
  have digests: "sha (sha ?da @ sha ?sp) = sha (sha ?db @ sha ?sq)"
    using assms(1) by (simp add: hash_payload_def Let_def)
  have "sha ?da @ sha ?sp = sha ?db @ sha ?sq \<longleftrightarrow> sha ?da = sha ?db \<and> sha ?sp = sha ?sq"
    using assms(6) by simp
  moreover have "?sp = ?sq \<longleftrightarrow> p = q" using assms(4,5) by (auto dest: struct_input_inject)
  ultimately show ?thesis using digests by (auto simp: collides_def)
qed

text \<open>Verification accepts exactly the signatures that the host accepts over the digest;
  a signature it rejects traps, so the error code \<open>InvalidSignature\<close> is never returned.\<close>

theorem verify_signature_result:
  "verify_signature sha ed25519 fa p pk sig h =
     (if ed25519 pk (hash_payload sha fa p) sig then Inr ((), h) else Inl (Trap SignatureFailure)) \<and>
   verify_signature sha ed25519 fa p pk sig h \<noteq> Inl (Err InvalidSignature)"
  by (simp add: verify_signature_def tx_eval Let_def)

end
