(* ===== verification/Batch_Processor.thy ===== *)
theory Batch_Processor
  imports Soroban_Host
begin

text \<open>
  \<open>src/src/batch_transfer_processor.rs\<close>: a checked sum of a batch of amounts under a stored lock.
  The \<open>Result\<close> is a value here, with the state that the function leaves behind on each branch, so
  that what it does with its lock can be stated on the error branches too.
\<close>

datatype processor_error = ProcessorLocked | CalculationOverflow | ProcessorBatchTooLarge

fun processor_error_code :: "processor_error \<Rightarrow> nat" where
  "processor_error_code ProcessorLocked = 2001"
| "processor_error_code CalculationOverflow = 2002"
| "processor_error_code ProcessorBatchTooLarge = 2003"

datatype processor_key = B_Lock

type_synonym ('w, 'err, 'a) processor_tx = "((processor_key, unit stored, unit, 'w) host, 'err, 'a) tx"

text \<open>The loop over the amounts: the total, or nothing when a sum does not fit in 64 bits.\<close>

fun checked_total :: "u64 \<Rightarrow> u64 list \<Rightarrow> u64 option" where
  "checked_total acc [] = Some acc"
| "checked_total acc (amount # amounts) =
     (case checked_add_u acc amount of
        None \<Rightarrow> None
      | Some new_total \<Rightarrow> checked_total new_total amounts)"

definition process_batch :: "u64 list \<Rightarrow> ('w, 'err, processor_error + u64) processor_tx" where
  "process_batch amounts =
     bind (instance_get as_bool B_Lock) (\<lambda>x.
     if unwrap_or x False then return (Inl ProcessorLocked)
     else
       bind (instance_set B_Lock (VBool True)) (\<lambda>_.
       if 100 < length amounts then
         bind (instance_set B_Lock (VBool False)) (\<lambda>_. return (Inl ProcessorBatchTooLarge))
       else
         case checked_total 0 amounts of
           None \<Rightarrow> bind (instance_set B_Lock (VBool False)) (\<lambda>_. return (Inl CalculationOverflow))
         | Some s \<Rightarrow> bind (instance_set B_Lock (VBool False)) (\<lambda>_. return (Inr s))))"

lemma checked_total_Some_iff:
  "checked_total t xs = Some r \<longleftrightarrow> uint r = uint t + sum_list (map uint xs)"
proof (induction xs arbitrary: t)
  case Nil
  then show ?case by (auto simp: word_uint_eq_iff)
next
  case (Cons x xs)
  have pos: "0 \<le> sum_list (map uint xs)" by (rule sum_list_nonneg) auto
  show ?case
  proof (cases "checked_add_u t x")
    case None
    then have "2 ^ 64 \<le> uint t + uint x" by (simp add: checked_add_u_None_iff)
    then have "uint r \<noteq> uint t + (uint x + sum_list (map uint xs))"
      using pos uint_u64_range [of r] by linarith
    then show ?thesis using None by simp
  next
    case (Some y)
    then have "uint y = uint t + uint x" by (simp add: checked_add_u_Some_iff)
    then show ?thesis using Some by (simp add: Cons.IH add.assoc)
  qed
qed

lemma checked_total_None_iff:
  "checked_total t xs = None \<longleftrightarrow> 2 ^ 64 \<le> uint t + sum_list (map uint xs)"
proof -
  let ?s = "uint t + sum_list (map uint xs)"
  have pos: "0 \<le> ?s" by (intro add_nonneg_nonneg sum_list_nonneg) auto
  have "uint (word_of_int ?s :: u64) = ?s" if "?s < 2 ^ 64"
    using that pos by (simp add: word_of_int_inverse)
  moreover have "uint r < 2 ^ 64" for r :: u64 by (rule uint_u64_range)
  ultimately show ?thesis
    using checked_total_Some_iff [of t xs] by (metis not_le option.exhaust option.distinct(1))
qed

text \<open>Property C40. \<open>process_batch\<close> on every branch: locked, it refuses and changes nothing; otherwise
  more than a hundred amounts, then a sum of 64 bits or more is the error, and else the result is the
  exact sum; and on each of these the lock is free afterwards and nothing else has changed.\<close>

theorem process_batch_result:
  assumes "instance_store h B_Lock \<in> {None, Some (VBool True), Some (VBool False)}"
  shows "process_batch amounts h =
    (let s = sum_list (map uint amounts);
         released = h\<lparr>instance_store := (instance_store h)(B_Lock \<mapsto> VBool False)\<rparr> in
     if instance_store h B_Lock = Some (VBool True) then Inr (Inl ProcessorLocked, h)
     else if 100 < length amounts then Inr (Inl ProcessorBatchTooLarge, released)
     else if 2 ^ 64 \<le> s then Inr (Inl CalculationOverflow, released)
     else Inr (Inr (word_of_int s), released))"
proof (cases "checked_total 0 amounts")
  case None
  then have "2 ^ 64 \<le> sum_list (map uint amounts)" by (simp add: checked_total_None_iff)
  with None assms show ?thesis by (auto simp: process_batch_def tx_eval host_eval Let_def)
next
  case (Some r)
  then have r: "uint r = sum_list (map uint amounts)" by (simp add: checked_total_Some_iff)
  then have "\<not> 2 ^ 64 \<le> sum_list (map uint amounts)" using uint_u64_range [of r] by linarith
  moreover have "r = word_of_int (sum_list (map uint amounts))" by (simp flip: r)
  ultimately show ?thesis using Some assms
    by (auto simp: process_batch_def tx_eval host_eval Let_def)
qed

end
