(* ===== verification/Factory_Witness.thy ===== *)
theory Factory_Witness
  imports Factory_Interfaces Governor_Witness Factory_Signature Batch_Processor
begin

text \<open>
  A concrete factory with a governor in use and a token on which the hypotheses of the properties of
  the factory hold.
\<close>

text \<open>The concrete hash pads and cuts to 32 bytes; a contract's address is 100 plus its id's last byte.\<close>

definition wit_sha :: "u8 list \<Rightarrow> u8 list" where
  "wit_sha x = take 32 (x @ replicate 32 0)"

definition wit_factory_env :: "balance_table factory_env" where
  "wit_factory_env = \<lparr>ledger_timestamp = 10, current_contract_address = 20,
     has_authorized = (\<lambda>_. True), token_client = ledger_token,
     sha256 = wit_sha, contract_id = (\<lambda>a salt. 100 + unat (salt ! 7)),
     wasm_initialize = (\<lambda>_. stream_initialize)\<rparr>"

definition wit_ledger :: "balance_table ledger" where
  "wit_ledger = \<lparr>tokens = (\<lambda>tk who. if who = 1 then 1000000 else 0),
     governor_at = [30 \<mapsto> wit_governor_host], stream_at = Map.empty\<rparr>"

definition wit_factory :: "balance_table factory_host" where
  "wit_factory = \<lparr>instance_store = [StreamWasmHash \<mapsto> VBytes [1], GovernorAddress \<mapsto> VAddress 30,
       StreamCount \<mapsto> VU64 0],
     persistent_store = Map.empty, ttl_log = [(None, THRESHOLD, EXTEND_TO)], event_log = [],
     world = wit_ledger\<rparr>"

lemma wit_factory_init: "factory_init wit_factory"
proof (rule factory_initI)
  let ?h = "\<lparr>instance_store = Map.empty, persistent_store = Map.empty, ttl_log = [], event_log = [],
    world = wit_ledger\<rparr>"
  show "factory_initialize [1] 30 ?h = Inr ((), wit_factory)"
    by (simp add: factory_initialize_def bump_instance_def tx_eval host_eval wit_factory_def)
qed simp_all

lemma wit_registers: "registers [] wit_factory"
  by (simp add: registers_def wit_factory_def has_ids_def indexed_def)

lemma wit_configured: "configured wit_factory"
  by (simp add: configured_def wit_factory_def)

lemma wit_factory_env_simps [simp]:
  "ledger_timestamp wit_factory_env = 10" "current_contract_address wit_factory_env = 20"
  "has_authorized wit_factory_env = (\<lambda>_. True)" "token_client wit_factory_env = ledger_token"
  "wasm_initialize wit_factory_env = (\<lambda>_. stream_initialize)"
  by (simp_all add: wit_factory_env_def)

lemma wit_governor_answers: "governance_config wit_ledger 30 = Inr (config_of wit_governor)"
  by (simp add: governance_config_def wit_ledger_def config_load_store [OF wit_governor_store])

lemma wit_contract: "stream_contract wit_factory_env 0 = 100"
  by (simp add: stream_contract_def wit_factory_env_def wit_sha_def u64_to_be_bytes_def be_bytes_def
      upt_rec eval_nat_numeral)

text \<open>A stream of rate 1 from 10 to 10010, with a deposit of 10000.\<close>

lemma wit_creates:
  "\<exists>h'. creates wit_factory_env 1 2 3 10000 1 10 10010 False wit_factory 0 h'"
proof -
  let ?w = "tokens wit_ledger"
  obtain w1 where w1: "ledger_transfer ?w 3 1 20 10000 = Some w1"
    by (simp add: ledger_transfer_def wit_ledger_def)
  have "uint (w1 3 20) = 10000" "uint (w1 3 100) = 0"
    using ledger_transfer_balance [OF w1, of 3 20] ledger_transfer_balance [OF w1, of 3 100]
    by (simp_all add: wit_ledger_def)
  then obtain w2 where w2: "ledger_transfer w1 3 20 100 10000 = Some w2"
    by (simp add: ledger_transfer_def)
  obtain sh where sh: "stream_initialize 1 2 3 1 10 10010 False fresh_host = Inr ((), sh)"
    using drip_stream.accepts [of 1 10010 10 1 2 3 False] by auto
  show ?thesis
    unfolding creates_iff
    using w1 w2 sh wit_governor_answers
    by (simp add: wit_contract terms_ok_def wit_factory_def bounds_ok_def config_of_def has_ids_def
        governor_config.truncate_def)
      (simp add: ledger_token_def wit_ledger_def wit_governor_def initial_governor_def)
qed

section \<open>Witnesses\<close>

definition wit_request :: batch_stream_request where
  "wit_request = \<lparr>request_recipient = 2, request_token = 3, request_deposit = 10000,
     request_rate_per_sec = 1, request_start_time = 10, request_end_time = 10010\<rparr>"

theorem batch_is_sequence_of_creations_witness:
  "\<exists>h' cs. factory_create_batch_streams wit_factory_env 1 [wit_request] False wit_factory = Inr ([0], h') \<and>
     length cs = 1 \<and> registers cs h'"
proof -
  obtain h' where c: "creates wit_factory_env 1 2 3 10000 1 10 10010 False wit_factory 0 h'"
    using wit_creates by blast
  have all: "creates_all wit_factory_env 1 False [wit_request] wit_factory [0] h'"
    by (rule creates_more [OF _ creates_none]) (use c in \<open>simp add: wit_request_def\<close>)
  have "registers [(1, 2, stream_contract wit_factory_env 0)] h'"
    using creates_registers [OF c wit_registers] by simp
  then have "\<exists>ds. length ds = length [wit_request] \<and> registers ([] @ ds) h'"
    by (intro exI [of _ "[(1, 2, stream_contract wit_factory_env 0)]"]) simp
  with all have "factory_create_batch_streams wit_factory_env 1 [wit_request] False wit_factory =
      Inr ([0], h')"
    by (subst batch_is_sequence_of_creations [OF wit_registers]) simp
  with \<open>registers [_] h'\<close> show ?thesis by (metis length_Cons list.size(3) One_nat_def)
qed

theorem registry_is_consistent_witness:
  "factory_stream_count wit_factory = Inr (0, wit_factory) \<and>
   (\<exists>cs :: creation list. factory_stream_count wit_factory = Inr (of_nat (length cs), wit_factory))"
proof -
  have "reaches factory_init factory_move wit_factory"
    using wit_factory_init by (rule reaches_init)
  from registry_is_consistent [OF this]
  have "\<exists>cs :: creation list. factory_stream_count wit_factory = Inr (of_nat (length cs), wit_factory)"
    by blast
  then show ?thesis using registers_views(1) [OF wit_registers] by simp
qed

theorem create_fails_in_order_witness:
  "factory_create_stream wit_factory_env 1 2 3 0 1 10 10010 False wit_factory = Inl (Err InvalidDeposit)"
  by (rule create_fails_in_order [OF wit_configured])
    (simp add: create_failure_def wit_factory_def)

definition wit_paused_factory :: "balance_table factory_host" where
  "wit_paused_factory = wit_factory\<lparr>instance_store := (instance_store wit_factory)(Paused \<mapsto> VBool True)\<rparr>"

theorem pause_halts_creation_witness:
  "factory_create_stream wit_factory_env 1 2 3 10000 1 10 10010 False wit_paused_factory =
     Inl (Err ContractPaused)"
proof -
  have "configured wit_paused_factory" "instance_store wit_paused_factory Paused = Some (VBool True)"
    by (auto simp: wit_paused_factory_def configured_def wit_factory_def)
  from pause_halts_creation [OF this, of wit_factory_env 1 2 3 10000 1 10 10010 False "[]"]
  show ?thesis by simp
qed

theorem maintenance_needs_governor_witness:
  "\<exists>h'. factory_pause wit_factory_env wit_factory = Inr ((), h') \<and>
     factory_is_paused h' = Inr (True, h') \<and>
     event_log h' = [FactoryPaused 30 10]"
proof -
  obtain h' where h': "factory_pause wit_factory_env wit_factory = Inr ((), h')"
    by (simp add: factory_pause_def pause_is_paused_def bump_instance_def bump_persistent_bucket_def
        pause_set_paused_def tx_eval host_eval wit_factory_def)
  have "instance_store wit_factory GovernorAddress = Some (VAddress 30)"
    by (simp add: wit_factory_def)
  from maintenance_needs_governor [OF this, of wit_factory_env "()" h'] h' show ?thesis
    by (simp add: wit_factory_def)
qed

text \<open>A factory with one registered stream, for the walker.\<close>

definition wit_walked :: "balance_table factory_host" where
  "wit_walked = wit_factory\<lparr>instance_store := (instance_store wit_factory)(StreamCount \<mapsto> VU64 1),
     persistent_store := [StreamAddr 0 \<mapsto> VAddress 100]\<rparr>"

theorem walker_reaches_every_stream_witness:
  "\<exists>h'. bump_times 1 wit_walked = Inr ((), h') \<and>
     address_bump 0 \<in> set (drop (length (ttl_log wit_walked)) (ttl_log h'))"
proof -
  have "walkable 1 0 wit_walked"
    by (simp add: walkable_def wit_walked_def wit_factory_def unat_0_iff)
  from walker_reaches_every_stream [OF this, of 1] show ?thesis by fastforce
qed

theorem paginate_window_witness: "paginate [5, 6, 7, 8] 1 2 = [6, 7]"
  using paginate_window [of "[5, 6, 7, 8]" 1 2] by simp

lemma length_wit_sha [simp]: "length (wit_sha x) = 32"
  by (simp add: wit_sha_def min_def)

definition wit_payload :: signature_payload where
  "wit_payload = \<lparr>payload_sender = replicate 32 1, payload_recipient = replicate 32 2,
     payload_token = replicate 32 3, payload_deposit = 1, payload_rate_per_sec = 1,
     payload_start_time = 0, payload_end_time = 0, payload_clawback = False, payload_nonce = 0,
     payload_deadline = 0, payload_network_passphrase = []\<rparr>"

definition wit_later_payload :: signature_payload where
  "wit_later_payload = wit_payload\<lparr>payload_deadline := 1\<rparr>"

text \<open>The concrete hash only sees the first 32 bytes, so two deadlines have the same digest.\<close>

theorem digest_binds_payload_witness:
  "replicate 32 0 = (replicate 32 0 :: u8 list) \<and> wit_payload = wit_later_payload \<or>
   collides wit_sha (DOMAIN_SEPARATOR_PREFIX @ replicate 32 0) (DOMAIN_SEPARATOR_PREFIX @ replicate 32 0) \<or>
   collides wit_sha (struct_input wit_payload) (struct_input wit_later_payload) \<or>
   collides wit_sha
     (wit_sha (DOMAIN_SEPARATOR_PREFIX @ replicate 32 0) @ wit_sha (struct_input wit_payload))
     (wit_sha (DOMAIN_SEPARATOR_PREFIX @ replicate 32 0) @ wit_sha (struct_input wit_later_payload))"
proof (rule digest_binds_payload)
  have "wit_sha (x @ y) = x" if "length x = 32" for x y
    using that by (simp add: wit_sha_def)
  then have "wit_sha (struct_input wit_payload) = wit_sha (struct_input wit_later_payload)"
    by (simp add: struct_input_def wit_later_payload_def wit_payload_def)
  then show "hash_payload wit_sha (replicate 32 0) wit_payload =
      hash_payload wit_sha (replicate 32 0) wit_later_payload"
    by (simp add: hash_payload_def)
qed (simp_all add: wit_payload_def wit_later_payload_def payload_sized_def)

definition wit_processor :: "(processor_key, unit stored, unit, unit) host" where
  "wit_processor = \<lparr>instance_store = Map.empty, persistent_store = Map.empty, ttl_log = [],
     event_log = [], world = ()\<rparr>"

theorem process_batch_result_witness:
  "process_batch [1, 2, 3] wit_processor =
     Inr (Inr 6, wit_processor\<lparr>instance_store := [B_Lock \<mapsto> VBool False]\<rparr>)"
  using process_batch_result [of wit_processor "[1, 2, 3]"] by (simp add: wit_processor_def)

theorem maintenance_completes_witness:
  "\<exists>u h'. factory_pause wit_factory_env wit_factory = Inr (u, h') \<and>
     length (ttl_log h') \<le> length (ttl_log wit_factory) + 9"
proof -
  have r: "reaches factory_init factory_move wit_factory"
    using wit_factory_init by (rule reaches_init)
  have g: "instance_store wit_factory GovernorAddress = Some (VAddress 30)" by (simp add: wit_factory_def)
  have "factory_is_paused wit_factory = Inr (False, wit_factory)"
    by (simp add: factory_is_paused_def pause_is_paused_def tx_eval host_eval wit_factory_def)
  then show ?thesis using maintenance_completes [OF r g, of wit_factory_env "[]"] by auto
qed

end
