(* ===== verification/Signature_Codec.thy ===== *)
theory Signature_Codec
  imports Factory_Witness
begin

unbundle bit_operations_syntax

text \<open>
  Reading a signed payload back from its bytes. The encoding of \<open>signature.rs\<close> has no lengths and no
  separators; here is the decoder that shows that none are needed.
\<close>

section \<open>Machine integers from bytes\<close>

fun from_le_bytes :: "u8 list \<Rightarrow> 'n::len word" where
  "from_le_bytes [] = 0"
| "from_le_bytes (b # bs) = ucast b OR push_bit 8 (from_le_bytes bs)"

definition from_be_bytes :: "u8 list \<Rightarrow> 'n::len word" where
  "from_be_bytes bs = from_le_bytes (rev bs)"

lemma bit_from_le_bytes:
  "bit (from_le_bytes bs :: 'n::len word) i \<longleftrightarrow>
     i < LENGTH('n) \<and> i div 8 < length bs \<and> bit (bs ! (i div 8)) (i mod 8)"
proof (induction bs arbitrary: i)
  case (Cons b bs)
  have big: "\<not> bit b i" if "8 \<le> i" using that bit_imp_le_length [of b i] by auto
  show ?case
  proof (cases "8 \<le> i")
    case True
    then have "i div 8 = Suc ((i - 8) div 8)" "i mod 8 = (i - 8) mod 8"
      by (simp_all add: le_div_geq le_mod_geq)
    with True big show ?thesis
      by (auto simp: bit_or_iff bit_push_bit_iff bit_unsigned_iff Cons.IH dest: bit_imp_le_length)
  next
    case False
    then show ?thesis by (auto simp: bit_or_iff bit_push_bit_iff bit_unsigned_iff)
  qed
qed simp

lemma from_to_be_bytes:
  assumes "LENGTH('n::len) = 8 * n"
  shows "from_be_bytes (be_bytes n x) = (x :: 'n word)"
proof (rule bit_word_eqI)
  fix i assume i: "i < LENGTH('n)"
  then have "i div 8 < n" using assms by (simp add: less_mult_imp_div_less mult.commute)
  then show "bit (from_be_bytes (be_bytes n x) :: 'n word) i = bit x i"
    using i assms
    by (simp add: from_be_bytes_def bit_from_le_bytes be_bytes_def rev_nth bit_unsigned_iff bit_drop_bit_eq
        rev_map)
qed

lemma to_from_be_bytes:
  assumes "length bs = n" and "LENGTH('n::len) = 8 * n"
  shows "be_bytes n (from_be_bytes bs :: 'n word) = bs"
proof (rule nth_equalityI)
  show "length (be_bytes n (from_be_bytes bs :: 'n word)) = length bs" using assms(1) by simp
  fix i assume "i < length (be_bytes n (from_be_bytes bs :: 'n word))"
  then have i: "i < n" by simp
  show "be_bytes n (from_be_bytes bs :: 'n word) ! i = bs ! i"
  proof (rule bit_word_eqI)
    fix j assume j: "j < LENGTH(8)"
    then have "8 * (n - 1 - i) + j < 8 * n" using i by simp
    then show "bit (be_bytes n (from_be_bytes bs :: 'n word) ! i) j = bit (bs ! i) j"
      using i j assms
      by (simp add: from_be_bytes_def bit_from_le_bytes be_bytes_def rev_nth bit_unsigned_iff bit_drop_bit_eq)
  qed
qed

section \<open>The payload from its bytes\<close>

text \<open>\<open>byte_field k n bs\<close>: the \<open>n\<close> bytes from position \<open>k\<close> on.\<close>

definition byte_field :: "nat \<Rightarrow> nat \<Rightarrow> u8 list \<Rightarrow> u8 list" where
  "byte_field k n bs = take n (drop k bs)"

text \<open>The positions are those of \<open>hash_payload\<close>; the one byte of the flag must be 0 or 1.\<close>

definition parse_payload :: "u8 list \<Rightarrow> signature_payload option" where
  "parse_payload bs =
     (if length bs < 161 \<or> bs ! 144 \<notin> {0, 1} then None
      else Some \<lparr>payload_sender = byte_field 0 32 bs, payload_recipient = byte_field 32 32 bs,
        payload_token = byte_field 64 32 bs,
        payload_deposit = from_be_bytes (byte_field 96 16 bs),
        payload_rate_per_sec = from_be_bytes (byte_field 112 16 bs),
        payload_start_time = from_be_bytes (byte_field 128 8 bs),
        payload_end_time = from_be_bytes (byte_field 136 8 bs),
        payload_clawback = (bs ! 144 = 1),
        payload_nonce = from_be_bytes (byte_field 145 8 bs),
        payload_deadline = from_be_bytes (byte_field 153 8 bs),
        payload_network_passphrase = drop 161 bs\<rparr>)"

lemma length_byte_field: "k + n \<le> length bs \<Longrightarrow> length (byte_field k n bs) = n"
  by (simp add: byte_field_def)

lemma byte_field_append: "byte_field k n bs @ drop (k + n) bs = drop k bs"
  by (simp add: byte_field_def) (metis append_take_drop_id drop_drop add.commute)

lemma decode_encode [simp]:
  "from_be_bytes (encode_i128 a) = a" "from_be_bytes (encode_u64 u) = u"
  by (simp_all add: encode_i128_def encode_u64_def i128_to_be_bytes_def u64_to_be_bytes_def from_to_be_bytes)

lemma encode_decode:
  "length bs = 16 \<Longrightarrow> encode_i128 (from_be_bytes bs) = bs"
  "length bs = 8 \<Longrightarrow> encode_u64 (from_be_bytes bs) = bs"
  by (simp_all add: encode_i128_def encode_u64_def i128_to_be_bytes_def u64_to_be_bytes_def to_from_be_bytes)

lemma parse_struct_input: "payload_sized p \<Longrightarrow> parse_payload (struct_input p) = Some p"
  by (cases p) (auto simp: parse_payload_def struct_input_def payload_sized_def byte_field_def encode_bool_def
      nth_append split: if_splits)

lemma struct_input_parse:
  assumes "parse_payload bs = Some p"
  shows "struct_input p = bs" and "payload_sized p"
proof -
  have len: "161 \<le> length bs" and flag: "encode_bool (bs ! 144 = 1) = bs ! 144"
    using assms by (auto simp: parse_payload_def encode_bool_def split: if_splits)
  note fields = length_byte_field [of _ _ bs]
  have "[bs ! 144] @ drop 145 bs = drop 144 bs" using len Cons_nth_drop_Suc [of 144 bs] by simp
  then have "struct_input p = drop 0 bs"
    using assms len flag byte_field_append [of 0 32 bs] byte_field_append [of 32 32 bs]
      byte_field_append [of 64 32 bs] byte_field_append [of 96 16 bs] byte_field_append [of 112 16 bs]
      byte_field_append [of 128 8 bs] byte_field_append [of 136 8 bs] byte_field_append [of 145 8 bs]
      byte_field_append [of 153 8 bs]
    by (auto simp: parse_payload_def struct_input_def encode_decode fields simp del: drop0 split: if_splits)
  then show "struct_input p = bs" by simp
  show "payload_sized p"
    using assms len by (auto simp: parse_payload_def payload_sized_def fields split: if_splits)
qed

text \<open>Property C38. The signed bytes can be read back: decoding the bytes that the struct hash is taken
  of gives the payload, and the bytes that decode are exactly those that some payload encodes to,
  byte for byte. So the encoding, without lengths or separators, leaves no two readings of what was
  signed, and the variable passphrase at its end is no exception.\<close>

theorem payload_roundtrip:
  "(payload_sized p \<longrightarrow> parse_payload (struct_input p) = Some p) \<and>
   (parse_payload bs = Some p \<longleftrightarrow> payload_sized p \<and> struct_input p = bs)"
  using parse_struct_input struct_input_parse by blast

theorem payload_roundtrip_witness:
  "parse_payload (struct_input wit_payload) = Some wit_payload"
proof -
  have "payload_sized wit_payload" by (simp add: payload_sized_def wit_payload_def)
  then show ?thesis using payload_roundtrip [of wit_payload] by blast
qed

end
