(* ===== verification/Protocol_Machine.thy ===== *)
theory Protocol_Machine
  imports Factory_Interfaces Stream_Safety
begin

text \<open>
  The protocol as one machine: the factory, the governors and the streams it has deployed act on
  one ledger, in any order, among whatever else happens on the network.
\<close>

section \<open>Calls\<close>

datatype factory_call =
    CreateStream address address address i128 i128 u64 u64 bool
  | CreateBatch address "batch_stream_request list" bool
  | UpgradeWasm "u8 list"
  | PauseFactory
  | UnpauseFactory
  | InitializeFactory "u8 list" address

definition unit_tx :: "('h, 'err, 'a) tx \<Rightarrow> ('h, 'err, unit) tx" where
  "unit_tx m = bind m (\<lambda>_. return ())"

lemma unit_tx_Inr_iff [tx_simps]: "unit_tx m h = Inr r \<longleftrightarrow> (\<exists>a h'. m h = Inr (a, h') \<and> r = ((), h'))"
  by (auto simp: unit_tx_def tx_simps)

fun factory_exec :: "('w, 'n) factory_env_scheme \<Rightarrow> factory_call \<Rightarrow> ('w, unit) factory_tx" where
  "factory_exec env (CreateStream sndr rcp tok deposit rate t0 t1 clawback) =
     unit_tx (factory_create_stream env sndr rcp tok deposit rate t0 t1 clawback)"
| "factory_exec env (CreateBatch sndr requests clawback) =
     unit_tx (factory_create_batch_streams env sndr requests clawback)"
| "factory_exec env (UpgradeWasm hash) = factory_upgrade_stream_wasm env hash"
| "factory_exec env PauseFactory = factory_pause env"
| "factory_exec env UnpauseFactory = factory_unpause env"
| "factory_exec env (InitializeFactory hash governor) = factory_initialize hash governor"

section \<open>The ledger in motion\<close>

text \<open>
  \<open>base\<close> fixes what belongs to the network and to the factory's deployment: the token contracts,
  the factory's address, the hash function, the addresses of deployed contracts and the code that a
  hash names. A call of the factory happens in an environment that agrees with it (\<open>on_chain\<close>).
  Nobody signs for the address of a stream (\<open>unsigned_streams\<close>): it belongs to a contract from
  the start, and the stream contract neither calls the protocol nor defines an account.
\<close>

definition on_chain :: "'w factory_env \<Rightarrow> 'w factory_env \<Rightarrow> bool" where
  "on_chain base env \<longleftrightarrow>
     token_client env = token_client base \<and>
     current_contract_address env = current_contract_address base \<and>
     sha256 env = sha256 base \<and> contract_id env = contract_id base \<and>
     wasm_initialize env = wasm_initialize base"

definition unsigned_streams :: "'w factory_env \<Rightarrow> ('v, 'n) env_scheme \<Rightarrow> bool" where
  "unsigned_streams base env \<longleftrightarrow> (\<forall>n. \<not> has_authorized env (stream_contract base n))"

text \<open>The host that the stream contract at an address sees, and the ledger after its call.\<close>

definition off_ledger :: "'w stream_host \<Rightarrow> unit stream_host" where
  "off_ledger k = \<lparr>instance_store = instance_store k, persistent_store = persistent_store k,
     ttl_log = ttl_log k, event_log = event_log k, world = ()\<rparr>"

definition put_stream :: "address \<Rightarrow> 'w stream_host \<Rightarrow> 'w ledger \<Rightarrow> 'w ledger" where
  "put_stream a k l = l\<lparr>tokens := world k, stream_at := (stream_at l)(a \<mapsto> off_ledger k)\<rparr>"

text \<open>
  What the rest of the network may do: move tokens, but not those of a stream; deploy and call
  contracts, but not change a stream or an existing governor.
\<close>

definition outside :: "'w factory_env \<Rightarrow> 'w ledger \<Rightarrow> 'w ledger \<Rightarrow> bool" where
  "outside base l l' \<longleftrightarrow>
     (\<forall>n tk. sint (token_balance (token_client base) (tokens l) tk (stream_contract base n)) \<le>
        sint (token_balance (token_client base) (tokens l') tk (stream_contract base n))) \<and>
     (\<forall>n. stream_at l' (stream_contract base n) = stream_at l (stream_contract base n)) \<and>
     (\<forall>a. governor_at l a \<noteq> None \<longrightarrow> governor_at l' a = governor_at l a) \<and>
     (\<forall>a gh. governor_at l a = None \<and> governor_at l' a = Some gh \<longrightarrow> governor_init gh)"

type_synonym 'w protocol_state = "u64 \<times> 'w factory_host"

fun hash_of :: "factory_call \<Rightarrow> u8 list option" where
  "hash_of (UpgradeWasm hash) = Some hash"
| "hash_of (InitializeFactory hash _) = Some hash"
| "hash_of _ = None"

inductive protocol_init :: "'w factory_env \<Rightarrow> 'w protocol_state \<Rightarrow> bool" for base where
  protocol_initI:
    "\<lbrakk> token_conserves (token_client base); factory_init h;
       \<And>hash. instance_store h StreamWasmHash = Some (VBytes hash) \<Longrightarrow> wasm_is_stream base hash;
       \<And>n. stream_at (world h) (stream_contract base n) = None;
       \<And>a gh. governor_at (world h) a = Some gh \<Longrightarrow> reaches governor_init governor_move gh \<rbrakk>
     \<Longrightarrow> protocol_init base (now, h)"

inductive protocol_step ::
  "'w factory_env \<Rightarrow> 'w protocol_state \<Rightarrow> 'w protocol_state \<Rightarrow> bool" for base where
  at_factory:
    "\<lbrakk> now \<le> ledger_timestamp env; on_chain base env; unsigned_streams base env;
       \<And>hash. hash_of c = Some hash \<Longrightarrow> wasm_is_stream base hash;
       factory_exec env c h = Inr ((), h') \<rbrakk>
     \<Longrightarrow> protocol_step base (now, h) (ledger_timestamp env, h')"
| at_governor:
    "\<lbrakk> now \<le> ledger_timestamp (env :: unit env); governor_at (world h) a = Some gh;
       governor_exec env caller c gh = Inr ((), gh') \<or>
       governor_initialize authority recip factory gh = Inr ((), gh') \<rbrakk>
     \<Longrightarrow> protocol_step base (now, h)
           (ledger_timestamp env, h\<lparr>world := (world h)\<lparr>governor_at := (governor_at (world h))(a \<mapsto> gh')\<rparr>\<rparr>)"
| at_stream:
    "\<lbrakk> now \<le> ledger_timestamp (env :: 'w env); token_client env = token_client base;
       current_contract_address env = stream_contract base n; unsigned_streams base env;
       stream_at (world h) (stream_contract base n) = Some sh;
       stream_exec env c (on_ledger sh (tokens (world h))) = Inr (r, k) \<or>
       stream_initialize sndr rcp tok rate t0 t1 clawback (on_ledger sh (tokens (world h))) = Inr ((), k) \<rbrakk>
     \<Longrightarrow> protocol_step base (now, h)
           (ledger_timestamp env, h\<lparr>world := put_stream (stream_contract base n) k (world h)\<rparr>)"
| at_network:
    "\<lbrakk> now \<le> now'; outside base (world h) l \<rbrakk> \<Longrightarrow> protocol_step base (now, h) (now', h\<lparr>world := l\<rparr>)"

section \<open>What holds of every state\<close>

definition stream_sound ::
  "'w factory_env \<Rightarrow> u64 \<Rightarrow> 'w \<Rightarrow> address \<Rightarrow> unit stream_host \<Rightarrow> bool" where
  "stream_sound base now w a sh \<longleftrightarrow>
     (\<exists>i m. holds i m (instance_store sh) \<and> info_inv now i \<and> log_numbered m (event_log sh) \<and>
        (\<forall>n. sender i \<noteq> stream_contract base n) \<and>
        (end_time i \<noteq> 0 \<and> \<not> is_clawback_enabled i \<longrightarrow> funded (token_client base) a i w))"

lemma stream_soundI:
  "holds i m (instance_store sh) \<Longrightarrow> info_inv now i \<Longrightarrow> log_numbered m (event_log sh) \<Longrightarrow>
   (\<And>n. sender i \<noteq> stream_contract base n) \<Longrightarrow>
   (end_time i \<noteq> 0 \<Longrightarrow> \<not> is_clawback_enabled i \<Longrightarrow> funded (token_client base) a i w) \<Longrightarrow>
   stream_sound base now w a sh"
  unfolding stream_sound_def by blast

lemma stream_soundE:
  assumes "stream_sound base now w a sh"
  obtains i m where "holds i m (instance_store sh)" and "info_inv now i"
    and "log_numbered m (event_log sh)" and "\<forall>n. sender i \<noteq> stream_contract base n"
    and "end_time i \<noteq> 0 \<and> \<not> is_clawback_enabled i \<longrightarrow> funded (token_client base) a i w"
  using assms unfolding stream_sound_def by blast

definition no_less :: "'w token_ops \<Rightarrow> address \<Rightarrow> 'w \<Rightarrow> 'w \<Rightarrow> bool" where
  "no_less T a w w' \<longleftrightarrow>
     (\<forall>tk. sint (token_balance T w tk a) \<le> sint (token_balance T w' tk a))"

lemma no_less_refl [simp]: "no_less T a w w"
  by (simp add: no_less_def)

lemma no_less_trans: "no_less T a w w1 \<Longrightarrow> no_less T a w1 w2 \<Longrightarrow> no_less T a w w2"
  unfolding no_less_def by (meson order_trans)

lemma stream_sound_mono:
  assumes "stream_sound base now w a sh" and "now \<le> now'" and "no_less (token_client base) a w w'"
  shows "stream_sound base now' w' a sh"
proof -
  have "funded (token_client base) a i w \<Longrightarrow> funded (token_client base) a i w'" for i
    using assms(3) unfolding funded_def no_less_def by (meson order_trans)
  with assms(1,2) show ?thesis
    unfolding stream_sound_def by (blast intro: info_inv_later)
qed

text \<open>Registered streams exist at the address of their id, and no two of them share one.\<close>

definition trusted :: "'w factory_env \<Rightarrow> 'w factory_host \<Rightarrow> bool" where
  "trusted base h \<longleftrightarrow>
     (\<forall>hash. instance_store h StreamWasmHash = Some (VBytes hash) \<longrightarrow> wasm_is_stream base hash)"

definition registered_live :: "'w factory_env \<Rightarrow> 'w factory_host \<Rightarrow> bool" where
  "registered_live base h \<longleftrightarrow>
     (\<forall>n v. persistent_store h (StreamAddr n) = Some v \<longrightarrow>
        v = VAddress (stream_contract base n) \<and> stream_at (world h) (stream_contract base n) \<noteq> None) \<and>
     (\<forall>m n. persistent_store h (StreamAddr m) \<noteq> None \<and> persistent_store h (StreamAddr n) \<noteq> None \<and>
        stream_contract base m = stream_contract base n \<longrightarrow> m = n)"

definition streams_sound :: "'w factory_env \<Rightarrow> u64 \<Rightarrow> 'w ledger \<Rightarrow> bool" where
  "streams_sound base now l \<longleftrightarrow>
     (\<forall>n sh. stream_at l (stream_contract base n) = Some sh \<longrightarrow>
        stream_sound base now (tokens l) (stream_contract base n) sh)"

definition protocol_inv :: "'w factory_env \<Rightarrow> 'w protocol_state \<Rightarrow> bool" where
  "protocol_inv base s \<longleftrightarrow>
     token_conserves (token_client base) \<and> factory_inv (snd s) \<and> trusted base (snd s) \<and>
     registered_live base (snd s) \<and> streams_sound base (fst s) (world (snd s)) \<and>
     (\<forall>a gh. governor_at (world (snd s)) a = Some gh \<longrightarrow> reaches governor_init governor_move gh)"

section \<open>What a call of the factory does to the ledger\<close>

text \<open>Streams that exist keep their storage and their tokens; new ones start sound.\<close>

definition extends_ledger :: "'w factory_env \<Rightarrow> u64 \<Rightarrow> 'w factory_host \<Rightarrow> 'w factory_host \<Rightarrow> bool" where
  "extends_ledger base now h h' \<longleftrightarrow>
     governor_at (world h') = governor_at (world h) \<and>
     (\<forall>n. no_less (token_client base) (stream_contract base n) (tokens (world h)) (tokens (world h'))) \<and>
     (\<forall>a sh. stream_at (world h) a = Some sh \<longrightarrow> stream_at (world h') a = Some sh) \<and>
     (\<forall>n sh. stream_at (world h) (stream_contract base n) = None \<and>
        stream_at (world h') (stream_contract base n) = Some sh \<longrightarrow>
        stream_sound base now (tokens (world h')) (stream_contract base n) sh) \<and>
     (registered_live base h \<longrightarrow> registered_live base h')"

lemma extends_ledger_same:
  assumes "world h' = world h" and "persistent_store h' = persistent_store h"
  shows "extends_ledger base now h h'"
  using assms by (auto simp: extends_ledger_def registered_live_def)

lemma extends_ledger_trans:
  assumes "extends_ledger base now h h1" and "extends_ledger base now h1 h2"
  shows "extends_ledger base now h h2"
proof -
  have "stream_sound base now (tokens (world h2)) (stream_contract base n) sh"
    if n: "stream_at (world h) (stream_contract base n) = None"
      and sh: "stream_at (world h2) (stream_contract base n) = Some sh" for n sh
  proof (cases "stream_at (world h1) (stream_contract base n)")
    case None
    then show ?thesis using assms(2) sh by (simp add: extends_ledger_def)
  next
    case (Some sh1)
    then have "sh1 = sh" and "stream_sound base now (tokens (world h1)) (stream_contract base n) sh1"
      using assms n sh by (auto simp: extends_ledger_def)
    then show ?thesis
      using assms(2) by (auto simp: extends_ledger_def intro: stream_sound_mono)
  qed
  with assms show ?thesis
    unfolding extends_ledger_def by (auto intro: no_less_trans)
qed

lemma on_chain_contract: "on_chain base env \<Longrightarrow> stream_contract env n = stream_contract base n"
  by (simp add: on_chain_def stream_contract_def)

lemma created_sound:
  assumes "token_conserves (token_client base)" and "trusted base h"
    and "on_chain base env" and "unsigned_streams base env"
    and "creates env sndr rcp tok deposit rate t0 t1 clawback h n h'"
    and "stream_at (world h') (stream_contract base n) = Some sh"
  shows "stream_sound base (ledger_timestamp env) (tokens (world h')) (stream_contract base n) sh"
proof -
  let ?i = "initial_info sndr rcp tok rate t0 t1 clawback"
  have same: "token_client env = token_client base" "stream_contract env m = stream_contract base m" for m
    using assms(3) by (simp_all add: on_chain_def stream_contract_def)
  have hash: "wasm_is_stream env hash"
    if "instance_store h StreamWasmHash = Some (VBytes hash)" for hash
    using that assms(2,3) by (simp add: trusted_def wasm_is_stream_def on_chain_def)
  have start: "stream_started ?i sh"
    using drip_stream.created_is_started [OF assms(5)] hash assms(6) same
    by (fastforce simp: wasm_is_stream_def)
  have sndr: "\<forall>m. sndr \<noteq> stream_contract base m"
    using assms(4,5) by (auto simp: unsigned_streams_def creates_iff)
  have terms: "0 < sint rate" "t1 = 0 \<or> t0 < t1"
    using assms(5) by (auto simp: creates_iff terms_ok_def)
  have "funded (token_client base) (stream_contract base n) ?i (tokens (world h'))"
    if "end_time ?i \<noteq> 0" "\<not> is_clawback_enabled ?i"
  proof -
    have t1: "t1 \<noteq> 0" using that(1) by (simp add: initial_info_def)
    have c: "\<not> clawback" using that(2) by simp
    have e: "creates env sndr rcp tok deposit rate t0 t1 False h n h'" using assms(5) c by simp
    have ne: "stream_contract env n \<noteq> sndr" using sndr same by metis
    obtain sh' where "stream_at (world h') (stream_contract env n) = Some sh'"
      and "solvent (token_client env) (stream_contract env n) (0, on_ledger sh' (tokens (world h')))"
      and "holds (initial_info sndr rcp tok rate t0 t1 False) 0 (instance_store sh')"
      using created_solvent [OF _ hash e t1 ne, of 0] assms(1) same by auto
    then show ?thesis
      using assms(6) c same by (auto simp: solvent_def dest: holds_inject)
  qed
  moreover have "info_inv (ledger_timestamp env) ?i" using terms by (rule initial_info_inv)
  moreover have "sender ?i \<noteq> stream_contract base m" for m
    using sndr by (simp add: initial_info_def)
  ultimately show ?thesis
    using start by (intro stream_soundI [of ?i 0]) (auto simp: stream_started_def log_numbered_def)
qed

lemma creates_extends:
  assumes "token_conserves (token_client base)" and "trusted base h"
    and "on_chain base env" and "unsigned_streams base env"
    and "creates env sndr rcp tok deposit rate t0 t1 clawback h n h'"
  shows "extends_ledger base (ledger_timestamp env) h h' \<and> trusted base h'"
proof -
  have same: "token_client env = token_client base" "stream_contract env m = stream_contract base m" for m
    using assms(3) by (simp_all add: on_chain_def stream_contract_def)
  have at: "\<exists>sh. stream_at (world h') = (stream_at (world h))(stream_contract base n \<mapsto> sh)"
    and free: "stream_at (world h) (stream_contract base n) = None"
    and gov: "governor_at (world h') = governor_at (world h)"
    and sndr: "\<And>m. sndr \<noteq> stream_contract base m"
    and amount: "0 < sint deposit"
    and entries: "persistent_store h' = (persistent_store h)(StreamAddr n \<mapsto> VAddress (stream_contract base n),
           BySender sndr \<mapsto> VStruct (ids_of (persistent_store h (BySender sndr)) @ [n]),
           ByRecipient rcp \<mapsto> VStruct (ids_of (persistent_store h (ByRecipient rcp)) @ [n]))"
    and hash: "instance_store h' StreamWasmHash = instance_store h StreamWasmHash"
    using assms(4,5) same by (auto simp: creates_iff unsigned_streams_def terms_ok_def)
  have "no_less (token_client base) (stream_contract base m) (tokens (world h)) (tokens (world h'))" for m
    using creates_moves_deposit [OF _ assms(5)] assms(1) sndr [of m] amount
    by (auto simp: no_less_def same moved_def)
  moreover have "stream_sound base (ledger_timestamp env) (tokens (world h')) (stream_contract base m) sh"
    if "stream_at (world h) (stream_contract base m) = None"
      and sh: "stream_at (world h') (stream_contract base m) = Some sh" for m sh
  proof -
    have "stream_contract base m = stream_contract base n"
      using that at by (auto split: if_splits)
    then show ?thesis using created_sound [OF assms, of sh] sh by simp
  qed
  moreover have "registered_live base h \<longrightarrow> registered_live base h'"
  proof
    assume live: "registered_live base h"
    have other: "stream_contract base m \<noteq> stream_contract base n"
      if "persistent_store h (StreamAddr m) \<noteq> None" for m
      using that live free unfolding registered_live_def by (metis option.exhaust)
    show "registered_live base h'"
      using live at other other [symmetric] by (auto simp: registered_live_def entries)
  qed
  ultimately show ?thesis
    using at free gov hash assms(2) by (auto simp: extends_ledger_def trusted_def)
qed

lemma creates_all_extends:
  "creates_all env sndr clawback rs h ns h' \<Longrightarrow> token_conserves (token_client base) \<Longrightarrow>
   on_chain base env \<Longrightarrow> unsigned_streams base env \<Longrightarrow> trusted base h \<Longrightarrow>
   extends_ledger base (ledger_timestamp env) h h' \<and> trusted base h'"
proof (induction rule: creates_all.induct)
  case creates_none
  then show ?case by (simp add: extends_ledger_same)
next
  case (creates_more r h n h1 rs ns h2)
  have "extends_ledger base (ledger_timestamp env) h h1 \<and> trusted base h1"
    using creates_more by (intro creates_extends) auto
  with creates_more show ?case by (blast intro: extends_ledger_trans)
qed

lemma same_but_cursor_extends: "same_but_cursor h h' \<Longrightarrow> extends_ledger base now h h'"
  by (intro extends_ledger_same) (simp_all add: same_but_cursor_def)

lemma maintenance_frame:
  "factory_pause env h = Inr (u, h') \<Longrightarrow> world h' = world h \<and> persistent_store h' = persistent_store h \<and>
     instance_store h' StreamWasmHash = instance_store h StreamWasmHash"
  "factory_unpause env h = Inr (u, h') \<Longrightarrow> world h' = world h \<and> persistent_store h' = persistent_store h \<and>
     instance_store h' StreamWasmHash = instance_store h StreamWasmHash"
  "factory_upgrade_stream_wasm env hash h = Inr (u, h') \<Longrightarrow>
     world h' = world h \<and> persistent_store h' = persistent_store h \<and>
     instance_store h' StreamWasmHash = Some (VBytes hash)"
  by (auto simp: factory_pause_def factory_unpause_def factory_upgrade_stream_wasm_def tx_simps
      bump_instance_def pause_set_paused_def same_but_cursor_def dest!: bump_bucket_frame)

lemma factory_exec_extends:
  assumes "token_conserves (token_client base)" and "trusted base h" and "factory_inv h"
    and "on_chain base env" and "unsigned_streams base env"
    and "\<And>hash. hash_of c = Some hash \<Longrightarrow> wasm_is_stream base hash"
    and "factory_exec env c h = Inr ((), h')"
  shows "extends_ledger base (ledger_timestamp env) h h' \<and> trusted base h' \<and> factory_move h h'"
proof (cases c)
  case (CreateStream sndr rcp tok deposit rate t0 t1 clawback)
  then show ?thesis
    using assms creates_extends [OF assms(1,2,4,5)]
    by (auto simp: tx_simps factory_create_stream_iff intro: move_create)
next
  case (CreateBatch sndr requests clawback)
  then obtain ns where b: "factory_create_batch_streams env sndr requests clawback h = Inr (ns, h')"
    using assms(7) by (auto simp: tx_simps)
  then have "creates_all env sndr clawback requests h ns h'"
    by (auto simp: factory_create_batch_streams_def tx_simps create_each_iff)
  then show ?thesis using creates_all_extends assms(1,2,4,5) b by (blast intro: move_batch)
next
  case (UpgradeWasm hash)
  then show ?thesis
    using assms(2,6,7) maintenance_frame(3) [of env hash h _ h']
    by (auto simp: trusted_def intro: extends_ledger_same move_upgrade)
next
  case PauseFactory
  then show ?thesis
    using assms(2,6,7) maintenance_frame(1) [of env h _ h']
    by (auto simp: trusted_def intro: extends_ledger_same move_pause)
next
  case UnpauseFactory
  then show ?thesis
    using assms(2,6,7) maintenance_frame(2) [of env h _ h']
    by (auto simp: trusted_def intro: extends_ledger_same move_unpause)
next
  case (InitializeFactory hash governor)
  obtain cs where "registers cs h" using assms(3) by (auto simp: factory_inv_def)
  then show ?thesis
    using assms(7) InitializeFactory by (auto simp: factory_initialize_def tx_simps registers_def)
qed

section \<open>What a call of a stream does to the ledger\<close>

lemma step_keeps_terms:
  assumes "stream_step env i w c r ev i' w'" and "info_inv t i"
  shows "sender i' = sender i" and "token i' = token i"
    and "end_time i' \<noteq> 0 \<Longrightarrow> \<not> is_clawback_enabled i' \<Longrightarrow> end_time i \<noteq> 0 \<and> \<not> is_clawback_enabled i"
  using assms by (auto simp: step_iffs word_gt_0 uint_0_iff elim!: stream_step.cases)

lemma stream_call_sound:
  assumes "token_conserves (token_client base)" and "token_client env = token_client base"
    and "current_contract_address env = a" and "now \<le> ledger_timestamp env"
    and "stream_sound base now w a sh"
    and "stream_exec env c (on_ledger sh w) = Inr (r, k)"
  shows "stream_sound base (ledger_timestamp env) (world k) a (off_ledger k)"
proof -
  obtain i m where i: "holds i m (instance_store sh)" "info_inv now i" "log_numbered m (event_log sh)"
    "\<forall>n. sender i \<noteq> stream_contract base n"
    "end_time i \<noteq> 0 \<and> \<not> is_clawback_enabled i \<longrightarrow> funded (token_client base) a i w"
    using assms(5) by (rule stream_soundE)
  have "holds i m (instance_store (on_ledger sh w))" using i(1) by simp
  from this assms(6) obtain ev i' w' where step: "stream_step env i (world (on_ledger sh w)) c r ev i' w'"
    and m: "uint m + 1 < 2 ^ 64" and k: "k = after i' (m + 1) (ev (m + 1)) w' (on_ledger sh w)"
    by (rule stream_exec_step)
  have "info_inv (ledger_timestamp env) i'" using step i(2) assms(4) by (rule step_info_inv)
  moreover have "log_numbered (m + 1) (event_log sh @ [ev (m + 1)])"
    using log_numbered_snoc [OF i(3) m step_event_sequence [OF step]] .
  moreover have "funded (token_client base) a i' w'"
    if "end_time i' \<noteq> 0" "\<not> is_clawback_enabled i'"
    using step_funded [OF step] assms(1-3) i(5) step_keeps_terms(3) [OF step i(2) that] by simp
  ultimately show ?thesis
    using i(4) step_keeps_terms(1) [OF step i(2)]
    by (intro stream_soundI [of i' "m + 1"])
      (simp_all add: off_ledger_def k after_def holds_def)
qed

lemma stream_call_debits:
  assumes "token_conserves (token_client base)" and "token_client env = token_client base"
    and "stream_sound base now w (current_contract_address env) sh"
    and "stream_exec env c (on_ledger sh w) = Inr (r, k)"
    and "\<not> has_authorized env who" and "who \<noteq> current_contract_address env"
  shows "no_less (token_client base) who w (world k)"
proof -
  obtain i m where i: "holds i m (instance_store sh)" "info_inv now i"
    using assms(3) by (rule stream_soundE)
  have "holds i m (instance_store (on_ledger sh w))" using i(1) by simp
  from this assms(4) obtain ev i' w' where step: "stream_step env i (world (on_ledger sh w)) c r ev i' w'"
    and k: "k = after i' (m + 1) (ev (m + 1)) w' (on_ledger sh w)"
    by (rule stream_exec_step)
  have "who \<noteq> sender i \<or> \<not> sender_pays c"
    using step_authorized [OF step] assms(5) by (cases c) auto
  then have "bal env w tk who \<le> bal env w' tk who" for tk
    using step_debits [OF step, of who tk] assms(1,2,6) by simp
  then show ?thesis using assms(2) by (simp add: no_less_def k bal_def)
qed

lemma sound_not_reinitialized:
  assumes "stream_sound base now w a sh"
  shows "stream_initialize sndr rcp tok rate t0 t1 clawback (on_ledger sh w) \<noteq> Inr ((), k)"
  using assms by (auto simp: stream_sound_def stream_initialize_Inr_iff holds_def)

lemma governor_not_reinitialized:
  assumes "governor_inv gh"
  shows "governor_initialize authority recip factory gh \<noteq> Inr ((), gh')"
proof -
  have "instance_store gh FactoryAddress \<noteq> None"
    using assms by (auto simp: governor_inv_def)
  then show ?thesis using governor_initialize_eval [of gh authority recip factory] by simp
qed

section \<open>The invariant\<close>

lemma protocol_init_inv: "protocol_init base s \<Longrightarrow> protocol_inv base s"
proof (induction rule: protocol_init.induct)
  case (protocol_initI h now)
  have "persistent_store h = Map.empty"
    using protocol_initI(2)
    by (auto elim!: factory_init.cases simp: factory_initialize_def tx_simps bump_instance_def)
  then show ?case
    using protocol_initI factory_init_inv [OF protocol_initI(2)]
    by (auto simp: protocol_inv_def trusted_def registered_live_def streams_sound_def)
qed

lemma factory_step_inv:
  assumes "protocol_inv base (now, h)" and "now \<le> ledger_timestamp env"
    and "on_chain base env" and "unsigned_streams base env"
    and "\<And>hash. hash_of c = Some hash \<Longrightarrow> wasm_is_stream base hash"
    and "factory_exec env c h = Inr ((), h')"
  shows "protocol_inv base (ledger_timestamp env, h')"
proof -
  have inv: "token_conserves (token_client base)" "trusted base h" "factory_inv h"
    "registered_live base h" "streams_sound base now (world h)"
    using assms(1) by (simp_all add: protocol_inv_def)
  have ext: "extends_ledger base (ledger_timestamp env) h h'" and "trusted base h'" and "factory_move h h'"
    using factory_exec_extends [OF inv(1-3) assms(3-6)] by simp_all
  have "stream_sound base (ledger_timestamp env) (tokens (world h')) (stream_contract base n) sh"
    if sh: "stream_at (world h') (stream_contract base n) = Some sh" for n sh
  proof (cases "stream_at (world h) (stream_contract base n)")
    case None
    then show ?thesis using ext sh by (simp add: extends_ledger_def)
  next
    case (Some sh0)
    then have "sh0 = sh" using ext sh by (fastforce simp: extends_ledger_def)
    with Some have "stream_sound base now (tokens (world h)) (stream_contract base n) sh"
      using inv(5) by (simp add: streams_sound_def)
    then show ?thesis
      using assms(2) ext by (auto simp: extends_ledger_def intro: stream_sound_mono)
  qed
  moreover have "factory_inv h'" using \<open>factory_move h h'\<close> inv(3) by (rule factory_move_inv)
  ultimately show ?thesis
    using assms(1) ext \<open>trusted base h'\<close> inv(4)
    by (simp add: protocol_inv_def streams_sound_def extends_ledger_def)
qed

lemma factory_inv_world: "factory_inv h \<Longrightarrow> factory_inv (h\<lparr>world := l\<rparr>)"
  using move_others by (rule factory_move_inv)

lemma streams_sound_mono:
  assumes "streams_sound base now l" and "now \<le> now'"
    and "\<And>n. stream_at l' (stream_contract base n) = stream_at l (stream_contract base n)"
    and "\<And>n. no_less (token_client base) (stream_contract base n) (tokens l) (tokens l')"
  shows "streams_sound base now' l'"
  unfolding streams_sound_def
proof (intro allI impI)
  fix n sh
  assume "stream_at l' (stream_contract base n) = Some sh"
  then have "stream_sound base now (tokens l) (stream_contract base n) sh"
    using assms(1,3) by (simp add: streams_sound_def)
  then show "stream_sound base now' (tokens l') (stream_contract base n) sh"
    using assms(2,4) by (rule stream_sound_mono)
qed

lemma protocol_inv_world:
  assumes "protocol_inv base (now, h)" and "streams_sound base now' l"
    and "\<And>n. stream_at (world h) (stream_contract base n) \<noteq> None \<Longrightarrow>
      stream_at l (stream_contract base n) \<noteq> None"
    and "\<And>a gh. governor_at l a = Some gh \<Longrightarrow> reaches governor_init governor_move gh"
  shows "protocol_inv base (now', h\<lparr>world := l\<rparr>)"
  using assms factory_inv_world
  by (auto simp: protocol_inv_def trusted_def registered_live_def) blast+

lemma stream_step_inv:
  assumes inv: "protocol_inv base (now, h)" and time: "now \<le> ledger_timestamp env"
    and env: "token_client env = token_client base" "current_contract_address env = stream_contract base n"
      "unsigned_streams base env"
    and sh: "stream_at (world h) (stream_contract base n) = Some sh"
    and exec: "stream_exec env c (on_ledger sh (tokens (world h))) = Inr (r, k)"
  shows "protocol_inv base (ledger_timestamp env, h\<lparr>world := put_stream (stream_contract base n) k (world h)\<rparr>)"
proof (rule protocol_inv_world [OF inv])
  have T: "token_conserves (token_client base)" and all: "streams_sound base now (world h)"
    using inv by (simp_all add: protocol_inv_def)
  have sound: "stream_sound base now (tokens (world h)) (stream_contract base n) sh"
    using all sh by (simp add: streams_sound_def)
  show "streams_sound base (ledger_timestamp env) (put_stream (stream_contract base n) k (world h))"
    unfolding streams_sound_def
  proof (intro allI impI)
    fix m sm
    assume m: "stream_at (put_stream (stream_contract base n) k (world h)) (stream_contract base m) = Some sm"
    show "stream_sound base (ledger_timestamp env)
        (tokens (put_stream (stream_contract base n) k (world h))) (stream_contract base m) sm"
    proof (cases "stream_contract base m = stream_contract base n")
      case True
      then show ?thesis
        using m stream_call_sound [OF T env(1,2) time sound exec] by (simp add: put_stream_def)
    next
      case False
      have "stream_sound base now (tokens (world h)) (stream_contract base m) sm"
        using m False all by (simp add: put_stream_def streams_sound_def)
      moreover have "no_less (token_client base) (stream_contract base m) (tokens (world h)) (world k)"
        using stream_call_debits [OF T env(1) _ exec, of now "stream_contract base m"] sound env(2,3) False
        by (simp add: unsigned_streams_def)
      ultimately show ?thesis
        using time by (auto simp: put_stream_def intro: stream_sound_mono)
    qed
  qed
  show "stream_at (put_stream (stream_contract base n) k (world h)) (stream_contract base m) \<noteq> None"
    if "stream_at (world h) (stream_contract base m) \<noteq> None" for m
    using that by (simp add: put_stream_def)
  show "reaches governor_init governor_move gh"
    if "governor_at (put_stream (stream_contract base n) k (world h)) a = Some gh" for a gh
    using that inv by (simp add: put_stream_def protocol_inv_def)
qed

lemma network_step_inv:
  assumes inv: "protocol_inv base (now, h)" and "now \<le> now'" and "outside base (world h) l"
  shows "protocol_inv base (now', h\<lparr>world := l\<rparr>)"
proof (rule protocol_inv_world [OF inv])
  show "streams_sound base now' l"
  proof (rule streams_sound_mono [OF _ assms(2)])
    show "streams_sound base now (world h)" using inv by (simp add: protocol_inv_def)
  qed (use assms(3) in \<open>simp_all add: outside_def no_less_def\<close>)
  show "stream_at l (stream_contract base n) \<noteq> None"
    if "stream_at (world h) (stream_contract base n) \<noteq> None" for n
    using that assms(3) by (simp add: outside_def)
  show "reaches governor_init governor_move gh" if "governor_at l a = Some gh" for a gh
  proof (cases "governor_at (world h) a")
    case None
    then show ?thesis using that assms(3) by (auto simp: outside_def intro: reaches_init)
  next
    case (Some gh0)
    then have "governor_at l a = governor_at (world h) a" using assms(3) by (simp add: outside_def)
    then show ?thesis using that inv by (simp add: protocol_inv_def)
  qed
qed

lemma governor_step_inv:
  assumes inv: "protocol_inv base (now, h)" and "now \<le> now'" and at: "governor_at (world h) a = Some gh"
    and exec: "governor_exec (env :: unit env) caller c gh = Inr ((), gh')"
  shows "protocol_inv base
    (now', h\<lparr>world := (world h)\<lparr>governor_at := (governor_at (world h))(a \<mapsto> gh')\<rparr>\<rparr>)"
proof (rule protocol_inv_world [OF inv])
  let ?l = "(world h)\<lparr>governor_at := (governor_at (world h))(a \<mapsto> gh')\<rparr>"
  show "streams_sound base now' ?l"
  proof (rule streams_sound_mono [OF _ assms(2)])
    show "streams_sound base now (world h)" using inv by (simp add: protocol_inv_def)
  qed simp_all
  have "reaches governor_init governor_move gh" using inv at by (simp add: protocol_inv_def)
  then have "reaches governor_init governor_move gh'"
    using governor_moveI [OF exec] by (rule reaches_step)
  then show "reaches governor_init governor_move g" if "governor_at ?l b = Some g" for b g
    using that inv by (auto simp: protocol_inv_def split: if_splits)
qed simp

lemma protocol_step_inv: "protocol_step base s s' \<Longrightarrow> protocol_inv base s \<Longrightarrow> protocol_inv base s'"
proof (induction rule: protocol_step.induct)
  case at_factory
  then show ?case by (blast intro: factory_step_inv)
next
  case (at_governor now env h a gh caller c gh' authority recip factory)
  have "reaches governor_init governor_move gh"
    using at_governor(2,4) by (simp add: protocol_inv_def)
  then have "governor_inv gh" by (rule governor_machine.inv_reaches)
  then have "governor_exec env caller c gh = Inr ((), gh')"
    using at_governor(3) governor_not_reinitialized by blast
  with at_governor show ?case by (intro governor_step_inv)
next
  case (at_stream now env n h sh c r k sndr rcp tok rate t0 t1 clawback)
  have sound: "stream_sound base now (tokens (world h)) (stream_contract base n) sh"
    using at_stream(5,7) by (simp add: protocol_inv_def streams_sound_def)
  then have "stream_exec env c (on_ledger sh (tokens (world h))) = Inr (r, k)"
    using at_stream(6) sound_not_reinitialized [OF sound] by auto
  with at_stream show ?case by (intro stream_step_inv)
next
  case at_network
  then show ?case by (blast intro: network_step_inv)
qed

interpretation protocol_machine: invariant "protocol_init base" "protocol_step base" "protocol_inv base"
  for base
  by unfold_locales (auto intro: protocol_init_inv protocol_step_inv)

end
