(* ===== verification/Protocol.thy ===== *)
theory Protocol
  imports Protocol_Machine Factory_Witness
begin

text \<open>
  What each contract sees of the protocol, the solvency of the whole, and its witnesses.
\<close>

section \<open>What a contract sees of the protocol\<close>

text \<open>The factory's own state, a governor and a stream as parts of the whole.\<close>

definition factory_view :: "'w protocol_state \<Rightarrow> 'w factory_host" where
  "factory_view s = snd s"

definition governor_view :: "address \<Rightarrow> 'w protocol_state \<Rightarrow> unit governor_host" where
  "governor_view a s = the (governor_at (world (snd s)) a)"

definition stream_view :: "address \<Rightarrow> 'w protocol_state \<Rightarrow> 'w stream_state" where
  "stream_view a s = (fst s, on_ledger (the (stream_at (world (snd s)) a)) (tokens (world (snd s))))"

lemma later_one: "step s s' \<Longrightarrow> later step s s'"
  by (rule later_step [OF later_refl])

lemma factory_view_step:
  "protocol_step base s s' \<Longrightarrow> protocol_inv base s \<Longrightarrow>
   protocol_inv base s' \<and> later factory_move (factory_view s) (factory_view s')"
proof -
  assume step: "protocol_step base s s'" and inv: "protocol_inv base s"
  from step have "later factory_move (factory_view s) (factory_view s')"
    using inv
  proof (induction rule: protocol_step.induct)
    case (at_factory now env c h h')
    then have "factory_move h h'"
      using factory_exec_extends [of base h env c h'] by (auto simp: protocol_inv_def)
    then show ?case by (simp add: factory_view_def later_one)
  qed (auto simp: factory_view_def intro: later_one move_others)
  with step inv show ?thesis by (blast intro: protocol_step_inv)
qed

lemma governor_view_step:
  "protocol_step base s s' \<Longrightarrow> protocol_inv base s \<and> governor_at (world (snd s)) a \<noteq> None \<Longrightarrow>
   (protocol_inv base s' \<and> governor_at (world (snd s')) a \<noteq> None) \<and>
   later governor_move (governor_view a s) (governor_view a s')"
proof -
  assume step: "protocol_step base s s'"
    and inv: "protocol_inv base s \<and> governor_at (world (snd s)) a \<noteq> None"
  from step have "governor_at (world (snd s')) a \<noteq> None \<and>
      later governor_move (governor_view a s) (governor_view a s')"
    using inv
  proof (induction rule: protocol_step.induct)
    case (at_factory now env c h h')
    then have "governor_at (world h') = governor_at (world h)"
      using factory_exec_extends [of base h env c h'] by (auto simp: protocol_inv_def extends_ledger_def)
    with at_factory show ?case by (simp add: governor_view_def later_refl)
  next
    case (at_governor now env h b gh caller c gh' authority recip factory)
    have "governor_inv gh"
      using at_governor(2,4) by (auto simp: protocol_inv_def intro: governor_machine.inv_reaches)
    then have "governor_move gh gh'"
      using at_governor(3) governor_not_reinitialized by (blast intro: governor_moveI)
    with at_governor show ?case
      by (auto simp: governor_view_def later_refl intro: later_one)
  next
    case at_stream
    then show ?case by (simp add: governor_view_def put_stream_def later_refl)
  next
    case at_network
    then show ?case by (simp add: governor_view_def outside_def later_refl)
  qed
  with step inv show ?thesis by (blast intro: protocol_step_inv)
qed

lemma on_off_ledger [simp]: "on_ledger (off_ledger k) (world k) = k"
  by (simp add: on_ledger_def off_ledger_def)

lemma on_ledger_world [simp]: "(on_ledger sh w)\<lparr>world := w'\<rparr> = on_ledger sh w'"
  by (simp add: on_ledger_def)

text \<open>A step that leaves the storage of a stream alone and takes none of its tokens.\<close>

lemma stream_view_outside:
  assumes "fst s \<le> fst s'" and "stream_at (world (snd s)) a \<noteq> None"
    and "stream_at (world (snd s')) a = stream_at (world (snd s)) a"
    and "no_less T a (tokens (world (snd s))) (tokens (world (snd s')))"
  shows "stream_at (world (snd s')) a \<noteq> None \<and>
    later (stream_move T a) (stream_view a s) (stream_view a s')"
proof -
  obtain sh where sh: "stream_at (world (snd s)) a = Some sh" using assms(2) by blast
  have "stream_move T a (fst s, on_ledger sh (tokens (world (snd s))))
      (fst s', (on_ledger sh (tokens (world (snd s))))\<lparr>world := tokens (world (snd s'))\<rparr>)"
    using assms(1,4) by (intro move_outside) (simp_all add: no_less_def)
  then show ?thesis using sh assms(3) by (simp add: stream_view_def later_one)
qed

lemma stream_view_call:
  fixes env :: "'w env"
  assumes inv: "protocol_inv base (now, h)" and "now \<le> ledger_timestamp env"
    and "token_client env = token_client base" and "current_contract_address env = stream_contract base m"
    and "unsigned_streams base env" and sh: "stream_at (world h) (stream_contract base m) = Some sh"
    and exec: "stream_exec env c (on_ledger sh (tokens (world h))) = Inr (r, k)"
    and there: "stream_at (world h) (stream_contract base n) \<noteq> None"
  shows "stream_at (put_stream (stream_contract base m) k (world h)) (stream_contract base n) \<noteq> None \<and>
    later (stream_move (token_client base) (stream_contract base n))
      (stream_view (stream_contract base n) (now, h))
      (stream_view (stream_contract base n)
        (ledger_timestamp env, h\<lparr>world := put_stream (stream_contract base m) k (world h)\<rparr>))"
proof (cases "stream_contract base n = stream_contract base m")
  case True
  have "stream_move (token_client base) (stream_contract base m)
      (now, on_ledger sh (tokens (world h))) (ledger_timestamp env, k)"
    using assms(2-4) exec by (intro move_call) simp_all
  then show ?thesis using True sh by (simp add: stream_view_def put_stream_def later_one)
next
  case False
  have "stream_sound base now (tokens (world h)) (current_contract_address env) sh"
    using inv sh assms(4) by (simp add: protocol_inv_def streams_sound_def)
  moreover have "token_conserves (token_client base)" using inv by (simp add: protocol_inv_def)
  ultimately have "no_less (token_client base) (stream_contract base n) (tokens (world h)) (world k)"
    using stream_call_debits [OF _ assms(3) _ exec] assms(4,5) False by (simp add: unsigned_streams_def)
  then show ?thesis
    using stream_view_outside [of "(now, h)"
        "(ledger_timestamp env, h\<lparr>world := put_stream (stream_contract base m) k (world h)\<rparr>)"
        "stream_contract base n" "token_client base"] assms(2) False there
    by (simp add: put_stream_def)
qed

lemma stream_view_step:
  assumes step: "protocol_step base s s'"
    and inv: "protocol_inv base s \<and> stream_at (world (snd s)) (stream_contract base n) \<noteq> None"
  shows "(protocol_inv base s' \<and> stream_at (world (snd s')) (stream_contract base n) \<noteq> None) \<and>
    later (stream_move (token_client base) (stream_contract base n))
      (stream_view (stream_contract base n) s) (stream_view (stream_contract base n) s')"
proof -
  from step have "stream_at (world (snd s')) (stream_contract base n) \<noteq> None \<and>
      later (stream_move (token_client base) (stream_contract base n))
        (stream_view (stream_contract base n) s) (stream_view (stream_contract base n) s')"
    using inv
  proof (induction rule: protocol_step.induct)
    case (at_factory now env c h h')
    have "extends_ledger base (ledger_timestamp env) h h'"
      using at_factory factory_exec_extends [of base h env c h'] by (auto simp: protocol_inv_def)
    then show ?case
      using at_factory(1,6) by (intro stream_view_outside) (auto simp: extends_ledger_def)
  next
    case (at_governor now env h a gh caller c gh' authority recip factory)
    then show ?case by (intro stream_view_outside) auto
  next
    case (at_stream now env m h sh c r k sndr rcp tok rate t0 t1 clawback)
    have sound: "stream_sound base now (tokens (world h)) (stream_contract base m) sh"
      using at_stream(5,7) by (simp add: protocol_inv_def streams_sound_def)
    have "stream_exec env c (on_ledger sh (tokens (world h))) = Inr (r, k)"
      using at_stream(6) sound_not_reinitialized [OF sound] by auto
    with at_stream show ?case using stream_view_call [of base now h env m sh c r k n] by simp
  next
    case (at_network now now' h l)
    then show ?case by (intro stream_view_outside) (auto simp: outside_def no_less_def)
  qed
  with step inv show ?thesis by (blast intro: protocol_step_inv)
qed

interpretation factory_part: simulation "protocol_step base" "protocol_inv base" factory_view factory_move
  for base
  by unfold_locales (rule factory_view_step)

interpretation governor_part: simulation "protocol_step base"
  "\<lambda>s. protocol_inv base s \<and> governor_at (world (snd s)) a \<noteq> None" "governor_view a" governor_move
  for base a
  by unfold_locales (rule governor_view_step)

interpretation stream_part: simulation "protocol_step base"
  "\<lambda>s. protocol_inv base s \<and> stream_at (world (snd s)) (stream_contract base n) \<noteq> None"
  "stream_view (stream_contract base n)" "stream_move (token_client base) (stream_contract base n)"
  for base n
  by unfold_locales (rule stream_view_step)

section \<open>The protocol as a whole\<close>

lemma sound_earned:
  assumes "holds i m (instance_store sh)" and "stream_sound base now w a sh"
    and "end_time i \<noteq> 0" and "\<not> is_clawback_enabled i" and "\<not> is_cancelled i"
  shows "remaining_due i \<le> sint (token_balance (token_client base) w (token i) a) \<and>
    earned now i - sint (withdrawn i) \<le> sint (token_balance (token_client base) w (token i) a)"
proof -
  have inv: "info_inv now i" and funded: "funded (token_client base) a i w"
    using assms by (auto simp: stream_sound_def dest: holds_inject)
  have "earned now i \<le> sint (rate_per_second i) * duration i"
    using earned_payable [OF inv order.refl] assms(3) by (simp add: payable_def)
  with funded assms(5) show ?thesis by (simp add: funded_def remaining_due_def)
qed

text \<open>Property C3. The protocol is solvent. In every state that the factory, the governors, the streams
  and the rest of the network can reach together, each id below the stream count has a
  stream of its own, at the address the registry gives, which no other id has: consistently stored, and, if it is bounded, without
  clawback and not cancelled, with all that it can still owe in its own escrow, hence all that its
  recipient has earned and not withdrawn.\<close>

theorem protocol_stays_solvent:
  assumes "reaches (protocol_init base) (protocol_step base) (now, h)"
  shows "\<exists>N. factory_stream_count h = Inr (N, h) \<and>
    (\<forall>n. n < N \<longrightarrow>
      factory_stream_address n h = Inr (Some (stream_contract base n), h) \<and>
      (\<exists>sh i m. stream_at (world h) (stream_contract base n) = Some sh \<and>
         holds i m (instance_store sh) \<and> info_inv now i \<and>
         (\<forall>n'. n' < N \<and> stream_contract base n' = stream_contract base n \<longrightarrow> n' = n) \<and>
         (end_time i \<noteq> 0 \<and> \<not> is_clawback_enabled i \<and> \<not> is_cancelled i \<longrightarrow>
            sint (rate_per_second i) * duration i - sint (withdrawn i) \<le>
              sint (token_balance (token_client base) (tokens (world h)) (token i) (stream_contract base n)) \<and>
            earned now i - sint (withdrawn i) \<le>
              sint (token_balance (token_client base) (tokens (world h)) (token i) (stream_contract base n)))))"
proof -
  have inv: "protocol_inv base (now, h)" using assms by (rule protocol_machine.inv_reaches)
  then obtain cs where cs: "registers cs h" by (auto simp: protocol_inv_def factory_inv_def)
  have live: "registered_live base h" and sound: "streams_sound base now (world h)"
    using inv by (simp_all add: protocol_inv_def)
  have "factory_stream_address n h = Inr (Some (stream_contract base n), h) \<and>
      (\<exists>sh i m. stream_at (world h) (stream_contract base n) = Some sh \<and>
         holds i m (instance_store sh) \<and> info_inv now i \<and>
         (\<forall>n'. n' < of_nat (length cs) \<and> stream_contract base n' = stream_contract base n \<longrightarrow> n' = n) \<and>
         (end_time i \<noteq> 0 \<and> \<not> is_clawback_enabled i \<and> \<not> is_cancelled i \<longrightarrow>
            remaining_due i \<le>
              sint (token_balance (token_client base) (tokens (world h)) (token i) (stream_contract base n)) \<and>
            earned now i - sint (withdrawn i) \<le>
              sint (token_balance (token_client base) (tokens (world h)) (token i) (stream_contract base n))))"
    if n: "n < of_nat (length cs)" for n
  proof -
    have below: "m < of_nat (length cs) \<longleftrightarrow> unat m < length cs" for m :: u64
      using cs by (simp add: word_less_nat_alt registers_def unat_of_nat_u64)
    have there: "persistent_store h (StreamAddr m) = Some (VAddress (snd (snd (cs ! unat m))))"
      if "m < of_nat (length cs)" for m
      using that cs by (simp add: registers_def below)
    have un: "unat n < length cs" using n by (simp add: below)
    note entry = there [OF n]
    have own: "\<forall>n'. n' < of_nat (length cs) \<and> stream_contract base n' = stream_contract base n \<longrightarrow> n' = n"
      using live there n by (simp add: registered_live_def)
    have addr: "snd (snd (cs ! unat n)) = stream_contract base n"
      and "stream_at (world h) (stream_contract base n) \<noteq> None"
      using live entry by (auto simp: registered_live_def)
    then obtain sh where sh: "stream_at (world h) (stream_contract base n) = Some sh" by blast
    then have s: "stream_sound base now (tokens (world h)) (stream_contract base n) sh"
      using sound by (simp add: streams_sound_def)
    then obtain i m where i: "holds i m (instance_store sh)" "info_inv now i" by (rule stream_soundE)
    have "factory_stream_address n h = Inr (Some (stream_contract base n), h)"
      using registers_views(2) [OF cs, of n] un addr by simp
    then show ?thesis using sh i own sound_earned [OF i(1) s] by blast
  qed
  then show ?thesis using registers_views(1) [OF cs] unfolding remaining_due_def by blast
qed

text \<open>Property C13. The contracts do not interfere: whatever happens in the protocol, the factory sees a run
  of its own machine, every governor a run of its own, and every stream of the factory a run of its
  own, in which others only ever add to its tokens. So each property proved of the later states of
  one contract holds of it inside the protocol.\<close>

theorem protocol_refines_contracts:
  assumes "reaches (protocol_init base) (protocol_step base) (t, h)"
    and "later (protocol_step base) (t, h) (t', h')"
  shows "later factory_move h h' \<and>
    (\<forall>a gh. governor_at (world h) a = Some gh \<longrightarrow>
       (\<exists>gh'. governor_at (world h') a = Some gh' \<and> later governor_move gh gh')) \<and>
    (\<forall>n sh. stream_at (world h) (stream_contract base n) = Some sh \<longrightarrow>
       (\<exists>sh'. stream_at (world h') (stream_contract base n) = Some sh' \<and>
          later (stream_move (token_client base) (stream_contract base n))
            (t, on_ledger sh (tokens (world h))) (t', on_ledger sh' (tokens (world h')))))"
proof -
  have inv: "protocol_inv base (t, h)" using assms(1) by (rule protocol_machine.inv_reaches)
  have "later factory_move h h'"
    using factory_part.sim_later [OF assms(2) inv] by (simp add: factory_view_def)
  moreover have "\<exists>gh'. governor_at (world h') a = Some gh' \<and> later governor_move gh gh'"
    if "governor_at (world h) a = Some gh" for a gh
    using governor_part.sim_later [OF assms(2), of a] inv that by (auto simp: governor_view_def)
  moreover have "\<exists>sh'. stream_at (world h') (stream_contract base n) = Some sh' \<and>
      later (stream_move (token_client base) (stream_contract base n))
        (t, on_ledger sh (tokens (world h))) (t', on_ledger sh' (tokens (world h')))"
    if "stream_at (world h) (stream_contract base n) = Some sh" for n sh
    using stream_part.sim_later [OF assms(2), of n] inv that by (auto simp: stream_view_def)
  ultimately show ?thesis by blast
qed

section \<open>Witnesses\<close>

text \<open>The factory of \<open>Factory_Witness\<close>, where contracts do not sign, before and after one creation.\<close>

definition wit_signed_env :: "balance_table factory_env" where
  "wit_signed_env = wit_factory_env\<lparr>has_authorized := (\<lambda>a. a < 100)\<rparr>"

lemma wit_contract_ge: "100 \<le> stream_contract wit_factory_env n"
  by (simp add: stream_contract_def wit_factory_env_def)

lemma wit_unsigned: "unsigned_streams wit_factory_env wit_signed_env"
  using wit_contract_ge by (simp add: unsigned_streams_def wit_signed_env_def not_less)

lemma wit_on_chain: "on_chain wit_factory_env wit_signed_env"
  by (simp add: on_chain_def wit_signed_env_def)

lemma wit_protocol_init: "protocol_init wit_factory_env (0, wit_factory)"
proof (rule protocol_initI)
  show "reaches governor_init governor_move gh" if "governor_at (world wit_factory) a = Some gh" for a gh
    using that wit_governor_init by (auto simp: wit_factory_def wit_ledger_def intro: reaches_init split: if_splits)
  show "factory_init wit_factory" by (rule wit_factory_init)
qed (simp_all add: ledger_token_conserves wasm_is_stream_def wit_factory_def wit_ledger_def)

lemma wit_signed_creates:
  "\<exists>h'. creates wit_signed_env 1 2 3 10000 1 10 10010 False wit_factory 0 h'"
proof -
  have "stream_contract wit_signed_env 0 = stream_contract wit_factory_env 0"
    by (simp add: stream_contract_def wit_signed_env_def)
  then show ?thesis
    using wit_creates unfolding creates_iff by (auto simp: wit_signed_env_def)
qed

lemma wit_protocol_creation:
  obtains h' where "creates wit_signed_env 1 2 3 10000 1 10 10010 False wit_factory 0 h'"
    and "later (protocol_step wit_factory_env) (0, wit_factory) (10, h')"
    and "factory_stream_count h' = Inr (1, h')"
proof -
  obtain h' where c: "creates wit_signed_env 1 2 3 10000 1 10 10010 False wit_factory 0 h'"
    using wit_signed_creates by blast
  then have "factory_exec wit_signed_env (CreateStream 1 2 3 10000 1 10 10010 False) wit_factory = Inr ((), h')"
    by (simp add: tx_simps factory_create_stream_iff) blast
  then have "protocol_step wit_factory_env (0, wit_factory) (ledger_timestamp wit_signed_env, h')"
    using wit_on_chain wit_unsigned
    by (intro at_factory [where c = "CreateStream 1 2 3 10000 1 10 10010 False"]) simp_all
  moreover have "ledger_timestamp wit_signed_env = 10" by (simp add: wit_signed_env_def)
  ultimately have "later (protocol_step wit_factory_env) (0, wit_factory) (10, h')"
    by (simp add: later_one)
  moreover have "factory_stream_count h' = Inr (1, h')"
    using registers_views(1) [of "[(1, 2, stream_contract wit_signed_env 0)]" h']
      creates_registers [OF c wit_registers] by simp
  ultimately show ?thesis by (rule that [OF c])
qed

lemma wit_protocol_run:
  obtains h' where "later (protocol_step wit_factory_env) (0, wit_factory) (10, h')"
    and "factory_stream_count h' = Inr (1, h')"
  using wit_protocol_creation that by blast

lemma wit_protocol_reached:
  obtains h' where "reaches (protocol_init wit_factory_env) (protocol_step wit_factory_env) (10, h')"
    and "factory_stream_count h' = Inr (1, h')"
proof -
  obtain h' where run: "later (protocol_step wit_factory_env) (0, wit_factory) (10, h')"
    and one: "factory_stream_count h' = Inr (1, h')"
    by (rule wit_protocol_run)
  show ?thesis
    using reaches_init [of "protocol_init wit_factory_env", OF wit_protocol_init] run one
    by (intro that [of h']) (auto intro: reaches_later)
qed

theorem protocol_stays_solvent_witness:
  "\<exists>h' sh i m. reaches (protocol_init wit_factory_env) (protocol_step wit_factory_env) (10, h') \<and>
     factory_stream_address 0 h' = Inr (Some 100, h') \<and> stream_at (world h') 100 = Some sh \<and>
     holds i m (instance_store sh)"
proof -
  obtain h' where run: "later (protocol_step wit_factory_env) (0, wit_factory) (10, h')"
    and one: "factory_stream_count h' = Inr (1, h')"
    by (rule wit_protocol_run)
  have r: "reaches (protocol_init wit_factory_env) (protocol_step wit_factory_env) (10, h')"
    using reaches_init [of "protocol_init wit_factory_env", OF wit_protocol_init] run by (rule reaches_later)
  from protocol_stays_solvent [OF r] one
  have "factory_stream_address 0 h' = Inr (Some (stream_contract wit_factory_env 0), h') \<and>
      (\<exists>sh i m. stream_at (world h') (stream_contract wit_factory_env 0) = Some sh \<and>
        holds i m (instance_store sh))"
    by auto
  with r show ?thesis by (auto simp: wit_contract)
qed

theorem protocol_refines_contracts_witness:
  "\<exists>h'. later factory_move wit_factory h' \<and>
     (\<exists>gh'. governor_at (world h') 30 = Some gh' \<and> later governor_move wit_governor_host gh')"
proof -
  obtain h' where run: "later (protocol_step wit_factory_env) (0, wit_factory) (10, h')"
    by (rule wit_protocol_run)
  have "reaches (protocol_init wit_factory_env) (protocol_step wit_factory_env) (0, wit_factory)"
    using wit_protocol_init by (rule reaches_init)
  from protocol_refines_contracts [OF this run] show ?thesis
    by (auto simp: wit_factory_def wit_ledger_def)
qed

end
