(* ===== verification/Protocol_Creation.thy ===== *)
theory Protocol_Creation
  imports Protocol
begin

text \<open>
  The protocol does not turn valid streams away: what it takes for a creation to succeed, in any
  state the contracts and their ledger can reach.
\<close>

lemma deposit_goes_through:
  assumes "token_conserves T" and "token_live T" and "0 \<le> sint d" and "sint d \<le> sint (token_balance T w tk s)"
    and "sint (token_balance T w tk f) + sint d < 2 ^ 127" and "sint (token_balance T w tk a) + sint d < 2 ^ 127"
  obtains w1 w2 where "token_transfer T w tk s f d = Some w1" and "token_transfer T w1 tk f a d = Some w2"
proof -
  have goes: "\<exists>v. token_transfer T u tk src dst d = Some v"
    if "sint d \<le> sint (token_balance T u tk src)" "src = dst \<or> sint (token_balance T u tk dst) + sint d < 2 ^ 127" for u src dst
    using assms(2,3) that unfolding token_live_def by fastforce
  obtain w1 where w1: "token_transfer T w tk s f d = Some w1" using goes assms(4,5) by blast
  note b = token_transfer_balance [OF assms(1) w1, of tk, simplified]
  have "0 \<le> sint (token_balance T w tk f)" using assms(1) by (rule token_balance_nonneg)
  then have "sint d \<le> sint (token_balance T w1 tk f)" using assms(3,4) by (auto simp: b moved_def)
  moreover have "f = a \<or> sint (token_balance T w1 tk a) + sint d < 2 ^ 127" using assms(3,6) by (auto simp: b moved_def)
  ultimately obtain w2 where "token_transfer T w1 tk f a d = Some w2" using goes by blast
  with w1 show ?thesis by (rule that)
qed

text \<open>
  \<open>accepting base c h\<close>: a factory in use that is not paused, whose governor answers with the
  configuration \<open>c\<close> and whose code for new streams is that of the stream contract.
\<close>

definition accepting :: "'w factory_env \<Rightarrow> governor_config \<Rightarrow> 'w factory_host \<Rightarrow> bool" where
  "accepting base c h \<longleftrightarrow> factory_inv h \<and> trusted base h \<and> pause_is_paused h = Inr (False, h) \<and>
     (\<exists>governor. instance_store h GovernorAddress = Some (VAddress governor) \<and>
        governance_config (world h) governor = Inr c)"

lemma reachable_accepting:
  assumes "protocol_inv base (now, h)" and "factory_is_paused h = Inr (False, h)"
    and "instance_store h GovernorAddress = Some (VAddress governor)"
    and "governor_at (world h) governor = Some gh"
  obtains c where "governor_get_config gh = Inr (c, gh)" and "accepting base c h"
proof -
  have "reaches governor_init governor_move gh" using assms(1,4) by (simp add: protocol_inv_def)
  then have "governor_inv gh" by (rule governor_machine.inv_reaches)
  then obtain g where g: "instance_store gh = governor_store g" by (auto simp: governor_inv_def)
  have c: "governor_get_config gh = Inr (config_of g, gh)" by (rule config_load_store [OF g])
  then have "governance_config (world h) governor = Inr (config_of g)"
    using assms(4) by (simp add: governance_config_def)
  then have "accepting base (config_of g) h"
    using assms(1-3) by (simp add: accepting_def protocol_inv_def factory_is_paused_def)
  with c show ?thesis by (rule that)
qed

text \<open>After a creation the factory still accepts, with the same configuration.\<close>

lemma accepting_created:
  fixes env :: "'w factory_env"
  assumes "accepting base c h" and "creates env sndr rcp tok deposit rate t0 t1 clawback h n h'"
  shows "accepting base c h'"
proof -
  have "factory_create_stream env sndr rcp tok deposit rate t0 t1 clawback h = Inr (n, h')"
    using assms(2) by (simp add: factory_create_stream_iff)
  then have "factory_inv h'"
    using assms(1) by (auto simp: accepting_def intro: factory_move_inv move_create)
  moreover have "governance_config (world h') g = governance_config (world h) g" for g
    using assms(2) by (auto simp: creates_iff governance_config_def)
  ultimately show ?thesis
    using assms by (auto simp: accepting_def creates_iff trusted_def pause_is_paused_Inr_iff)
qed

lemma creation_goes_through:
  fixes env :: "'w factory_env"
  assumes "accepting base c h" and "token_conserves (token_client base)" and "token_live (token_client base)"
    and "on_chain base env" and "has_authorized env sndr"
    and "terms_ok (ledger_timestamp env) deposit rate t0 t1" and "bounds_ok c rate t0 t1"
    and "instance_store h StreamCount = Some (VU64 N)" and "uint N + 1 < 2 ^ 64"
    and "stream_at (world h) (stream_contract base N) = None"
    and "governor_at (world h) (stream_contract base N) = None"
    and "sint deposit \<le> sint (token_balance (token_client base) (tokens (world h)) tok sndr)"
    and "sint (token_balance (token_client base) (tokens (world h)) tok (current_contract_address base)) +
      sint deposit < 2 ^ 127"
    and "sint (token_balance (token_client base) (tokens (world h)) tok (stream_contract base N)) +
      sint deposit < 2 ^ 127"
  obtains h' sh where "creates env sndr rcp tok deposit rate t0 t1 clawback h N h'"
    and "stream_at (world h') = (stream_at (world h))(stream_contract base N \<mapsto> sh)"
    and "holds (initial_info sndr rcp tok rate t0 t1 clawback) 0 (instance_store sh)"
    and "instance_store h' StreamCount = Some (VU64 (N + 1))"
proof -
  have same: "token_client env = token_client base" "stream_contract env N = stream_contract base N"
      "current_contract_address env = current_contract_address base"
    using assms(4) by (simp_all add: on_chain_def stream_contract_def)
  obtain governor hash where conf: "instance_store h GovernorAddress = Some (VAddress governor)"
      "governance_config (world h) governor = Inr c" "instance_store h StreamWasmHash = Some (VBytes hash)"
    using assms(1) by (auto simp: accepting_def factory_inv_def configured_def)
  have d: "0 \<le> sint deposit" using assms(6) by (simp add: terms_ok_def)
  obtain w1 w2 where w: "token_transfer (token_client env) (tokens (world h)) tok sndr
        (current_contract_address env) deposit = Some w1"
      "token_transfer (token_client env) w1 tok (current_contract_address env) (stream_contract env N) deposit = Some w2"
    using deposit_goes_through [OF assms(2,3) d assms(12-14)] unfolding same by blast
  obtain sh where sh: "stream_initialize sndr rcp tok rate t0 t1 clawback fresh_host = Inr ((), sh)"
    and started: "stream_started (initial_info sndr rcp tok rate t0 t1 clawback) sh"
    using drip_stream.terms_accepted [OF assms(6)] by blast
  have init: "wasm_initialize env hash = stream_initialize"
    using assms(1,4) conf(3) by (simp add: accepting_def trusted_def wasm_is_stream_def on_chain_def)
  have ids: "has_ids (persistent_store h (BySender sndr))" "has_ids (persistent_store h (ByRecipient rcp))"
    using assms(1) by (auto simp: accepting_def factory_inv_def registers_def)
  have flag: "instance_store h Paused \<in> {None, Some (VBool False)}"
    using assms(1) by (auto simp: accepting_def pause_is_paused_Inr_iff)
  obtain h' where "creates env sndr rcp tok deposit rate t0 t1 clawback h N h'"
    and "stream_at (world h') = (stream_at (world h))(stream_contract base N \<mapsto> sh)"
    and "instance_store h' StreamCount = Some (VU64 (N + 1))"
    using assms(5-11) conf w init sh ids flag unfolding creates_iff same(2) by simp
  moreover have "holds (initial_info sndr rcp tok rate t0 t1 clawback) 0 (instance_store sh)"
    using started by (simp add: stream_started_def)
  ultimately show ?thesis by (intro that)
qed

lemma out_of_bounds:
  assumes "accepting base c h" and "has_authorized env sndr"
    and "terms_ok (ledger_timestamp env) deposit rate t0 t1" and "\<not> bounds_ok c rate t0 t1"
  shows "\<exists>e. factory_create_stream env sndr rcp tok deposit rate t0 t1 clawback h = Inl (Err e) \<and>
    e \<in> {RateExceedsMax, DurationTooShort, DurationExceedsMax}"
proof -
  have t: "t1 = 0 \<or> t0 < t1" using assms(3) by (auto simp: terms_ok_def)
  have terms: "check_stream_terms env deposit rate t0 t1 h = Inr ((), h)"
    using assms(3) by (simp add: check_stream_terms_Inr_iff)
  show ?thesis
    using assms(1,2,4)
    by (auto simp: accepting_def factory_create_stream_def tx_eval host_eval terms enforce_bounds_eval [OF t]
        bounds_ok_def word_gt_0)
qed

lemma create_step:
  assumes "creates env sndr rcp tok deposit rate t0 t1 clawback h n h'" and "now \<le> ledger_timestamp env"
    and "on_chain base env" and "unsigned_streams base env"
  shows "protocol_step base (now, h) (ledger_timestamp env, h')"
proof -
  have "factory_exec env (CreateStream sndr rcp tok deposit rate t0 t1 clawback) h = Inr ((), h')"
    using assms(1) by (simp add: tx_simps factory_create_stream_iff) blast
  then show ?thesis
    using assms(2-4) by (intro at_factory [where c = "CreateStream sndr rcp tok deposit rate t0 t1 clawback"]) simp_all
qed

lemma stored_count:
  "factory_inv h \<Longrightarrow> factory_stream_count h = Inr (N, h) \<longleftrightarrow> instance_store h StreamCount = Some (VU64 N)"
  by (auto simp: factory_inv_def registers_def factory_stream_count_def tx_eval host_eval)

text \<open>The factory not paused and its governor deployed.\<close>

lemma creation_when_open:
  assumes "reaches (protocol_init base) (protocol_step base) (now, h)"
    and "factory_stream_count h = Inr (N, h)" and "uint N + 1 < 2 ^ 64"
    and "factory_is_paused h = Inr (False, h)"
    and "instance_store h GovernorAddress = Some (VAddress governor)"
    and "governor_at (world h) governor = Some gh"
    and "stream_at (world h) (stream_contract base N) = None"
    and "governor_at (world h) (stream_contract base N) = None"
    and "on_chain base env" and "unsigned_streams base env" and "now \<le> ledger_timestamp env"
    and "has_authorized env sndr" and "terms_ok (ledger_timestamp env) deposit rate t0 t1"
    and "token_live (token_client base)"
    and "sint deposit \<le> sint (token_balance (token_client base) (tokens (world h)) tok sndr)"
    and "sint (token_balance (token_client base) (tokens (world h)) tok (current_contract_address base)) +
      sint deposit < 2 ^ 127"
    and "sint (token_balance (token_client base) (tokens (world h)) tok (stream_contract base N)) +
      sint deposit < 2 ^ 127"
  shows "\<exists>c. governor_get_config gh = Inr (c, gh) \<and>
    (if bounds_ok c rate t0 t1
     then \<exists>h' sh. factory_create_stream env sndr rcp tok deposit rate t0 t1 clawback h = Inr (N, h') \<and>
       protocol_step base (now, h) (ledger_timestamp env, h') \<and>
       factory_stream_count h' = Inr (N + 1, h') \<and>
       stream_at (world h') (stream_contract base N) = Some sh \<and>
       holds (initial_info sndr rcp tok rate t0 t1 clawback) 0 (instance_store sh)
     else \<exists>e. factory_create_stream env sndr rcp tok deposit rate t0 t1 clawback h = Inl (Err e) \<and>
       e \<in> {RateExceedsMax, DurationTooShort, DurationExceedsMax})"
proof -
  have inv: "protocol_inv base (now, h)" using assms(1) by (rule protocol_machine.inv_reaches)
  then have T: "token_conserves (token_client base)" and fi: "factory_inv h" by (simp_all add: protocol_inv_def)
  obtain c where c: "governor_get_config gh = Inr (c, gh)" and ready: "accepting base c h"
    using reachable_accepting [OF inv assms(4-6)] .
  have count: "instance_store h StreamCount = Some (VU64 N)" using stored_count [OF fi] assms(2) by blast
  have success: "\<exists>h' sh. factory_create_stream env sndr rcp tok deposit rate t0 t1 clawback h = Inr (N, h') \<and>
       protocol_step base (now, h) (ledger_timestamp env, h') \<and>
       factory_stream_count h' = Inr (N + 1, h') \<and>
       stream_at (world h') (stream_contract base N) = Some sh \<and>
       holds (initial_info sndr rcp tok rate t0 t1 clawback) 0 (instance_store sh)"
    if within: "bounds_ok c rate t0 t1"
  proof -
    obtain h' sh where made: "creates env sndr rcp tok deposit rate t0 t1 clawback h N h'"
      and at: "stream_at (world h') = (stream_at (world h))(stream_contract base N \<mapsto> sh)"
      and holds: "holds (initial_info sndr rcp tok rate t0 t1 clawback) 0 (instance_store sh)"
      and next_id: "instance_store h' StreamCount = Some (VU64 (N + 1))"
      using creation_goes_through [OF ready T assms(14,9,12,13) within count assms(3,7,8,15-17)] .
    have "factory_inv h'" using accepting_created [OF ready made] by (simp add: accepting_def)
    then have "factory_stream_count h' = Inr (N + 1, h')" using next_id by (simp add: stored_count)
    with made at holds create_step [OF made assms(11,9,10)] show ?thesis
      unfolding factory_create_stream_iff by (intro exI [of _ h'] exI [of _ sh]) simp
  qed
  with out_of_bounds [OF ready assms(12,13)] c show ?thesis by auto
qed

lemma closed_or_blind:
  assumes "instance_store h GovernorAddress = Some (VAddress governor)" and "has_authorized env sndr"
    and "terms_ok (ledger_timestamp env) deposit rate t0 t1" and "pause_is_paused h = Inr (p, h)"
  shows "p \<Longrightarrow> factory_create_stream env sndr rcp tok deposit rate t0 t1 clawback h = Inl (Err ContractPaused)"
    and "\<not> p \<Longrightarrow> governor_at (world h) governor = None \<Longrightarrow>
      factory_create_stream env sndr rcp tok deposit rate t0 t1 clawback h =
        Inl (Err factory_error.GovernorNotResponding)"
  using assms check_stream_terms_Inr_iff [of env deposit rate t0 t1 h "((), h)"]
  by (simp_all add: factory_create_stream_def governance_config_def tx_eval host_eval)

text \<open>Property C6. What comes of a valid creation: take any state that the protocol can reach with an id
  left and the address of that id free, and a creation that the sender signed, with terms that are
  valid at that moment, a deposit that the sender can pay and the balances can hold, and a token
  contract that makes payable transfers. While the factory is paused it fails with
  \<open>ContractPaused\<close>, and while nothing is deployed at its governor's address with
  \<open>GovernorNotResponding\<close>. Otherwise the governor has a configuration, and the creation succeeds
  exactly when the terms respect its bounds, and else fails with the error of a bound. A success is a
  step of the protocol, the new stream holds the agreed terms, and the count goes up by one.\<close>

theorem valid_creations_succeed:
  assumes "reaches (protocol_init base) (protocol_step base) (now, h)"
    and "factory_stream_count h = Inr (N, h)" and "uint N + 1 < 2 ^ 64"
    and "factory_is_paused h = Inr (paused, h)"
    and "stream_at (world h) (stream_contract base N) = None"
    and "governor_at (world h) (stream_contract base N) = None"
    and "on_chain base env" and "unsigned_streams base env" and "now \<le> ledger_timestamp env"
    and "has_authorized env sndr" and "terms_ok (ledger_timestamp env) deposit rate t0 t1"
    and "token_live (token_client base)"
    and "sint deposit \<le> sint (token_balance (token_client base) (tokens (world h)) tok sndr)"
    and "sint (token_balance (token_client base) (tokens (world h)) tok (current_contract_address base)) +
      sint deposit < 2 ^ 127"
    and "sint (token_balance (token_client base) (tokens (world h)) tok (stream_contract base N)) +
      sint deposit < 2 ^ 127"
  shows "\<exists>governor. instance_store h GovernorAddress = Some (VAddress governor) \<and>
    (if paused
     then factory_create_stream env sndr rcp tok deposit rate t0 t1 clawback h = Inl (Err ContractPaused)
     else case governor_at (world h) governor of
       None \<Rightarrow> factory_create_stream env sndr rcp tok deposit rate t0 t1 clawback h =
         Inl (Err factory_error.GovernorNotResponding)
     | Some gh \<Rightarrow> \<exists>c. governor_get_config gh = Inr (c, gh) \<and>
        (if bounds_ok c rate t0 t1
         then \<exists>h' sh. factory_create_stream env sndr rcp tok deposit rate t0 t1 clawback h = Inr (N, h') \<and>
           protocol_step base (now, h) (ledger_timestamp env, h') \<and>
           factory_stream_count h' = Inr (N + 1, h') \<and>
           stream_at (world h') (stream_contract base N) = Some sh \<and>
           holds (initial_info sndr rcp tok rate t0 t1 clawback) 0 (instance_store sh)
         else \<exists>e. factory_create_stream env sndr rcp tok deposit rate t0 t1 clawback h = Inl (Err e) \<and>
           e \<in> {RateExceedsMax, DurationTooShort, DurationExceedsMax}))"
proof -
  have "protocol_inv base (now, h)" using assms(1) by (rule protocol_machine.inv_reaches)
  then obtain governor where g: "instance_store h GovernorAddress = Some (VAddress governor)"
    by (auto simp: protocol_inv_def factory_inv_def configured_def)
  have p: "pause_is_paused h = Inr (paused, h)" using assms(4) by (simp add: factory_is_paused_def)
  note closed = closed_or_blind [OF g assms(10,11) p, of rcp tok clawback]
  note open_case = creation_when_open [OF assms(1-3) _ g _ assms(5-15), of _ rcp clawback]
  show ?thesis
    using closed open_case assms(4)
    by (cases paused; cases "governor_at (world h) governor"; intro exI [of _ governor] conjI g) simp_all
qed

section \<open>Witness\<close>

theorem valid_creations_succeed_witness:
  "\<exists>h'. factory_create_stream wit_signed_env 1 2 3 10000 1 10 10010 False wit_factory = Inr (0, h') \<and>
     protocol_step wit_factory_env (0, wit_factory) (10, h') \<and> factory_stream_count h' = Inr (1, h')"
proof -
  have r: "reaches (protocol_init wit_factory_env) (protocol_step wit_factory_env) (0, wit_factory)"
    using wit_protocol_init by (rule reaches_init)
  have state: "factory_stream_count wit_factory = Inr (0, wit_factory)"
    "factory_is_paused wit_factory = Inr (False, wit_factory)"
    "instance_store wit_factory GovernorAddress = Some (VAddress 30)"
    "governor_at (world wit_factory) 30 = Some wit_governor_host"
    "stream_at (world wit_factory) (stream_contract wit_factory_env 0) = None"
    "governor_at (world wit_factory) (stream_contract wit_factory_env 0) = None"
    by (simp_all add: wit_factory_def wit_ledger_def factory_stream_count_def factory_is_paused_def
        pause_is_paused_def tx_eval host_eval wit_contract)
  have env: "0 \<le> ledger_timestamp wit_signed_env" "has_authorized wit_signed_env 1"
    "terms_ok (ledger_timestamp wit_signed_env) 10000 1 10 10010" "token_live (token_client wit_factory_env)"
    using ledger_token_live by (simp_all add: wit_signed_env_def wit_factory_env_def terms_ok_def)
  have bals: "sint (10000 :: i128) \<le> sint (token_balance (token_client wit_factory_env) (tokens (world wit_factory)) 3 1)"
    "sint (token_balance (token_client wit_factory_env) (tokens (world wit_factory)) 3
      (current_contract_address wit_factory_env)) + sint (10000 :: i128) < 2 ^ 127"
    "sint (token_balance (token_client wit_factory_env) (tokens (world wit_factory)) 3
      (stream_contract wit_factory_env 0)) + sint (10000 :: i128) < 2 ^ 127"
    by (simp_all add: wit_contract)
      (simp_all add: wit_factory_env_def wit_factory_def wit_ledger_def ledger_token_def)
  obtain h0 where "factory_create_stream wit_signed_env 1 2 3 10000 1 10 10010 False wit_factory = Inr (0, h0)"
    using wit_signed_creates unfolding factory_create_stream_iff [symmetric] by blast
  then show ?thesis
    using valid_creations_succeed [OF r state(1) _ state(2,5,6) wit_on_chain wit_unsigned env bals, of 2 False]
    by (auto simp: wit_signed_env_def state(3,4) split: if_splits)
qed

end
