(* ===== verification/Protocol_Batch.thy ===== *)
theory Protocol_Batch
  imports Protocol
begin

text \<open>
  Batches: what a batch that succeeds has checked, created and moved, from its first request to its last.
\<close>

definition request_ok :: "u64 \<Rightarrow> batch_stream_request \<Rightarrow> bool" where
  "request_ok now r \<longleftrightarrow>
     terms_ok now (request_deposit r) (request_rate_per_sec r) (request_start_time r) (request_end_time r)"

definition request_within :: "governor_config \<Rightarrow> batch_stream_request \<Rightarrow> bool" where
  "request_within c r \<longleftrightarrow> bounds_ok c (request_rate_per_sec r) (request_start_time r) (request_end_time r)"

definition request_info :: "address \<Rightarrow> bool \<Rightarrow> batch_stream_request \<Rightarrow> stream_info" where
  "request_info sndr clawback r = initial_info sndr (request_recipient r) (request_token r)
     (request_rate_per_sec r) (request_start_time r) (request_end_time r) clawback"

text \<open>What the deposits do to the balance of an account in a token.\<close>

definition deposits_moved ::
  "'w factory_env \<Rightarrow> address \<Rightarrow> u64 list \<Rightarrow> batch_stream_request list \<Rightarrow> address \<Rightarrow> address \<Rightarrow> int" where
  "deposits_moved base sndr ns rs tk who =
     (\<Sum>(n, r) \<leftarrow> zip ns rs. if tk = request_token r
        then moved sndr (stream_contract base n) (sint (request_deposit r)) who else 0)"

lemma deposits_moved_simps [simp]:
  "deposits_moved base sndr [] rs tk who = 0"
  "deposits_moved base sndr (n # ns) (r # rs) tk who = (if tk = request_token r
     then moved sndr (stream_contract base n) (sint (request_deposit r)) who else 0) +
     deposits_moved base sndr ns rs tk who"
  by (simp_all add: deposits_moved_def)

text \<open>What no creation changes: the governor that the factory asks, and the code of new streams.\<close>

lemma creates_all_settings:
  "creates_all env sndr clawback rs h ns h' \<Longrightarrow>
   instance_store h' GovernorAddress = instance_store h GovernorAddress \<and>
   governance_config (world h') = governance_config (world h) \<and>
   instance_store h' StreamWasmHash = instance_store h StreamWasmHash"
proof (induction rule: creates_all.induct)
  case (creates_more r h n h1 rs ns h2)
  have "governance_config (world h1) = governance_config (world h)"
    using creates_more.hyps(1) by (auto simp: creates_iff governance_config_def fun_eq_iff)
  with creates_more show ?case by (auto simp: creates_iff)
qed simp

lemma creates_all_checks:
  "creates_all env sndr clawback rs h ns h' \<Longrightarrow> r \<in> set rs \<Longrightarrow>
   has_authorized env sndr \<and> instance_store h Paused \<in> {None, Some (VBool False)} \<and>
   request_ok (ledger_timestamp env) r \<and>
   (\<exists>governor c. instance_store h GovernorAddress = Some (VAddress governor) \<and>
      governance_config (world h) governor = Inr c \<and> request_within c r)"
proof (induction rule: creates_all.induct)
  case (creates_more r' h n h1 rs ns h2)
  have "creates_all env sndr clawback [r'] h [n] h1"
    using creates_more.hyps(1) creates_none by (rule creates_all.creates_more)
  from creates_all_settings [OF this] creates_more show ?case
    by (auto simp: creates_iff request_ok_def request_within_def)
qed simp

lemma creates_all_moves:
  "creates_all env sndr clawback rs h ns h' \<Longrightarrow> token_conserves (token_client env) \<Longrightarrow>
   sint (token_balance (token_client env) (tokens (world h')) tk who) =
     sint (token_balance (token_client env) (tokens (world h)) tk who) + deposits_moved env sndr ns rs tk who"
proof (induction rule: creates_all.induct)
  case (creates_more r h n h1 rs ns h2)
  then show ?case using creates_moves_deposit [OF creates_more.prems creates_more.hyps(1), of tk who] by simp
qed simp

lemma creates_all_keeps_streams:
  "creates_all env sndr clawback rs h ns h' \<Longrightarrow> stream_at (world h) a = Some sh \<Longrightarrow>
   stream_at (world h') a = Some sh"
proof (induction rule: creates_all.induct)
  case (creates_more r h n h1 rs ns h2)
  have "stream_at (world h1) a = Some sh"
    using creates_more.hyps(1) creates_more.prems by (auto simp: creates_iff)
  then show ?case by (rule creates_more.IH)
qed

lemma creates_all_streams:
  "creates_all env sndr clawback rs h ns h' \<Longrightarrow> trusted env h \<Longrightarrow> i < length rs \<Longrightarrow>
   \<exists>sh. stream_at (world h) (stream_contract env (ns ! i)) = None \<and>
     stream_at (world h') (stream_contract env (ns ! i)) = Some sh \<and>
     holds (request_info sndr clawback (rs ! i)) 0 (instance_store sh)"
proof (induction arbitrary: i rule: creates_all.induct)
  case (creates_more r h n h1 rs ns h2)
  obtain sh where at: "stream_at (world h1) (stream_contract env n) = Some sh"
    and sh: "holds (request_info sndr clawback r) 0 (instance_store sh)"
    using drip_stream.created_is_started [OF creates_more.hyps(1)] creates_more.prems(1)
    by (auto simp: trusted_def wasm_is_stream_def stream_started_def request_info_def)
  show ?case
  proof (cases i)
    case 0
    have "stream_at (world h) (stream_contract env n) = None"
      using creates_more.hyps(1) by (auto simp: creates_iff)
    with 0 sh creates_all_keeps_streams [OF creates_more.hyps(2) at] show ?thesis by auto
  next
    case (Suc j)
    have "trusted env h1" using creates_more.hyps(1) creates_more.prems(1) by (auto simp: creates_iff trusted_def)
    then obtain sh' where "stream_at (world h1) (stream_contract env (ns ! j)) = None"
      "stream_at (world h2) (stream_contract env (ns ! j)) = Some sh'"
      "holds (request_info sndr clawback (rs ! j)) 0 (instance_store sh')"
      using creates_more.IH [of j] creates_more.prems(2) Suc by auto
    moreover from this(1) have "stream_at (world h) (stream_contract env (ns ! j)) = None"
      using creates_more.hyps(1) by (auto simp: creates_iff split: if_splits)
    ultimately show ?thesis using Suc by auto
  qed
qed simp

text \<open>Property C7. A batch that succeeds is whole: take any state that the protocol can reach, and a batch
  that succeeds there. Then it had one to a hundred requests, the sender had signed, the factory was
  not paused, the terms of every request were valid at that moment and within the bounds of the
  governor's one configuration. The ids returned are the next ones, in the order of the requests; at
  each id's address, where there was none before, is now a stream that holds the terms of its own
  request; every balance has moved by exactly the deposits, each from the sender to its own stream;
  and the batch is one step of the protocol. A batch that fails changes nothing, since a failure has no state.\<close>

theorem successful_batches_are_whole:
  assumes "reaches (protocol_init base) (protocol_step base) (now, h)"
    and "factory_stream_count h = Inr (N, h)"
    and "on_chain base env" and "unsigned_streams base env" and "now \<le> ledger_timestamp env"
    and "factory_create_batch_streams env sndr rs clawback h = Inr (ns, h')"
  shows "rs \<noteq> [] \<and> length rs \<le> 100 \<and> has_authorized env sndr \<and> factory_is_paused h = Inr (False, h) \<and>
    (\<exists>governor c. instance_store h GovernorAddress = Some (VAddress governor) \<and>
       governance_config (world h) governor = Inr c \<and>
       (\<forall>r \<in> set rs. request_ok (ledger_timestamp env) r \<and> request_within c r)) \<and>
    ns = map (\<lambda>i. N + of_nat i) [0 ..< length rs] \<and>
    (\<forall>i < length rs. stream_at (world h) (stream_contract base (ns ! i)) = None \<and>
       (\<exists>sh. stream_at (world h') (stream_contract base (ns ! i)) = Some sh \<and>
          holds (request_info sndr clawback (rs ! i)) 0 (instance_store sh))) \<and>
    (\<forall>tk who. sint (token_balance (token_client base) (tokens (world h')) tk who) =
       sint (token_balance (token_client base) (tokens (world h)) tk who) + deposits_moved base sndr ns rs tk who) \<and>
    factory_stream_count h' = Inr (N + of_nat (length rs), h') \<and>
    protocol_step base (now, h) (ledger_timestamp env, h')"
proof -
  have inv: "protocol_inv base (now, h)" using assms(1) by (rule protocol_machine.inv_reaches)
  then have T: "token_conserves (token_client base)" and fi: "factory_inv h" and tr: "trusted base h"
    by (simp_all add: protocol_inv_def)
  have same: "token_client env = token_client base" "stream_contract env = stream_contract base" "trusted env h"
    using assms(3) tr by (simp_all add: on_chain_def stream_contract_def trusted_def wasm_is_stream_def fun_eq_iff)
  have moved: "deposits_moved env = deposits_moved base" unfolding deposits_moved_def same ..
  have size: "rs \<noteq> []" "length rs \<le> 100" and all: "creates_all env sndr clawback rs h ns h'"
    using assms(6) by (auto simp: factory_create_batch_streams_def tx_simps create_each_iff MAX_BATCH_SIZE_def)
  note checks = creates_all_checks [OF all]
  obtain r where r: "r \<in> set rs" using size(1) by (cases rs) auto
  then obtain governor c where g: "instance_store h GovernorAddress = Some (VAddress governor)"
    "governance_config (world h) governor = Inr c" using checks by blast
  have valid: "\<forall>r \<in> set rs. request_ok (ledger_timestamp env) r \<and> request_within c r"
    using checks g by fastforce
  have open_now: "factory_is_paused h = Inr (False, h)"
    using checks [OF r] by (auto simp: factory_is_paused_def pause_is_paused_Inr_iff)
  obtain cs where cs: "registers cs h" using fi by (auto simp: factory_inv_def)
  have N: "N = of_nat (length cs)" using registers_views(1) [OF cs] assms(2) by simp
  obtain ds where ds: "length ds = length rs" "registers (cs @ ds) h'"
    and ids: "ns = map of_nat [length cs ..< length cs + length rs]"
    using creates_all_registers [OF all cs] by blast
  have next_ids: "ns = map (\<lambda>i. N + of_nat i) [0 ..< length rs]"
    unfolding ids by (rule nth_equalityI) (simp_all add: N)
  have count: "factory_stream_count h' = Inr (N + of_nat (length rs), h')"
    using registers_views(1) [OF ds(2)] by (simp add: N ds(1))
  have "factory_exec env (CreateBatch sndr rs clawback) h = Inr ((), h')" using assms(6) by (simp add: tx_simps)
  then have step: "protocol_step base (now, h) (ledger_timestamp env, h')"
    using assms(3-5) by (intro at_factory [where c = "CreateBatch sndr rs clawback"]) simp_all
  have streams: "\<forall>i < length rs. stream_at (world h) (stream_contract base (ns ! i)) = None \<and>
       (\<exists>sh. stream_at (world h') (stream_contract base (ns ! i)) = Some sh \<and>
          holds (request_info sndr clawback (rs ! i)) 0 (instance_store sh))"
    using creates_all_streams [OF all same(3)] unfolding same by blast
  have moves: "\<forall>tk who. sint (token_balance (token_client base) (tokens (world h')) tk who) =
       sint (token_balance (token_client base) (tokens (world h)) tk who) + deposits_moved base sndr ns rs tk who"
    using creates_all_moves [OF all] T unfolding same moved by blast
  show ?thesis
    by (intro conjI exI [of _ governor] exI [of _ c] size g valid open_now next_ids streams moves count step)
      (use checks [OF r] in simp)
qed

section \<open>Witness\<close>

theorem successful_batches_are_whole_witness:
  "\<exists>h'. factory_create_batch_streams wit_signed_env 1 [wit_request] False wit_factory = Inr ([0], h') \<and>
     protocol_step wit_factory_env (0, wit_factory) (10, h') \<and> factory_stream_count h' = Inr (1, h') \<and>
     sint (token_balance ledger_token (tokens (world h')) 3 1) = 990000 \<and>
     sint (token_balance ledger_token (tokens (world h')) 3 100) = 10000"
proof -
  have r: "reaches (protocol_init wit_factory_env) (protocol_step wit_factory_env) (0, wit_factory)"
    using wit_protocol_init by (rule reaches_init)
  have count: "factory_stream_count wit_factory = Inr (0, wit_factory)"
    by (simp add: wit_factory_def factory_stream_count_def tx_eval host_eval)
  obtain h' where "creates wit_signed_env 1 2 3 10000 1 10 10010 False wit_factory 0 h'"
    using wit_signed_creates by blast
  then have "creates_all wit_signed_env 1 False [wit_request] wit_factory [0] h'"
    using creates_none by (intro creates_more) (simp_all add: wit_request_def)
  then have call: "factory_create_batch_streams wit_signed_env 1 [wit_request] False wit_factory = Inr ([0], h')"
    by (simp add: factory_create_batch_streams_def tx_simps create_each_iff MAX_BATCH_SIZE_def
        del: create_each.simps One_nat_def)
  have time: "ledger_timestamp wit_signed_env = 10" by (simp add: wit_signed_env_def wit_factory_env_def)
  have T: "token_client wit_factory_env = ledger_token" by (simp add: wit_factory_env_def)
  have start: "sint (token_balance ledger_token (tokens (world wit_factory)) 3 1) = 1000000"
    "sint (token_balance ledger_token (tokens (world wit_factory)) 3 100) = 0"
    by (simp_all add: wit_factory_def wit_ledger_def) (simp_all add: ledger_token_def)
  have "deposits_moved wit_factory_env 1 [0] [wit_request] 3 1 = - 10000"
    "deposits_moved wit_factory_env 1 [0] [wit_request] 3 100 = 10000"
    by (simp_all add: wit_request_def wit_contract moved_def)
  with successful_batches_are_whole [OF r count wit_on_chain wit_unsigned _ call] call start show ?thesis
    by (auto simp: time T)
qed

end
