(* ===== verification/Stream_Accounts.thy ===== *)
theory Stream_Accounts
  imports Stream_Witness
begin

text \<open>
  The books of a stream: what its events say has been paid out, put in and taken back, what that
  tells of the escrow, and what recipient and sender have received when it is settled.
\<close>

section \<open>What the events say\<close>

fun event_paid :: "stream_event \<Rightarrow> int" where
  "event_paid (WithdrawnEvent _ _ amount _ _) = sint amount"
| "event_paid _ = 0"

fun event_put :: "stream_event \<Rightarrow> int" where
  "event_put (ToppedUpEvent _ _ amount _) = sint amount"
| "event_put _ = 0"

fun event_taken :: "stream_event \<Rightarrow> int" where
  "event_taken (ClawbackEvent _ _ amount) = sint amount"
| "event_taken (CancelledEvent _ _ refund _) = sint refund"
| "event_taken _ = 0"

definition paid_out :: "stream_event list \<Rightarrow> int" where
  "paid_out es = sum_list (map event_paid es)"

definition put_in :: "stream_event list \<Rightarrow> int" where
  "put_in es = sum_list (map event_put es)"

definition taken_back :: "stream_event list \<Rightarrow> int" where
  "taken_back es = sum_list (map event_taken es)"

lemma books_simps [simp]:
  "paid_out [] = 0" "put_in [] = 0" "taken_back [] = 0"
  "paid_out (es @ [e]) = paid_out es + event_paid e"
  "put_in (es @ [e]) = put_in es + event_put e"
  "taken_back (es @ [e]) = taken_back es + event_taken e"
  by (simp_all add: paid_out_def put_in_def taken_back_def)

lemma step_paid:
  "stream_step env i w c r ev i' w' \<Longrightarrow> sint (withdrawn i') = sint (withdrawn i) + event_paid (ev n)"
  by (cases c) (auto simp: step_iffs)

lemma step_keeps_parties:
  "stream_step env i w c r ev i' w' \<Longrightarrow>
   sender i' = sender i \<and> token i' = token i \<and> rate_per_second i' = rate_per_second i"
  by (cases c) (auto simp: step_iffs)

lemma moved_self_ge: "0 \<le> a \<Longrightarrow> - a \<le> moved src dst a src"
  by (simp add: moved_def)

text \<open>A step that does not settle changes the escrow by what its event says, or leaves more there.\<close>

lemma step_escrow:
  assumes "stream_step env i w c r ev i' w'" and "token_conserves (token_client env)"
    and "current_contract_address env \<noteq> sender i" and "\<not> is_cancelled i'"
  shows "bal env w (token i) (current_contract_address env) +
      event_put (ev n) - event_paid (ev n) - event_taken (ev n) \<le>
    bal env w' (token i) (current_contract_address env)"
proof (cases c)
  case (Withdraw amount)
  with assms(1) obtain paid where "token_transfer (token_client env) w (token i)
      (current_contract_address env) (recipient i) paid = Some w'"
    and "event_paid (ev n) = sint paid" "event_put (ev n) = 0" "event_taken (ev n) = 0"
    by (auto simp: step_iffs)
  moreover from this(1) have "0 \<le> sint paid" by (rule token_transfer_amount [OF assms(2)])
  ultimately show ?thesis
    using transfer_bal [OF assms(2)] moved_self_ge by fastforce
next
  case Clawback
  with assms(1) obtain amount where "pay (token_client env) w (token i)
      (current_contract_address env) (sender i) amount = Some w'" and "0 \<le> sint amount"
    and "event_taken (ev n) = sint amount" "event_put (ev n) = 0" "event_paid (ev n) = 0"
    by (auto simp: step_iffs sint_minmax)
  then show ?thesis using pay_bal [OF assms(2)] assms(3) by simp
next
  case (TopUp amount)
  with assms(1,3) show ?thesis by (auto simp: step_iffs transfer_bal [OF assms(2)])
next
  case (ExtendDuration secs)
  with assms(1,3) show ?thesis by (auto simp: step_iffs transfer_bal [OF assms(2)])
qed (use assms in \<open>auto simp: step_iffs\<close>)

section \<open>The books of a run\<close>

definition books_inv :: "'w token_ops \<Rightarrow> address \<Rightarrow> address \<Rightarrow> address \<Rightarrow> i128 \<Rightarrow> int \<Rightarrow>
  'w stream_state \<Rightarrow> bool" where
  "books_inv T self sndr tok rate start s \<longleftrightarrow> token_conserves T \<and> self \<noteq> sndr \<and>
     (\<exists>i n. holds i n (instance_store (snd s)) \<and> sender i = sndr \<and> token i = tok \<and>
        rate_per_second i = rate \<and> sint (withdrawn i) = paid_out (event_log (snd s)) \<and>
        (\<not> is_cancelled i \<longrightarrow>
           start + put_in (event_log (snd s)) - paid_out (event_log (snd s)) - taken_back (event_log (snd s))
             \<le> sint (token_balance T (world (snd s)) tok self)))"

lemma books_move: "stream_move T self s s' \<Longrightarrow> books_inv T self sndr tok rate start s \<Longrightarrow> books_inv T self sndr tok rate start s'"
proof (induction rule: stream_move.induct)
  case (move_call now env c h r h')
  then obtain i n where T: "token_conserves T" "self \<noteq> sndr" and i: "holds i n (instance_store h)"
    "sender i = sndr" "token i = tok" "rate_per_second i = rate" "sint (withdrawn i) = paid_out (event_log h)"
    and books: "\<not> is_cancelled i \<longrightarrow> start + put_in (event_log h) - paid_out (event_log h) -
      taken_back (event_log h) \<le> sint (token_balance T (world h) tok self)"
    by (auto simp: books_inv_def)
  from i(1) move_call(4) obtain ev i' w' where step: "stream_step env i (world h) c r ev i' w'"
    and h': "h' = after i' (n + 1) (ev (n + 1)) w' h"
    by (rule stream_exec_step)
  have "holds i' (n + 1) (instance_store h')" unfolding h' by (rule holds_after)
  moreover have "sint (withdrawn i') = paid_out (event_log h')"
    using step_paid [OF step] i(5) by (simp add: h' after_def)
  moreover have "\<not> is_cancelled i" using step by (rule stream_step.cases) simp_all
  moreover have "start + put_in (event_log h') - paid_out (event_log h') - taken_back (event_log h') \<le>
      sint (token_balance T (world h') tok self)" if "\<not> is_cancelled i'"
    using step_escrow [OF step _ _ that, of "n + 1"] T i move_call(2,3) books calculation(3)
    by (simp add: h' after_def bal_def)
  ultimately show ?case using step_keeps_parties [OF step] T i unfolding books_inv_def by auto
next
  case (move_outside now now' h w)
  then show ?case using order_trans by (fastforce simp: books_inv_def)
qed

interpretation books: invariant "books_inv T self sndr tok rate start" "stream_move T self"
  "books_inv T self sndr tok rate start" for T self sndr tok rate start
  by unfold_locales (auto intro: books_move)

lemma initialized_books:
  assumes "token_conserves T" and "self \<noteq> sndr" and "instance_store h0 = Map.empty" and "event_log h0 = []"
    and "stream_initialize sndr rcp tok rate t0 t1 clawback h0 = Inr ((), h)"
  shows "books_inv T self sndr tok rate (sint (token_balance T (world h) tok self)) (t, h)"
proof -
  let ?i = "initial_info sndr rcp tok rate t0 t1 clawback"
  have "holds ?i 0 (instance_store h)" and "event_log h = []"
    using assms(3-5) by (auto simp: stream_initialize_Inr_iff holds_def)
  then show ?thesis using assms(1,2) unfolding books_inv_def
    by (auto intro!: exI [of _ ?i] exI [of _ "0 :: u64"] simp: initial_info_def)
qed

text \<open>The books are right: in every later state of a stream, the stored total of
  withdrawals is the sum of the published ones, and until it is settled the escrow holds at least what
  it held at initialization, plus the published deposits, less the published withdrawals and
  clawbacks, so that no token leaves a stream without an event that says so.\<close>

theorem books_match_escrow:
  assumes "token_conserves T" and "self \<noteq> sndr" and "instance_store h0 = Map.empty" and "event_log h0 = []"
    and "stream_initialize sndr rcp tok rate t0 t1 clawback h0 = Inr ((), h)"
    and "later (stream_move T self) (t, h) (t', h')"
  shows "\<exists>i. state_load h' = Inr (i, h') \<and> sint (withdrawn i) = paid_out (event_log h') \<and>
    (\<not> is_cancelled i \<longrightarrow>
       sint (token_balance T (world h) tok self) + put_in (event_log h') - paid_out (event_log h') -
         taken_back (event_log h') \<le> sint (token_balance T (world h') tok self))"
proof -
  have "books_inv T self sndr tok rate (sint (token_balance T (world h) tok self)) (t', h')"
    using assms(6) initialized_books [OF assms(1-5)] by (rule books.inv_later)
  then show ?thesis unfolding books_inv_def by (auto dest: holds_load)
qed

section \<open>The account at settlement\<close>

lemma initialized_solvent:
  assumes "token_conserves T" and "self \<noteq> sndr" and "instance_store h0 = Map.empty"
    and "stream_initialize sndr rcp tok rate t0 t1 False h0 = Inr ((), h)" and "t1 \<noteq> 0"
    and "sint rate * (uint t1 - uint t0) \<le> sint (token_balance T (world h) tok self)"
  shows "solvent T self (t, h)"
proof -
  let ?i = "initial_info sndr rcp tok rate t0 t1 False"
  have "holds ?i 0 (instance_store h)" and "info_inv t ?i"
    using assms(3,4) by (auto simp: stream_initialize_Inr_iff holds_def initial_info_inv)
  moreover have "funded T self ?i (world h)"
    using assms(2,5,6) by (simp add: funded_def remaining_due_def duration_def initial_info_def flag_tests)
  ultimately show ?thesis using assms(1) unfolding solvent_def by auto
qed

text \<open>Property C12. The account at settlement: a bounded stream without clawback that was initialized with
  its full deposit in escrow, by a sender other than the stream contract, pays its recipients, over its whole life until it is cancelled by either
  side, exactly what has been earned by then, or what they had withdrawn where that is more; the
  sender gets the rest of the escrow, which is at least the part of rate times length not paid.\<close>

theorem settlement_completes_account:
  assumes "token_conserves T" and "self \<noteq> sndr" and "instance_store h0 = Map.empty" and "event_log h0 = []"
    and "stream_initialize sndr rcp tok rate t0 t1 False h0 = Inr ((), h)" and "t1 \<noteq> 0"
    and "sint rate * (uint t1 - uint t0) \<le> sint (token_balance T (world h) tok self)"
    and "later (stream_move T self) (t, h) (t', h1)"
    and "t' \<le> ledger_timestamp env" and "token_client env = T" and "current_contract_address env = self"
    and "c = Cancel \<or> c = ForceCancel" and "stream_exec env c h1 = Inr (r, h2)"
  shows "\<exists>i last rest. state_load h1 = Inr (i, h1) \<and> 0 \<le> last \<and>
    paid_out (event_log h1) + last =
      max (paid_out (event_log h1)) (earned (ledger_timestamp env) i) \<and>
    rest = sint (token_balance T (world h1) tok self) - last \<and>
    sint rate * duration i - (paid_out (event_log h1) + last) \<le> rest \<and>
    (\<forall>who. sint (token_balance T (world h2) tok who) = sint (token_balance T (world h1) tok who) +
       moved self (recipient i) last who + moved self sndr rest who)"
proof -
  have "books_inv T self sndr tok rate (sint (token_balance T (world h) tok self)) (t', h1)"
    using assms(8) initialized_books [OF assms(1-5)] by (rule books.inv_later)
  then obtain i n where i: "holds i n (instance_store h1)" "sender i = sndr" "token i = tok"
    "rate_per_second i = rate" and wd: "sint (withdrawn i) = paid_out (event_log h1)"
    by (auto simp: books_inv_def)
  have "solvent T self (t', h1)"
    using assms(8) initialized_solvent [OF assms(1-3,5-7)] by (rule funded_machine.inv_later)
  then have inv: "info_inv t' i" and funded: "funded T self i (world h1)"
    using i(1) by (auto simp: solvent_def dest: holds_inject)
  from i(1) assms(13) obtain ev i' w' where step: "stream_step env i (world h1) c r ev i' w'"
    and h2: "h2 = after i' (n + 1) (ev (n + 1)) w' h1"
    by (rule stream_exec_step)
  from step assms(12) obtain a b where settled: "settles env i (world h1) a b w'"
    and live: "\<not> is_cancelled i"
    by (auto simp: step_iffs)
  have rate: "0 < sint (rate_per_second i)" using inv by (simp add: info_inv_def)
  let ?b = "sint (token_balance T (world h1) tok self)" and ?e = "earned (ledger_timestamp env) i"
  have "?e \<le> sint rate * duration i"
    using earned_payable [OF inv assms(9)] funded i(4) by (simp add: payable_def funded_def)
  moreover have "sint rate * duration i - sint (withdrawn i) \<le> ?b"
    using funded live i by (simp add: funded_def remaining_due_def)
  moreover have "0 \<le> ?b" using assms(1) by (rule token_balance_nonneg)
  ultimately have due: "owed env i (world h1) = max 0 (?e - sint (withdrawn i))"
    and rest: "sint rate * duration i - max (sint (withdrawn i)) ?e \<le> ?b - max 0 (?e - sint (withdrawn i))"
    using assms(10,11) i(3) by (auto simp: owed_def bal_def)
  have T: "token_conserves (token_client env)" using assms(1,10) by simp
  note bals = settles_balances [OF settled T rate]
  have "\<forall>who. sint (token_balance T (world h2) tok who) = sint (token_balance T (world h1) tok who) +
      moved self (recipient i) (sint a) who + moved self sndr (sint b) who"
    using bals(3) assms(10,11) i by (simp add: bal_def h2)
  moreover have "sint b = ?b - sint a" using bals(1,2) assms(10,11) i by (simp add: bal_def)
  moreover have "0 \<le> sint a" "paid_out (event_log h1) + sint a = max (paid_out (event_log h1)) ?e"
    using bals(1) due wd by simp_all
  ultimately show ?thesis
    using holds_load [OF i(1)] rest wd bals(1) due by (intro exI [of _ i] exI [of _ "sint a"] exI [of _ "sint b"]) auto
qed

section \<open>Witnesses\<close>

theorem books_match_escrow_witness:
  "\<exists>i (h' :: balance_table stream_host). state_load h' = Inr (i, h') \<and>
     event_log h' = [PausedEvent 1 1 40 40] \<and> sint (withdrawn i) = 0"
proof -
  obtain h' where h': "later (stream_move ledger_token 10) (0, wit_open) (40, h')"
    and log: "event_log h' = [PausedEvent 1 1 40 40]"
    by (rule wit_open_paused)
  from books_match_escrow [OF ledger_token_conserves _ wit_open_initialized h'] log show ?thesis
    by (force simp: paid_out_def)
qed

lemma wit_started_settled:
  obtains h2 where "stream_exec (wit_env 40) Cancel wit_started = Inr (Done, h2)"
proof -
  obtain ev i' w' where "stream_step (wit_env 40) wit_info wit_balances Cancel Done ev i' w'"
    using wit_step_cancel by blast
  then have "stream_exec (wit_env 40) Cancel wit_started = Inr (Done, after i' 1 (ev 1) w' wit_started)"
    by (intro exec_of_step) (simp_all add: wit_started_def holds_def)
  then show ?thesis by (rule that)
qed

theorem settlement_completes_account_witness:
  "\<exists>h2. stream_exec (wit_env 40) Cancel wit_started = Inr (Done, h2) \<and>
     sint (token_balance ledger_token (world h2) 3 2) = 40"
proof -
  have init: "stream_initialize 1 2 3 1 0 100 False wit_blank = Inr ((), wit_started)"
    by (simp add: stream_initialize_Inr_iff wit_started_def wit_info_def initial_info_def wit_blank_def)
  obtain h2 where h2: "stream_exec (wit_env 40) Cancel wit_started = Inr (Done, h2)"
    by (rule wit_started_settled)
  have logs: "instance_store wit_blank = Map.empty" "event_log wit_blank = []"
    by (simp_all add: wit_blank_def)
  have load: "state_load wit_started = Inr (wit_info, wit_started)"
    by (rule holds_load [of _ 0]) (simp add: wit_started_def holds_def)
  have "earned 40 wit_info = 40" by (simp add: earned_def accrued_def accrual_time_def)
  moreover have "event_log wit_started = []" "world wit_started = wit_balances" by (simp_all add: wit_started_def)
  moreover have "token_balance ledger_token wit_balances 3 10 = 1000" "token_balance ledger_token wit_balances 3 2 = 0"
    by (simp_all add: ledger_token_def wit_balances_def)
  ultimately show ?thesis
    using settlement_completes_account [OF ledger_token_conserves _ logs init _ _ later_refl [of _ "(0, wit_started)"] _ _ _ _ h2, of 10] h2 load
    by (auto simp: moved_def)
qed

end
