(* ===== verification/Protocol_Books.thy ===== *)
theory Protocol_Books
  imports Protocol Stream_Accounts
begin

text \<open>
  The books of every stream inside the protocol: from its creation by the factory on, whatever the
  contracts and the network do, the events of a stream account for its deposit.
\<close>

lemma created_books:
  assumes "protocol_inv base (now, h)" and "on_chain base env" and "unsigned_streams base env"
    and "creates env sndr rcp tok deposit rate t0 t1 clawback h n h1"
  obtains sh where "stream_at (world h1) (stream_contract base n) = Some sh"
    and "sint deposit \<le> sint (token_balance (token_client base) (tokens (world h1)) tok (stream_contract base n))"
    and "books_inv (token_client base) (stream_contract base n) sndr tok rate
      (sint (token_balance (token_client base) (tokens (world h1)) tok (stream_contract base n)))
      (t, on_ledger sh (tokens (world h1)))"
proof -
  let ?i = "initial_info sndr rcp tok rate t0 t1 clawback" and ?a = "stream_contract base n"
  have T: "token_conserves (token_client base)" and tr: "trusted base h"
    using assms(1) by (simp_all add: protocol_inv_def)
  have same: "token_client env = token_client base" "stream_contract env n = ?a"
    using assms(2) by (simp_all add: on_chain_def stream_contract_def)
  have "wasm_initialize env hash = stream_initialize"
    if "instance_store h StreamWasmHash = Some (VBytes hash)" for hash
    using that tr assms(2) by (simp add: trusted_def wasm_is_stream_def on_chain_def)
  with drip_stream.created_is_started [OF assms(4)] same(2)
  obtain sh where sh: "stream_at (world h1) ?a = Some sh" and started: "stream_started ?i sh" by auto
  have sndr: "?a \<noteq> sndr" using assms(3,4) by (auto simp: unsigned_streams_def creates_iff)
  have "sint (token_balance (token_client base) (tokens (world h1)) tok ?a) =
      sint (token_balance (token_client base) (tokens (world h)) tok ?a) + sint deposit"
    using creates_moves_deposit [OF _ assms(4), of tok ?a] T sndr by (simp add: same moved_def)
  then have "sint deposit \<le> sint (token_balance (token_client base) (tokens (world h1)) tok ?a)"
    using token_balance_nonneg [OF T] by simp
  moreover have "books_inv (token_client base) ?a sndr tok rate
      (sint (token_balance (token_client base) (tokens (world h1)) tok ?a)) (t, on_ledger sh (tokens (world h1)))"
    using started T sndr unfolding books_inv_def stream_started_def
    by (intro conjI exI [of _ ?i] exI [of _ "0 :: u64"]) (simp_all add: initial_info_def)
  ultimately show ?thesis using sh by (intro that)
qed

text \<open>Property C8. Every deposit is accounted for. Take a stream that the factory creates in any state
  of the protocol, and any later state: the stream is still there, for the same sender, token and
  rate; the total it has paid out is what its published withdrawals say, and never more than what
  the schedule allows by then; and until it is settled its escrow holds at least the deposit, plus
  the published top-ups, less the published withdrawals and clawbacks.\<close>

theorem deposits_are_accounted:
  assumes "reaches (protocol_init base) (protocol_step base) (now, h)"
    and "on_chain base env" and "unsigned_streams base env" and "now \<le> ledger_timestamp env"
    and "factory_create_stream env sndr rcp tok deposit rate t0 t1 clawback h = Inr (n, h1)"
    and "later (protocol_step base) (ledger_timestamp env, h1) (t', h')"
  shows "\<exists>sh i m. stream_at (world h') (stream_contract base n) = Some sh \<and>
    holds i m (instance_store sh) \<and> sender i = sndr \<and> token i = tok \<and> rate_per_second i = rate \<and>
    sint (withdrawn i) = paid_out (event_log sh) \<and> paid_out (event_log sh) \<le> payable t' i \<and>
    (\<not> is_cancelled i \<longrightarrow>
       sint deposit + put_in (event_log sh) - paid_out (event_log sh) - taken_back (event_log sh) \<le>
         sint (token_balance (token_client base) (tokens (world h')) tok (stream_contract base n)))"
proof -
  let ?a = "stream_contract base n"
  have inv: "protocol_inv base (now, h)" using assms(1) by (rule protocol_machine.inv_reaches)
  have c: "creates env sndr rcp tok deposit rate t0 t1 clawback h n h1"
    using assms(5) by (simp add: factory_create_stream_iff)
  obtain sh1 where sh1: "stream_at (world h1) ?a = Some sh1"
    and deposit: "sint deposit \<le> sint (token_balance (token_client base) (tokens (world h1)) tok ?a)"
    and books: "books_inv (token_client base) ?a sndr tok rate
      (sint (token_balance (token_client base) (tokens (world h1)) tok ?a))
      (ledger_timestamp env, on_ledger sh1 (tokens (world h1)))"
    using inv assms(2,3) c by (rule created_books)
  have "factory_exec env (CreateStream sndr rcp tok deposit rate t0 t1 clawback) h = Inr ((), h1)"
    using assms(5) by (simp add: tx_simps)
  then have inv1: "protocol_inv base (ledger_timestamp env, h1)"
    using inv assms(2-4) by (intro factory_step_inv [where c = "CreateStream sndr rcp tok deposit rate t0 t1 clawback"]) simp_all
  obtain sh where sh: "stream_at (world h') ?a = Some sh"
    and run: "later (stream_move (token_client base) ?a)
      (ledger_timestamp env, on_ledger sh1 (tokens (world h1))) (t', on_ledger sh (tokens (world h')))"
    using stream_part.sim_later [OF assms(6), of n] inv1 sh1 by (auto simp: stream_view_def)
  have "books_inv (token_client base) ?a sndr tok rate
      (sint (token_balance (token_client base) (tokens (world h1)) tok ?a)) (t', on_ledger sh (tokens (world h')))"
    using run books by (rule books.inv_later)
  then obtain i m where i: "holds i m (instance_store sh)" "sender i = sndr" "token i = tok"
    "rate_per_second i = rate" "sint (withdrawn i) = paid_out (event_log sh)"
    and escrow: "\<not> is_cancelled i \<longrightarrow>
       sint (token_balance (token_client base) (tokens (world h1)) tok ?a) + put_in (event_log sh) -
         paid_out (event_log sh) - taken_back (event_log sh) \<le>
       sint (token_balance (token_client base) (tokens (world h')) tok ?a)"
    by (auto simp: books_inv_def)
  have "protocol_inv base (t', h')" using assms(6) inv1 by (rule protocol_machine.inv_later)
  then have "stream_sound base t' (tokens (world h')) ?a sh"
    using sh by (simp add: protocol_inv_def streams_sound_def)
  then have "info_inv t' i" using i(1) by (auto simp: stream_sound_def dest: holds_inject)
  then have "sint (withdrawn i) \<le> payable t' i" by (simp add: info_inv_def)
  with sh i escrow deposit show ?thesis by fastforce
qed

section \<open>Witness\<close>

theorem deposits_are_accounted_witness:
  "\<exists>h' sh i m. factory_create_stream wit_signed_env 1 2 3 10000 1 10 10010 False wit_factory = Inr (0, h') \<and>
     stream_at (world h') 100 = Some sh \<and> sint (withdrawn i) = paid_out (event_log sh) \<and>
     holds i m (instance_store sh)"
proof -
  obtain h' where "creates wit_signed_env 1 2 3 10000 1 10 10010 False wit_factory 0 h'"
    by (rule wit_protocol_creation)
  then have call: "factory_create_stream wit_signed_env 1 2 3 10000 1 10 10010 False wit_factory = Inr (0, h')"
    by (simp add: factory_create_stream_iff)
  have r: "reaches (protocol_init wit_factory_env) (protocol_step wit_factory_env) (0, wit_factory)"
    using wit_protocol_init by (rule reaches_init)
  have "0 \<le> ledger_timestamp wit_signed_env" by simp
  from deposits_are_accounted [OF r wit_on_chain wit_unsigned this call later_refl]
  obtain sh i m where "stream_at (world h') (stream_contract wit_factory_env 0) = Some sh"
    and "holds i m (instance_store sh)" and "sint (withdrawn i) = paid_out (event_log sh)"
    by blast
  with call show ?thesis by (auto simp: wit_contract)
qed

end
