(* ===== verification/Protocol_Safety.thy ===== *)
theory Protocol_Safety
  imports Protocol
begin

text \<open>
  What the protocol guarantees to those who use it: nobody loses tokens without having signed, the
  money of a stream goes to its parties only, and a recipient is paid in full.
\<close>

section \<open>Who can lose tokens\<close>

lemma creates_debits:
  assumes "token_conserves (token_client env)"
    and "creates env sndr rcp tok deposit rate t0 t1 clawback h n h'" and "\<not> has_authorized env who"
  shows "no_less (token_client env) who (tokens (world h)) (tokens (world h'))"
proof -
  have "0 < sint deposit" and "who \<noteq> sndr" using assms(2,3) by (auto simp: creates_iff terms_ok_def)
  then show ?thesis
    using creates_moves_deposit [OF assms(1,2)] by (simp add: no_less_def moved_def)
qed

lemma creates_all_debits:
  "creates_all env sndr clawback rs h ns h' \<Longrightarrow> token_conserves (token_client env) \<Longrightarrow>
   \<not> has_authorized env who \<Longrightarrow> no_less (token_client env) who (tokens (world h)) (tokens (world h'))"
  by (induction rule: creates_all.induct) (auto intro: creates_debits no_less_trans)

lemma factory_call_debits:
  assumes "token_conserves (token_client env)" and "factory_inv h"
    and "factory_exec env c h = Inr ((), h')" and "\<not> has_authorized env who"
  shows "no_less (token_client env) who (tokens (world h)) (tokens (world h'))"
proof (cases c)
  case (CreateStream sndr rcp tok deposit rate t0 t1 clawback)
  then show ?thesis
    using assms creates_debits by (auto simp: tx_simps factory_create_stream_iff)
next
  case (CreateBatch sndr requests clawback)
  with assms(3) obtain ns where "creates_all env sndr clawback requests h ns h'"
    by (auto simp: factory_create_batch_streams_def tx_simps create_each_iff)
  then show ?thesis using assms(1,4) by (rule creates_all_debits)
next
  case (InitializeFactory hash governor)
  obtain cs where "registers cs h" using assms(2) by (auto simp: factory_inv_def)
  then show ?thesis
    using assms(3) InitializeFactory by (auto simp: factory_initialize_def tx_simps registers_def)
qed (use assms(3) in \<open>auto dest!: maintenance_frame\<close>)

text \<open>A call of a stream moves only its own token, between its contract, its sender and its recipient.\<close>

lemma step_touches:
  assumes "stream_step env i w c r ev i' w'" and "token_conserves (token_client env)"
    and "0 < sint (rate_per_second i)"
    and "tk \<noteq> token i \<or> who \<notin> {current_contract_address env, sender i, recipient i}"
  shows "bal env w' tk who = bal env w tk who"
  using assms
  by (cases c) (auto simp: step_iffs sint_minmax transfer_bal [OF assms(2)] pay_bal [OF assms(2)]
      settles_balances(3))

text \<open>Property C5. Nobody loses tokens without having signed, and a stream pays its parties only. In any
  state the protocol can reach, a call of the factory lowers no balance of an account that did not
  authorize it; a call of a stream lowers no balance but the stream contract's own and those of
  accounts that authorized it, and changes none but those of the stream contract, its sender and
  its recipient in the stream's token.\<close>

theorem nobody_loses_unsigned:
  assumes "reaches (protocol_init base) (protocol_step base) (now, h)"
  shows "(on_chain base env \<and> factory_exec env fc h = Inr ((), h') \<and> \<not> has_authorized env who \<longrightarrow>
      sint (token_balance (token_client base) (tokens (world h)) tk who) \<le>
        sint (token_balance (token_client base) (tokens (world h')) tk who)) \<and>
    (token_client senv = token_client base \<and> current_contract_address senv = stream_contract base n \<and>
     stream_at (world h) (stream_contract base n) = Some sh \<and>
     stream_exec senv sc (on_ledger sh (tokens (world h))) = Inr (r, k) \<longrightarrow>
      (\<not> has_authorized senv who \<and> who \<noteq> stream_contract base n \<longrightarrow>
         sint (token_balance (token_client base) (tokens (world h)) tk who) \<le>
           sint (token_balance (token_client base) (world k) tk who)) \<and>
      (\<exists>i. state_load (on_ledger sh (tokens (world h))) = Inr (i, on_ledger sh (tokens (world h))) \<and>
         (tk \<noteq> token i \<or> who \<notin> {stream_contract base n, sender i, recipient i} \<longrightarrow>
          token_balance (token_client base) (world k) tk who =
            token_balance (token_client base) (tokens (world h)) tk who)))"
proof -
  have inv: "protocol_inv base (now, h)" using assms by (rule protocol_machine.inv_reaches)
  then have T: "token_conserves (token_client base)" and fi: "factory_inv h"
    by (simp_all add: protocol_inv_def)
  have "sint (token_balance (token_client base) (tokens (world h)) tk who) \<le>
      sint (token_balance (token_client base) (tokens (world h')) tk who)"
    if "on_chain base env" "factory_exec env fc h = Inr ((), h')" "\<not> has_authorized env who"
    using factory_call_debits [OF _ fi that(2,3)] T that(1) by (simp add: on_chain_def no_less_def)
  moreover have "(\<not> has_authorized senv who \<and> who \<noteq> stream_contract base n \<longrightarrow>
         sint (token_balance (token_client base) (tokens (world h)) tk who) \<le>
           sint (token_balance (token_client base) (world k) tk who)) \<and>
      (\<exists>i. state_load (on_ledger sh (tokens (world h))) = Inr (i, on_ledger sh (tokens (world h))) \<and>
         (tk \<noteq> token i \<or> who \<notin> {stream_contract base n, sender i, recipient i} \<longrightarrow>
          token_balance (token_client base) (world k) tk who =
            token_balance (token_client base) (tokens (world h)) tk who))"
    if env: "token_client senv = token_client base" "current_contract_address senv = stream_contract base n"
      and sh: "stream_at (world h) (stream_contract base n) = Some sh"
      and exec: "stream_exec senv sc (on_ledger sh (tokens (world h))) = Inr (r, k)"
  proof -
    have sound: "stream_sound base now (tokens (world h)) (stream_contract base n) sh"
      using inv sh by (simp add: protocol_inv_def streams_sound_def)
    then obtain i m where i: "holds i m (instance_store sh)" "info_inv now i" by (rule stream_soundE)
    have "holds i m (instance_store (on_ledger sh (tokens (world h))))" using i(1) by simp
    from this exec obtain ev i' w' where step: "stream_step senv i (tokens (world h)) sc r ev i' w'"
      and k: "world k = w'"
      by (rule stream_exec_step) (simp add: after_world)
    have "no_less (token_client base) who (tokens (world h)) (world k)"
      if "\<not> has_authorized senv who" "who \<noteq> stream_contract base n"
      using stream_call_debits [OF T env(1) _ exec that(1)] sound env(2) that(2) by simp
    moreover have "token_balance (token_client base) (world k) tk who =
        token_balance (token_client base) (tokens (world h)) tk who"
      if "tk \<noteq> token i \<or> who \<notin> {stream_contract base n, sender i, recipient i}"
      using step_touches [OF step, of tk who] T env i(2) that
      by (simp add: k bal_def i128_eq_iff info_inv_def)
    ultimately show ?thesis using holds_load [of i m "on_ledger sh (tokens (world h))"] i(1)
      by (auto simp: no_less_def)
  qed
  ultimately show ?thesis by blast
qed

section \<open>The recipient is paid\<close>

text \<open>In a reachable state every id below the count has its stream.\<close>

lemma registered_stream:
  assumes "protocol_inv base (now, h)" and "factory_stream_count h = Inr (N, h)" and "n < N"
  obtains sh i m where "stream_at (world h) (stream_contract base n) = Some sh"
    and "stream_sound base now (tokens (world h)) (stream_contract base n) sh"
    and "holds i m (instance_store sh)" and "info_inv now i"
proof -
  have live: "registered_live base h" and all: "streams_sound base now (world h)"
    using assms(1) by (simp_all add: protocol_inv_def)
  obtain cs where cs: "registers cs h" using assms(1) by (auto simp: protocol_inv_def factory_inv_def)
  have "N = of_nat (length cs)" using registers_views(1) [OF cs] assms(2) by simp
  then have "unat n < length cs"
    using assms(3) cs by (simp add: word_less_nat_alt registers_def unat_of_nat_u64)
  then have "persistent_store h (StreamAddr n) \<noteq> None" using cs by (simp add: registers_def)
  then obtain sh where sh: "stream_at (world h) (stream_contract base n) = Some sh"
    using live unfolding registered_live_def by blast
  then have sound: "stream_sound base now (tokens (world h)) (stream_contract base n) sh"
    using all by (simp add: streams_sound_def)
  then obtain i m where "holds i m (instance_store sh)" "info_inv now i" by (rule stream_soundE)
  with sh sound show ?thesis by (rule that)
qed

lemma sound_solvent:
  assumes "stream_sound base now w a sh" and "token_conserves (token_client base)"
    and "holds i m (instance_store sh)" and "end_time i \<noteq> 0" and "\<not> is_clawback_enabled i"
  shows "solvent (token_client base) a (now, on_ledger sh w)"
  using assms by (auto simp: stream_sound_def solvent_def dest: holds_inject)

text \<open>Property C9. The protocol pays: take any state that the protocol can reach and any id below the
  stream count. If its stream is bounded, without clawback, not cancelled and past its end, then one
  withdrawal by its recipient succeeds, as a step of the protocol, and pays all that is left of rate
  times length, whatever happened before, as long as the token contract makes payable transfers, the
  amount and the recipient's balance fit in 128 bits, and event numbers are left.\<close>

theorem protocol_pays_recipients:
  fixes env :: "'w env"
  assumes "reaches (protocol_init base) (protocol_step base) (now, h)"
    and "factory_stream_count h = Inr (N, h)" and "n < N"
    and "token_live (token_client base)" and "token_client env = token_client base"
    and "current_contract_address env = stream_contract base n" and "unsigned_streams base env"
    and "now \<le> ledger_timestamp env"
  shows "\<exists>sh i m. stream_at (world h) (stream_contract base n) = Some sh \<and>
    holds i m (instance_store sh) \<and>
    (end_time i \<noteq> 0 \<and> \<not> is_clawback_enabled i \<and> \<not> is_cancelled i \<and>
     end_time i < ledger_timestamp env \<and> has_authorized env (recipient i) \<and>
     sint (withdrawn i) < sint (rate_per_second i) * duration i \<and>
     sint (rate_per_second i) * duration i = sint amount \<and>
     bal env (tokens (world h)) (token i) (recipient i) + sint amount < 2 ^ 127 \<and> uint m + 1 < 2 ^ 64 \<longrightarrow>
     (\<exists>paid k. stream_withdraw env amount (on_ledger sh (tokens (world h))) = Inr (paid, k) \<and>
        sint paid = sint (rate_per_second i) * duration i - sint (withdrawn i) \<and>
        protocol_step base (now, h) (ledger_timestamp env,
          h\<lparr>world := put_stream (stream_contract base n) k (world h)\<rparr>)))"
proof -
  have inv: "protocol_inv base (now, h)" using assms(1) by (rule protocol_machine.inv_reaches)
  then have T: "token_conserves (token_client base)" by (simp add: protocol_inv_def)
  obtain sh i m where sh: "stream_at (world h) (stream_contract base n) = Some sh"
    and sound: "stream_sound base now (tokens (world h)) (stream_contract base n) sh"
    and i: "holds i m (instance_store sh)" "info_inv now i"
    using inv assms(2,3) by (rule registered_stream)
  have "\<exists>paid k. stream_withdraw env amount (on_ledger sh (tokens (world h))) = Inr (paid, k) \<and>
      sint paid = sint (rate_per_second i) * duration i - sint (withdrawn i) \<and>
      protocol_step base (now, h) (ledger_timestamp env,
        h\<lparr>world := put_stream (stream_contract base n) k (world h)\<rparr>)"
    if due: "end_time i \<noteq> 0" "\<not> is_clawback_enabled i" "\<not> is_cancelled i"
      "end_time i < ledger_timestamp env" "has_authorized env (recipient i)"
      "sint (withdrawn i) < sint (rate_per_second i) * duration i"
      "sint (rate_per_second i) * duration i = sint amount"
      "bal env (tokens (world h)) (token i) (recipient i) + sint amount < 2 ^ 127" "uint m + 1 < 2 ^ 64"
  proof -
    have "solvent (token_client env) (current_contract_address env) (now, on_ledger sh (tokens (world h)))"
      using sound_solvent [OF sound T i(1) due(1,2)] assms(5,6) by simp
    from recipient_is_paid_in_full [OF this _ _ due(3) assms(8) due(4-7) _ due(9)] due(8) i(1) assms(4,5)
    obtain paid k where paid: "stream_withdraw env amount (on_ledger sh (tokens (world h))) = Inr (paid, k)"
      "sint paid = sint (rate_per_second i) * duration i - sint (withdrawn i)"
      by auto
    have "stream_exec env (Withdraw amount) (on_ledger sh (tokens (world h))) = Inr (Amount paid, k)"
      using paid(1) by (simp add: tx_simps)
    then have "protocol_step base (now, h) (ledger_timestamp env,
        h\<lparr>world := put_stream (stream_contract base n) k (world h)\<rparr>)"
      by (rule at_stream [OF assms(8,5,6,7) sh disjI1])
    with paid show ?thesis by blast
  qed
  with sh i(1) show ?thesis by blast
qed

section \<open>Witnesses\<close>

theorem nobody_loses_unsigned_witness:
  "\<exists>h'. factory_exec wit_signed_env (CreateStream 1 2 3 10000 1 10 10010 False) wit_factory = Inr ((), h') \<and>
     sint (token_balance ledger_token (tokens (world wit_factory)) 3 200) \<le>
       sint (token_balance ledger_token (tokens (world h')) 3 200)"
proof -
  let ?c = "CreateStream 1 2 3 10000 1 10 10010 False"
  obtain h' where "creates wit_signed_env 1 2 3 10000 1 10 10010 False wit_factory 0 h'"
    by (rule wit_protocol_creation)
  then have call: "factory_exec wit_signed_env ?c wit_factory = Inr ((), h')"
    by (simp add: tx_simps factory_create_stream_iff) blast
  have "reaches (protocol_init wit_factory_env) (protocol_step wit_factory_env) (0, wit_factory)"
    using wit_protocol_init by (rule reaches_init)
  note safe = nobody_loses_unsigned [where env = wit_signed_env and fc = ?c and h' = h' and who = 200 and tk = 3,
      OF this, THEN conjunct1]
  have "\<not> has_authorized wit_signed_env 200" by (simp add: wit_signed_env_def)
  with call wit_on_chain safe have "sint (token_balance (token_client wit_factory_env) (tokens (world wit_factory)) 3 200) \<le>
       sint (token_balance (token_client wit_factory_env) (tokens (world h')) 3 200)"
    by blast
  with call show ?thesis by (auto simp: wit_factory_env_def)
qed

text \<open>The recipient of the created stream withdraws after its end.\<close>

definition wit_visit :: "u64 \<Rightarrow> balance_table env" where
  "wit_visit t = \<lparr>ledger_timestamp = t, current_contract_address = 100,
     has_authorized = (\<lambda>a. a < 100), token_client = ledger_token\<rparr>"

lemma wit_visit_simps [simp]:
  "ledger_timestamp (wit_visit t) = t" "current_contract_address (wit_visit t) = 100"
  "has_authorized (wit_visit t) a \<longleftrightarrow> a < 100" "token_client (wit_visit t) = ledger_token"
  by (simp_all add: wit_visit_def)

lemma wit_visit_ok:
  "token_live (token_client wit_factory_env)" "token_client (wit_visit t) = token_client wit_factory_env"
  "current_contract_address (wit_visit t) = stream_contract wit_factory_env 0"
  "unsigned_streams wit_factory_env (wit_visit t)"
  using ledger_token_live wit_contract wit_contract_ge
  by (simp_all add: wit_factory_env_def unsigned_streams_def not_less)

lemma initial_info_fields:
  "sender (initial_info s r tk x t0 t1 cb) = s" "recipient (initial_info s r tk x t0 t1 cb) = r"
  "token (initial_info s r tk x t0 t1 cb) = tk" "rate_per_second (initial_info s r tk x t0 t1 cb) = x"
  "start_time (initial_info s r tk x t0 t1 cb) = t0" "end_time (initial_info s r tk x t0 t1 cb) = t1"
  "withdrawn (initial_info s r tk x t0 t1 cb) = 0"
  by (simp_all add: initial_info_def)

lemma wit_created_stream:
  assumes "creates wit_signed_env 1 2 3 10000 1 10 10010 False wit_factory 0 h'"
  obtains sh where "stream_at (world h') 100 = Some sh"
    and "holds (initial_info 1 2 3 1 10 10010 False) 0 (instance_store sh)"
    and "sint (token_balance ledger_token (tokens (world h')) 3 1) = 990000"
    and "sint (token_balance ledger_token (tokens (world h')) 3 2) = 0"
    and "sint (token_balance ledger_token (tokens (world h')) 3 100) = 10000"
proof -
  have addr: "stream_contract wit_signed_env 0 = 100"
    using wit_contract by (simp add: stream_contract_def wit_signed_env_def)
  have T: "token_client wit_signed_env = ledger_token" by (simp add: wit_signed_env_def wit_factory_env_def)
  have wasm: "wasm_is_stream wit_signed_env hash" for hash
    by (simp add: wasm_is_stream_def wit_signed_env_def wit_factory_env_def)
  obtain sh where sh: "stream_at (world h') 100 = Some sh"
    "holds (initial_info 1 2 3 1 10 10010 False) 0 (instance_store sh)"
    using created_solvent [OF _ wasm assms, of 0] ledger_token_conserves by (auto simp: addr T)
  note moves = creates_moves_deposit [OF _ assms, of 3]
  have "sint (token_balance ledger_token (tokens (world h')) 3 1) = 990000"
    "sint (token_balance ledger_token (tokens (world h')) 3 2) = 0"
    "sint (token_balance ledger_token (tokens (world h')) 3 100) = 10000"
    using moves [of 1] moves [of 2] moves [of 100] ledger_token_conserves
    by (simp_all add: T addr moved_def wit_factory_def wit_ledger_def) (simp_all add: ledger_token_def)
  with sh show ?thesis by (intro that)
qed

theorem protocol_pays_recipients_witness:
  "\<exists>h' sh paid k. reaches (protocol_init wit_factory_env) (protocol_step wit_factory_env) (10, h') \<and>
     stream_at (world h') 100 = Some sh \<and>
     stream_withdraw (wit_visit 20000) 10000 (on_ledger sh (tokens (world h'))) = Inr (paid, k) \<and> sint paid = 10000"
proof -
  obtain h' where c: "creates wit_signed_env 1 2 3 10000 1 10 10010 False wit_factory 0 h'"
    and run: "later (protocol_step wit_factory_env) (0, wit_factory) (10, h')"
    and one: "factory_stream_count h' = Inr (1, h')"
    by (rule wit_protocol_creation)
  have r: "reaches (protocol_init wit_factory_env) (protocol_step wit_factory_env) (10, h')"
    using reaches_init [of "protocol_init wit_factory_env", OF wit_protocol_init] run by (rule reaches_later)
  obtain sh where sh: "stream_at (world h') 100 = Some sh"
    and i: "holds (initial_info 1 2 3 1 10 10010 False) 0 (instance_store sh)"
    and b: "sint (token_balance ledger_token (tokens (world h')) 3 2) = 0"
    using c by (rule wit_created_stream)
  let ?i = "initial_info 1 2 3 1 10 10010 False"
  obtain sh' j m where found: "stream_at (world h') (stream_contract wit_factory_env 0) = Some sh'"
      "holds j m (instance_store sh')" and pays: "end_time j \<noteq> 0 \<and> \<not> is_clawback_enabled j \<and> \<not> is_cancelled j \<and>
     end_time j < 20000 \<and> has_authorized (wit_visit 20000) (recipient j) \<and>
     sint (withdrawn j) < sint (rate_per_second j) * duration j \<and>
     sint (rate_per_second j) * duration j = sint (10000 :: i128) \<and>
     bal (wit_visit 20000) (tokens (world h')) (token j) (recipient j) + sint (10000 :: i128) < 2 ^ 127 \<and> uint m + 1 < 2 ^ 64 \<longrightarrow>
     (\<exists>paid k. stream_withdraw (wit_visit 20000) 10000 (on_ledger sh' (tokens (world h'))) = Inr (paid, k) \<and>
        sint paid = sint (rate_per_second j) * duration j - sint (withdrawn j))"
    using protocol_pays_recipients [OF r one _ wit_visit_ok, of 20000 10000] by auto
  have same: "sh' = sh" using found(1) sh by (simp add: wit_contract)
  then have j: "j = ?i" "m = 0" using found(2) i by (auto dest: holds_inject)
  have dur: "sint (rate_per_second ?i) * duration ?i = 10000" by (simp add: duration_def initial_info_def)
  have "\<exists>paid k. stream_withdraw (wit_visit 20000) 10000 (on_ledger sh (tokens (world h'))) = Inr (paid, k) \<and>
      sint paid = 10000"
    using pays unfolding same j dur by (simp add: initial_info_fields bal_def b)
  with r sh show ?thesis by blast
qed

end
