(* ===== verification/Protocol_Settlement.thy ===== *)
theory Protocol_Settlement
  imports Protocol_Safety
begin

text \<open>
  The way out of a stream inside the protocol: the sender can cancel, a recipient who was left
  paused for thirty days can force the settlement, and either gives both parties what is theirs.
\<close>

text \<open>Who may settle a stream, and when.\<close>

definition may_settle :: "'w env \<Rightarrow> stream_info \<Rightarrow> stream_call \<Rightarrow> bool" where
  "may_settle env i c \<longleftrightarrow>
     c = Cancel \<and> has_authorized env (sender i) \<or>
     c = ForceCancel \<and> has_authorized env (recipient i) \<and> is_paused i \<and>
       2592000 \<le> uint (ledger_timestamp env) - uint (paused_at i)"

lemma settle_exec:
  assumes "holds i m (instance_store h)" and "info_inv t i" and "token_live (token_client env)"
    and "token_conserves (token_client env)" and "\<not> is_cancelled i"
    and "\<not> (is_paused i \<and> paused_at i < start_time i)" and "i128_fits (accrued (ledger_timestamp env) i)"
    and "\<forall>who \<in> {recipient i, sender i} - {current_contract_address env}.
      bal env (world h) (token i) who + bal env (world h) (token i) (current_contract_address env) < 2 ^ 127"
    and "uint m + 1 < 2 ^ 64" and "may_settle env i c"
  obtains k where "stream_exec env c h = Inr (Done, k)"
  using settlement_goes_through [OF assms(1-9)] assms(10) unfolding may_settle_def by (auto simp: tx_simps)

lemma settled_balances:
  assumes "holds i m (instance_store h)" and "info_inv t i" and "token_conserves (token_client env)"
    and "c = Cancel \<or> c = ForceCancel" and "stream_exec env c h = Inr (r, k)"
  shows "bal env (world k) (token i) who = bal env (world h) (token i) who +
      moved (current_contract_address env) (recipient i) (owed env i (world h)) who +
      moved (current_contract_address env) (sender i)
        (bal env (world h) (token i) (current_contract_address env) - owed env i (world h)) who"
proof -
  from assms(1,5) obtain ev i' w' where step: "stream_step env i (world h) c r ev i' w'"
    and k: "k = after i' (m + 1) (ev (m + 1)) w' h"
    by (rule stream_exec_step)
  from step assms(4) obtain a b where settled: "settles env i (world h) a b w'" by (auto simp: step_iffs)
  have "0 < sint (rate_per_second i)" using assms(2) by (simp add: info_inv_def)
  from settles_balances [OF settled assms(3) this] show ?thesis by (simp add: k after_world)
qed

lemma sound_owed:
  assumes "stream_sound base now w (current_contract_address env) sh" and "holds i m (instance_store sh)"
    and "token_client env = token_client base" and "now \<le> ledger_timestamp env"
    and "end_time i \<noteq> 0" and "\<not> is_clawback_enabled i" and "\<not> is_cancelled i"
    and "token_conserves (token_client base)"
  shows "owed env i w = max 0 (earned (ledger_timestamp env) i - sint (withdrawn i))"
proof -
  have inv: "info_inv now i" and f: "funded (token_client base) (current_contract_address env) i w"
    using assms(1,2,5,6) by (auto simp: stream_sound_def dest: holds_inject)
  have "earned (ledger_timestamp env) i \<le> sint (rate_per_second i) * duration i"
    using earned_payable [OF inv assms(4)] assms(5) by (simp add: payable_def)
  moreover have "sint (rate_per_second i) * duration i - sint (withdrawn i) \<le>
      bal env w (token i) (current_contract_address env)"
    using f assms(3,7) by (simp add: funded_def remaining_due_def bal_def)
  moreover have "0 \<le> bal env w (token i) (current_contract_address env)"
    using assms(3,8) by (simp add: bal_def token_balance_nonneg)
  ultimately show ?thesis by (simp add: owed_def)
qed

text \<open>When a settlement goes through, and what it does to the balances.\<close>

definition settleable :: "'w env \<Rightarrow> stream_info \<Rightarrow> u64 \<Rightarrow> stream_call \<Rightarrow> 'w \<Rightarrow> bool" where
  "settleable env i m c w \<longleftrightarrow>
     \<not> is_cancelled i \<and> may_settle env i c \<and> uint m + 1 < 2 ^ 64 \<and>
     \<not> (is_paused i \<and> paused_at i < start_time i) \<and> i128_fits (accrued (ledger_timestamp env) i) \<and>
     (\<forall>who \<in> {recipient i, sender i} - {current_contract_address env}.
        bal env w (token i) who + bal env w (token i) (current_contract_address env) < 2 ^ 127)"

definition pays_out :: "'w env \<Rightarrow> stream_info \<Rightarrow> 'w \<Rightarrow> 'w \<Rightarrow> int \<Rightarrow> bool" where
  "pays_out env i w w' due \<longleftrightarrow>
     (\<forall>who. bal env w' (token i) who = bal env w (token i) who +
        moved (current_contract_address env) (recipient i) due who +
        moved (current_contract_address env) (sender i)
          (bal env w (token i) (current_contract_address env) - due) who)"

text \<open>Property C10. Who is not stuck: take any state that the protocol can reach and any id below the
  stream count. As long as its stream is not cancelled, its sender can cancel it, and its recipient
  can force-cancel it after thirty days of pause, provided that what has accrued can be computed (in
  128 bits, not through a pause set before the start), that the parties can hold what they get, that
  event numbers are left and the token contract makes payable transfers. The settlement is a step of
  the protocol; it pays the recipient what was earned and not withdrawn, as far as the escrow goes,
  which for a bounded stream without clawback is all of it, and the sender the rest.\<close>

theorem protocol_settles_streams:
  fixes env :: "'w env"
  assumes "reaches (protocol_init base) (protocol_step base) (now, h)"
    and "factory_stream_count h = Inr (N, h)" and "n < N"
    and "token_live (token_client base)" and "token_client env = token_client base"
    and "current_contract_address env = stream_contract base n" and "unsigned_streams base env"
    and "now \<le> ledger_timestamp env"
  shows "\<exists>sh i m. stream_at (world h) (stream_contract base n) = Some sh \<and> holds i m (instance_store sh) \<and>
    (settleable env i m c (tokens (world h)) \<longrightarrow>
     (\<exists>k due. stream_exec env c (on_ledger sh (tokens (world h))) = Inr (Done, k) \<and>
        protocol_step base (now, h) (ledger_timestamp env,
          h\<lparr>world := put_stream (stream_contract base n) k (world h)\<rparr>) \<and>
        pays_out env i (tokens (world h)) (world k) due \<and>
        due = min (max 0 (earned (ledger_timestamp env) i - sint (withdrawn i)))
          (bal env (tokens (world h)) (token i) (stream_contract base n)) \<and>
        (end_time i \<noteq> 0 \<and> \<not> is_clawback_enabled i \<longrightarrow>
           due = max 0 (earned (ledger_timestamp env) i - sint (withdrawn i)))))"
proof -
  have inv: "protocol_inv base (now, h)" using assms(1) by (rule protocol_machine.inv_reaches)
  then have T: "token_conserves (token_client base)" by (simp add: protocol_inv_def)
  obtain sh i m where sh: "stream_at (world h) (stream_contract base n) = Some sh"
    and sound: "stream_sound base now (tokens (world h)) (stream_contract base n) sh"
    and i: "holds i m (instance_store sh)" "info_inv now i"
    using inv assms(2,3) by (rule registered_stream)
  let ?h = "on_ledger sh (tokens (world h))"
  let ?due = "owed env i (tokens (world h))"
  have hi: "holds i m (instance_store ?h)" using i(1) by simp
  have env: "token_live (token_client env)" "token_conserves (token_client env)"
    using assms(4,5) T by simp_all
  have due: "?due = min (max 0 (earned (ledger_timestamp env) i - sint (withdrawn i)))
      (bal env (tokens (world h)) (token i) (stream_contract base n))"
    by (simp only: owed_def assms(6))
  have "\<exists>k. stream_exec env c ?h = Inr (Done, k) \<and>
        protocol_step base (now, h) (ledger_timestamp env,
          h\<lparr>world := put_stream (stream_contract base n) k (world h)\<rparr>) \<and>
        pays_out env i (tokens (world h)) (world k) ?due \<and>
        (end_time i \<noteq> 0 \<and> \<not> is_clawback_enabled i \<longrightarrow>
           ?due = max 0 (earned (ledger_timestamp env) i - sint (withdrawn i)))"
    if ok: "settleable env i m c (tokens (world h))"
  proof -
    have live: "\<not> is_cancelled i" and may: "may_settle env i c"
      using ok by (simp_all add: settleable_def)
    obtain k where k: "stream_exec env c ?h = Inr (Done, k)"
      by (rule settle_exec [OF hi i(2) env live _ _ _ _ may])
        (use ok in \<open>simp_all add: settleable_def\<close>)
    have step: "protocol_step base (now, h) (ledger_timestamp env,
        h\<lparr>world := put_stream (stream_contract base n) k (world h)\<rparr>)"
      using k by (rule at_stream [OF assms(8,5,6,7) sh disjI1])
    have "c = Cancel \<or> c = ForceCancel" using may by (auto simp: may_settle_def)
    from settled_balances [OF hi i(2) env(2) this k]
    have "pays_out env i (tokens (world h)) (world k) ?due"
      unfolding pays_out_def by simp
    moreover have "?due = max 0 (earned (ledger_timestamp env) i - sint (withdrawn i))"
      if "end_time i \<noteq> 0" "\<not> is_clawback_enabled i"
      using sound_owed [OF _ i(1) assms(5,8) that live T] sound by (simp only: assms(6))
    ultimately show ?thesis using k step by (intro exI [of _ k]) simp
  qed
  then show ?thesis
    using sh i(1) due by (intro exI [of _ sh] exI [of _ i] exI [of _ m]) auto
qed

section \<open>Witness\<close>

text \<open>The sender of the created stream cancels it half way: both parties get 5,000.\<close>

theorem protocol_settles_streams_witness:
  "\<exists>h' sh k. reaches (protocol_init wit_factory_env) (protocol_step wit_factory_env) (10, h') \<and>
     stream_at (world h') 100 = Some sh \<and>
     stream_exec (wit_visit 5010) Cancel (on_ledger sh (tokens (world h'))) = Inr (Done, k) \<and>
     sint (token_balance ledger_token (world k) 3 2) = 5000 \<and>
     sint (token_balance ledger_token (world k) 3 100) = 0"
proof -
  obtain h' where c: "creates wit_signed_env 1 2 3 10000 1 10 10010 False wit_factory 0 h'"
    and run: "later (protocol_step wit_factory_env) (0, wit_factory) (10, h')"
    and one: "factory_stream_count h' = Inr (1, h')"
    by (rule wit_protocol_creation)
  have r: "reaches (protocol_init wit_factory_env) (protocol_step wit_factory_env) (10, h')"
    using reaches_init [of "protocol_init wit_factory_env", OF wit_protocol_init] run by (rule reaches_later)
  obtain sh where sh: "stream_at (world h') 100 = Some sh"
    and i: "holds (initial_info 1 2 3 1 10 10010 False) 0 (instance_store sh)"
    and b: "sint (token_balance ledger_token (tokens (world h')) 3 1) = 990000"
      "sint (token_balance ledger_token (tokens (world h')) 3 2) = 0"
      "sint (token_balance ledger_token (tokens (world h')) 3 100) = 10000"
    using c by (rule wit_created_stream)
  let ?i = "initial_info 1 2 3 1 10 10010 False"
  let ?w = "tokens (world h')"
  obtain sh' j m where found: "stream_at (world h') (stream_contract wit_factory_env 0) = Some sh'"
      "holds j m (instance_store sh')"
    and settles: "settleable (wit_visit 5010) j m Cancel ?w \<longrightarrow>
     (\<exists>k due. stream_exec (wit_visit 5010) Cancel (on_ledger sh' ?w) = Inr (Done, k) \<and>
        pays_out (wit_visit 5010) j ?w (world k) due \<and>
        due = min (max 0 (earned (ledger_timestamp (wit_visit 5010)) j - sint (withdrawn j)))
          (bal (wit_visit 5010) ?w (token j) (stream_contract wit_factory_env 0)))"
    using protocol_settles_streams [OF r one _ wit_visit_ok, of 5010 Cancel] by auto
  have same: "sh' = sh" using found(1) sh by (simp add: wit_contract)
  then have j: "j = ?i" "m = 0" using found(2) i by (auto dest: holds_inject)
  have acc: "accrued 5010 ?i = 5000"
    by (simp add: accrued_def accrual_time_def initial_info_fields)
  have ok: "settleable (wit_visit 5010) ?i 0 Cancel ?w"
    unfolding settleable_def may_settle_def
    by (simp add: initial_info_fields acc bal_def b i128_fits_def del: One_nat_def)
  have "earned 5010 ?i = 5000" by (simp add: earned_def acc del: One_nat_def)
  with settles ok obtain k where k: "stream_exec (wit_visit 5010) Cancel (on_ledger sh ?w) = Inr (Done, k)"
    "pays_out (wit_visit 5010) ?i ?w (world k) 5000"
    unfolding same j by (auto simp: initial_info_fields bal_def b wit_contract simp del: One_nat_def)
  have paid: "bal (wit_visit 5010) (world k) 3 who = bal (wit_visit 5010) ?w 3 who +
      moved 100 2 5000 who + moved 100 1 5000 who" for who
    using k(2) by (simp add: pays_out_def initial_info_fields) (simp add: bal_def b)
  have "sint (token_balance ledger_token (world k) 3 2) = 5000 \<and> sint (token_balance ledger_token (world k) 3 100) = 0"
    using paid [of 2] paid [of 100] by (simp add: bal_def b moved_def)
  with r sh k(1) show ?thesis by blast
qed

end
