(* ===== verification/Protocol_Traps.thy ===== *)
theory Protocol_Traps
  imports Protocol Stream_Traps
begin

text \<open>
  The host traps that a call can end in, for every contract of the protocol in every state it can
  reach: a trap is not an answer a caller can handle, so each kind that cannot occur is shown not to.
\<close>

section \<open>The factory\<close>

definition trusts :: "('w, 'n) factory_env_scheme \<Rightarrow> 'w factory_host \<Rightarrow> bool" where
  "trusts env h \<longleftrightarrow>
     (\<forall>hash. instance_store h StreamWasmHash = Some (VBytes hash) \<longrightarrow> wasm_is_stream env hash)"

text \<open>The host traps of a call of the factory, when \<open>n\<close> streams are registered and it creates \<open>k\<close>.\<close>

definition factory_traps :: "u64 \<Rightarrow> nat \<Rightarrow> trap set" where
  "factory_traps n k = {AuthError, TokenFailure, DeployFailure} \<union>
     (if 2 ^ 64 \<le> uint n + int k then {ArithmeticPanic} else {})"

lemma pause_flag_reads:
  assumes "configured h"
  shows "pause_is_paused h \<noteq> Inl e"
  using assms by (auto simp: configured_def pause_is_paused_def tx_eval host_eval)

lemma index_stream_Inl_iff: "index_stream key n h = Inl e \<longleftrightarrow> \<not> has_ids (persistent_store h key) \<and> e = Trap ConversionError"
proof -
  have "as_struct v = None \<longleftrightarrow> (\<forall>ids. v \<noteq> VStruct ids)" for v :: "u64 list stored" by (cases v) auto
  then show ?thesis by (auto simp: index_stream_def has_ids_def tx_fails tx_simps)
qed

lemma check_stream_terms_no_trap: "check_stream_terms env deposit rate t0 t1 h \<noteq> Inl (Trap x)"
  by (simp add: check_stream_terms_eval)

lemma enforce_bounds_no_trap:
  "terms_ok now deposit rate t0 t1 \<Longrightarrow> enforce_bounds c rate t0 t1 h \<noteq> Inl (Trap x)"
  by (subst enforce_bounds_eval) (auto simp: terms_ok_def)

lemma deploy_stream_traps:
  assumes "deploy_stream env hash n m h = Inl e" and "m fresh_host = Inr ((), sh)"
  shows "e = Trap DeployFailure"
  using assms
  by (auto simp: deploy_stream_def deploy_contract_def invoke_stream_def tx_fails tx_simps Let_def
      split: if_splits)

lemma create_traps:
  assumes "factory_inv h" and "trusts env h" and "instance_store h StreamCount = Some (VU64 n)"
    and "factory_create_stream env sndr rcp tok deposit rate t0 t1 clawback h = Inl (Trap x)"
  shows "x \<in> factory_traps n 1"
proof -
  obtain governor hash where conf: "instance_store h GovernorAddress = Some (VAddress governor)"
    "instance_store h StreamWasmHash = Some (VBytes hash)" and c: "configured h"
    using assms(1) by (auto simp: factory_inv_def configured_def)
  have ids: "has_ids (persistent_store h (BySender a))" "has_ids (persistent_store h (ByRecipient a))" for a
    using assms(1) by (auto simp: factory_inv_def registers_def)
  show ?thesis
  proof (cases "terms_ok (ledger_timestamp env) deposit rate t0 t1")
    case False
    then show ?thesis
      using assms(4)
      by (auto simp: factory_create_stream_def tx_fails tx_simps factory_traps_def
          pause_flag_reads [OF c] check_stream_terms_no_trap)
  next
    case True
    then have t: "t1 = 0 \<or> t0 < t1" by (auto simp: terms_ok_def)
    obtain sh where "wasm_initialize env hash sndr rcp tok rate t0 t1 clawback fresh_host = Inr ((), sh)"
      using drip_stream.terms_accepted [OF True] assms(2) conf(2) by (metis trusts_def wasm_is_stream_def)
    then have deploy: "deploy_stream env hash m
        (wasm_initialize env hash sndr rcp tok rate t0 t1 clawback) k = Inl (Trap y) \<Longrightarrow> y = DeployFailure" for m k y
      using deploy_stream_traps by blast
    note bounds = enforce_bounds_Inr_iff [OF t] enforce_bounds_no_trap [OF True]
    show ?thesis
      using assms(3,4) conf ids
      by (auto simp: factory_create_stream_def tx_fails tx_simps Let_def bump_instance_def factory_traps_def
          pause_flag_reads [OF c] check_stream_terms_no_trap bounds index_stream_Inl_iff succ_u64
          checked_add_u_None_iff as_simps dest!: deploy)
  qed
qed

lemma creates_counts:
  assumes "creates env sndr rcp tok deposit rate t0 t1 clawback h m h1"
    and "instance_store h StreamCount = Some (VU64 n)" and "trusts env h"
  shows "instance_store h1 StreamCount = Some (VU64 (n + 1)) \<and> uint (n + 1) = uint n + 1 \<and> trusts env h1"
  using assms by (auto simp: creates_iff trusts_def uint_plus_less)

lemma create_each_traps:
  fixes env :: "'w factory_env"
  assumes "factory_inv h" and "trusts env h" and "instance_store h StreamCount = Some (VU64 n)"
    and "create_each env sndr clawback rs ids h = Inl (Trap x)"
  shows "x \<in> factory_traps n (length rs)"
  using assms
proof (induction rs arbitrary: h n ids)
  case Nil
  then show ?case by (simp add: tx_eval)
next
  case (Cons r rs)
  let ?create = "factory_create_stream env sndr (request_recipient r) (request_token r)
        (request_deposit r) (request_rate_per_sec r) (request_start_time r) (request_end_time r) clawback"
  consider "?create h = Inl (Trap x)"
    | m h1 where "?create h = Inr (m, h1)" "create_each env sndr clawback rs (ids @ [m]) h1 = Inl (Trap x)"
    using Cons.prems(4) by (auto simp: bind_Inl_iff)
  then show ?case
  proof cases
    case 1
    from create_traps [OF Cons.prems(1-3) this] show ?thesis by (auto simp: factory_traps_def split: if_splits)
  next
    case 2
    from 2(1) have c: "creates env sndr (request_recipient r) (request_token r) (request_deposit r)
        (request_rate_per_sec r) (request_start_time r) (request_end_time r) clawback h m h1"
      by (simp add: factory_create_stream_iff)
    have "factory_inv h1" using factory_move.move_create [OF 2(1)] Cons.prems(1) by (rule factory_move_inv)
    with creates_counts [OF c Cons.prems(3,2)] 2(2) have "x \<in> factory_traps (n + 1) (length rs)"
      by (intro Cons.IH) auto
    with creates_counts [OF c Cons.prems(3,2)] show ?thesis by (simp add: factory_traps_def)
  qed
qed

lemma maintenance_traps:
  assumes "factory_inv h"
    and "m = factory_upgrade_stream_wasm env hash \<or> m = factory_pause env \<or> m = factory_unpause env"
    and "m h = Inl (Trap x)"
  shows "x = AuthError"
proof -
  have c: "configured h" using assms(1) by (auto simp: factory_inv_def)
  let ?h = "h\<lparr>ttl_log := ttl_log h @ [(None, THRESHOLD, EXTEND_TO)]\<rparr>"
  have "factory_inv ?h" using assms(1) by (rule factory_inv_frame) simp_all
  from bump_bucket_completes [OF this] obtain t h' where walk: "bump_persistent_bucket ?h = Inr (t, h')" by blast
  from assms(2) show ?thesis
    using assms(3) c
    by (elim disjE)
      (auto simp: factory_upgrade_stream_wasm_def factory_pause_def factory_unpause_def configured_def tx_fails
        tx_simps bump_instance_def walk pause_set_paused_def pause_flag_reads [OF c])
qed

lemma factory_exec_traps:
  fixes env :: "'w factory_env"
  assumes "factory_inv h" and "trusts env h" and "instance_store h StreamCount = Some (VU64 n)"
    and "factory_exec env c h = Inl (Trap x)"
  shows "x \<in> factory_traps n 100"
proof (cases c)
  case (CreateStream sndr rcp tok deposit rate t0 t1 clawback)
  then have "x \<in> factory_traps n 1"
    using assms(4) create_traps [OF assms(1-3)] by (simp add: unit_tx_def tx_fails)
  then show ?thesis by (auto simp: factory_traps_def split: if_splits)
next
  case (CreateBatch sndr rs clawback)
  then have "length rs \<le> 100" and "x \<in> factory_traps n (length rs)"
    using assms by (auto simp: unit_tx_def tx_fails factory_create_batch_streams_def MAX_BATCH_SIZE_def
        tx_simps intro: create_each_traps)
  then show ?thesis by (auto simp: factory_traps_def split: if_splits)
next
  case (UpgradeWasm hash)
  then have "factory_upgrade_stream_wasm env hash h = Inl (Trap x)" using assms(4) by simp
  with maintenance_traps [OF assms(1)] show ?thesis by (auto simp: factory_traps_def)
next
  case PauseFactory
  then have "factory_pause env h = Inl (Trap x)" using assms(4) by simp
  with maintenance_traps [OF assms(1)] show ?thesis by (auto simp: factory_traps_def)
next
  case UnpauseFactory
  then have "factory_unpause env h = Inl (Trap x)" using assms(4) by simp
  with maintenance_traps [OF assms(1)] show ?thesis by (auto simp: factory_traps_def)
next
  case (InitializeFactory hash governor)
  then show ?thesis
    using assms(4) by (auto simp: factory_initialize_def bump_instance_def tx_fails)
qed

section \<open>The governor, and all contracts\<close>

lemma governor_exec_traps:
  assumes "governor_inv gh" and "governor_exec env caller c gh = Inl (Trap x)"
  shows "x = AuthError \<or> x = ArithmeticPanic \<and> instance_store gh AdminCount = Some (VU32 4294967295)"
proof -
  obtain g where g: "instance_store gh = governor_store g" "governed g"
    using assms(1) by (auto simp: governor_inv_def)
  from assms(2) have "governor_next (has_authorized env) caller c g = Inl (Trap x)"
    by (simp add: governor_exec_eval [OF g] split: sum.splits)
  then show ?thesis
    by (cases c) (auto simp: governor_next_def grant_next_def revoke_next_def g(1) split: if_splits sum.splits)
qed

text \<open>Property C14. The contracts trap only where they must. In every state the protocol can reach, a call
  of the factory ends in a host trap only for a missing authorization, a refused token transfer, a
  taken address or, in the last hundred of the \<open>2 ^ 64\<close> ids, a counter that is exhausted; a call of
  a governor only for a missing authorization or more than \<open>2 ^ 32 - 1\<close> admins; and a call of a
  stream only for a missing authorization, a refused transfer, or a resume that would move the
  start or the end beyond 64 bits. No \<open>unwrap\<close> finds nothing, no entry has another type than the
  one it is read with, no entry is missing that is extended, no new stream refuses its terms, and
  no other arithmetic overflows unchecked.\<close>

theorem only_foreseen_traps:
  assumes "reaches (protocol_init base) (protocol_step base) (now, h)"
  shows "(on_chain base env \<and> factory_exec env fc h = Inl (Trap x) \<longrightarrow>
      (\<exists>N. factory_stream_count h = Inr (N, h) \<and>
         (x \<in> {AuthError, TokenFailure, DeployFailure} \<or>
          x = ArithmeticPanic \<and> 2 ^ 64 \<le> uint N + 100))) \<and>
    (governor_at (world h) a = Some gh \<and> governor_exec genv caller gc gh = Inl (Trap y) \<longrightarrow>
      y = AuthError \<or> y = ArithmeticPanic \<and> instance_store gh AdminCount = Some (VU32 4294967295)) \<and>
    (token_client senv = token_client base \<and> now \<le> ledger_timestamp senv \<and>
     stream_at (world h) (stream_contract base n) = Some sh \<and>
     stream_exec senv sc (on_ledger sh (tokens (world h))) = Inl (Trap z) \<longrightarrow>
      z \<in> {AuthError, TokenFailure} \<or>
      z = ArithmeticPanic \<and> sc = Resume \<and>
      (\<exists>i m. holds i m (instance_store sh) \<and> resume_overflows (ledger_timestamp senv) i))"
proof -
  have inv: "protocol_inv base (now, h)" using assms by (rule protocol_machine.inv_reaches)
  then have T: "token_conserves (token_client base)" and fi: "factory_inv h" and tr: "trusted base h"
    by (simp_all add: protocol_inv_def)
  obtain N where N: "instance_store h StreamCount = Some (VU64 N)"
    using fi by (auto simp: factory_inv_def registers_def)
  have "(\<exists>N. factory_stream_count h = Inr (N, h) \<and>
         (x \<in> {AuthError, TokenFailure, DeployFailure} \<or> x = ArithmeticPanic \<and> 2 ^ 64 \<le> uint N + 100))"
    if "on_chain base env" "factory_exec env fc h = Inl (Trap x)"
  proof -
    have "trusts env h" using tr that(1) by (simp add: trusts_def trusted_def on_chain_def wasm_is_stream_def)
    from factory_exec_traps [OF fi this N that(2)]
    have "x \<in> {AuthError, TokenFailure, DeployFailure} \<or> x = ArithmeticPanic \<and> 2 ^ 64 \<le> uint N + 100"
      by (auto simp: factory_traps_def split: if_splits)
    moreover have "factory_stream_count h = Inr (N, h)" using N by (simp add: factory_stream_count_def tx_eval host_eval)
    ultimately show ?thesis by blast
  qed
  moreover have "y = AuthError \<or> y = ArithmeticPanic \<and> instance_store gh AdminCount = Some (VU32 4294967295)"
    if "governor_at (world h) a = Some gh" "governor_exec genv caller gc gh = Inl (Trap y)"
  proof -
    have "reaches governor_init governor_move gh" using inv that(1) by (simp add: protocol_inv_def)
    then have "governor_inv gh" by (rule governor_machine.inv_reaches)
    then show ?thesis using that(2) by (rule governor_exec_traps)
  qed
  moreover have "z \<in> {AuthError, TokenFailure} \<or> z = ArithmeticPanic \<and> sc = Resume \<and>
      (\<exists>i m. holds i m (instance_store sh) \<and> resume_overflows (ledger_timestamp senv) i)"
    if "token_client senv = token_client base" "now \<le> ledger_timestamp senv"
      "stream_at (world h) (stream_contract base n) = Some sh"
      "stream_exec senv sc (on_ledger sh (tokens (world h))) = Inl (Trap z)"
  proof -
    have "stream_sound base now (tokens (world h)) (stream_contract base n) sh"
      using inv that(3) by (simp add: protocol_inv_def streams_sound_def)
    then obtain i m where i: "holds i m (instance_store sh)" "info_inv now i" by (rule stream_soundE)
    have "holds i m (instance_store (on_ledger sh (tokens (world h))))" using i(1) by simp
    moreover have "info_inv (ledger_timestamp senv) i" using i(2) that(2) by (rule info_inv_later)
    ultimately show ?thesis
      using stream_call_traps [of i m "on_ledger sh (tokens (world h))" senv sc z] T that(1,4) i(1) by auto
  qed
  ultimately show ?thesis by blast
qed

section \<open>Witnesses\<close>

theorem only_foreseen_traps_witness:
  "\<exists>h'. reaches (protocol_init wit_factory_env) (protocol_step wit_factory_env) (10, h') \<and>
     {x. \<exists>c. factory_exec wit_signed_env c h' = Inl (Trap x)} \<subseteq> {AuthError, TokenFailure, DeployFailure}"
proof -
  obtain h' where r: "reaches (protocol_init wit_factory_env) (protocol_step wit_factory_env) (10, h')"
    and one: "factory_stream_count h' = Inr (1, h')"
    by (rule wit_protocol_reached)
  have "x \<in> {AuthError, TokenFailure, DeployFailure}" if "factory_exec wit_signed_env c h' = Inl (Trap x)" for x c
    using only_foreseen_traps [where env = wit_signed_env and fc = c and x = x, OF r, THEN conjunct1] that one wit_on_chain by auto
  with r show ?thesis by blast
qed

end
