(* ===== verification/Stream_Yield.thy ===== *)
theory Stream_Yield
  imports Soroban_Host "HOL-Library.Signed_Division"
begin

text \<open>
  \<open>contracts/stream/src/yield_integration.rs\<close>: the rebate of a yield vault in fixed-point
  arithmetic. A function that returns a \<open>Result\<close> which its caller matches on returns it as a
  value here, so that what it has published before stays published.
\<close>

definition REBATE_BPS_SCALE :: i128 where
  "REBATE_BPS_SCALE = 10000"

definition SECONDS_PER_YEAR :: i128 where
  "SECONDS_PER_YEAR = 31557600"

definition MAX_REBATE_RATE_BPS :: i128 where
  "MAX_REBATE_RATE_BPS = 1000"

definition MIN_REBATE_THRESHOLD :: i128 where
  "MIN_REBATE_THRESHOLD = 100"

record yield_config =
  vault_address :: address
  is_active :: bool
  accrued_yield :: i128
  apy_bps :: i128
  last_updated :: u64
  deposited_principal :: i128

datatype rebate_error = RebateOverflow | InvalidRate | InsufficientPrincipal

fun rebate_error_code :: "rebate_error \<Rightarrow> nat" where
  "rebate_error_code RebateOverflow = 1"
| "rebate_error_code InvalidRate = 2"
| "rebate_error_code InsufficientPrincipal = 3"

text \<open>The SDK error is made by \<open>from_contract_error\<close> of the SDK.\<close>

definition rebate_into_error :: "(nat \<Rightarrow> 'sdk_error) \<Rightarrow> rebate_error \<Rightarrow> 'sdk_error" where
  "rebate_into_error from_contract_error err = from_contract_error (rebate_error_code err)"

text \<open>The published events: topics, then data.\<close>

datatype yield_event =
    YieldDeposit i128
  | YieldWithdraw i128
  | RebateCalculated i128 i128 u64 i128
  | YieldCalculate
  | YieldError

type_synonym ('k, 'v, 'w, 'err, 'a) yield_tx = "(('k, 'v, yield_event, 'w) host, 'err, 'a) tx"

text \<open>Signed division truncates; it panics on a zero divisor and on overflow.\<close>

definition div_i128 :: "i128 \<Rightarrow> i128 \<Rightarrow> i128 option" where
  "div_i128 a b = (if b = 0 then None else i128_of (sint a sdiv sint b))"

definition deposit_to_vault :: "i128 \<Rightarrow> ('k, 'v, 'w, 'err, unit) yield_tx" where
  "deposit_to_vault amount = publish (YieldDeposit amount)"

definition withdraw_from_vault :: "i128 \<Rightarrow> ('k, 'v, 'w, 'err, unit) yield_tx" where
  "withdraw_from_vault amount = publish (YieldWithdraw amount)"

definition calculate_rebate_with_params ::
  "i128 \<Rightarrow> i128 \<Rightarrow> u64 \<Rightarrow> ('k, 'v, 'w, 'err, rebate_error + i128) yield_tx" where
  "calculate_rebate_with_params princ apy time_elapsed_seconds =
     (if \<not> (0 \<le> sint apy \<and> sint apy \<le> sint MAX_REBATE_RATE_BPS) then return (Inl InvalidRate)
      else if sint princ < sint MIN_REBATE_THRESHOLD then return (Inl InsufficientPrincipal)
      else
        let time_elapsed = u64_as_i128 time_elapsed_seconds in
        case checked_mul_i128 princ apy of
          None \<Rightarrow> return (Inl RebateOverflow)
        | Some principal_times_rate \<Rightarrow>
            (case checked_mul_i128 principal_times_rate time_elapsed of
               None \<Rightarrow> return (Inl RebateOverflow)
             | Some numerator \<Rightarrow>
                 (case checked_mul_i128 REBATE_BPS_SCALE SECONDS_PER_YEAR of
                    None \<Rightarrow> return (Inl RebateOverflow)
                  | Some denominator \<Rightarrow>
                      bind (expect (div_i128 numerator denominator) ArithmeticPanic) (\<lambda>rebate.
                      bind (publish (RebateCalculated princ apy time_elapsed_seconds rebate)) (\<lambda>_.
                      return (Inr rebate))))))"

definition calculate_rebate :: "('k, 'v, 'w, 'err, i128) yield_tx" where
  "calculate_rebate =
     (let mock_principal = 1000000; mock_apy_bps = 500; mock_time_elapsed = 86400 in
      bind (calculate_rebate_with_params mock_principal mock_apy_bps mock_time_elapsed) (\<lambda>res.
      case res of
        Inr rebate \<Rightarrow> bind (publish YieldCalculate) (\<lambda>_. return rebate)
      | Inl _ \<Rightarrow> bind (publish YieldError) (\<lambda>_. return 0)))"

section \<open>The value of the rebate\<close>

lemma i128_of_fits: "i128_fits x \<Longrightarrow> i128_of x = Some (word_of_int x)"
  by (simp add: i128_of_def)

lemma rebate_denominator:
  "checked_mul_i128 REBATE_BPS_SCALE SECONDS_PER_YEAR = Some 315576000000"
  by (simp add: checked_mul_i128_def REBATE_BPS_SCALE_def SECONDS_PER_YEAR_def i128_of_def i128_fits_def)

lemma int_div_le: "0 \<le> a \<Longrightarrow> 0 < b \<Longrightarrow> a div b \<le> (a :: int)"
  using zdiv_mono2 [of a 1 b] by simp

lemma div_i128_nonneg:
  assumes "0 \<le> sint a" and "0 < sint b"
  shows "div_i128 a b = Some (word_of_int (sint a div sint b))"
    and "sint (word_of_int (sint a div sint b) :: i128) = sint a div sint b"
proof -
  have eq: "sint a sdiv sint b = sint a div sint b"
    using assms by (simp add: signed_divide_int_def sgn_if)
  have "0 \<le> sint a div sint b" using assms by (simp add: pos_imp_zdiv_nonneg_iff)
  moreover have "sint a div sint b \<le> sint a" using assms by (simp add: int_div_le)
  ultimately have fits: "i128_fits (sint a div sint b)"
    using sint_i128_range [of a] by (simp add: i128_fits_def)
  show "div_i128 a b = Some (word_of_int (sint a div sint b))"
    using assms fits by (auto simp: div_i128_def eq i128_of_def)
  show "sint (word_of_int (sint a div sint b) :: i128) = sint a div sint b"
    using fits by (rule sint_word_of_int_fits)
qed

lemma calculate_rebate_eval:
  "calculate_rebate_with_params princ apy secs h =
     (let product = sint princ * sint apy * uint secs;
          rebate = word_of_int (product div (10000 * 31557600)) in
      if sint apy < 0 \<or> 1000 < sint apy then Inr (Inl InvalidRate, h)
      else if sint princ < 100 then Inr (Inl InsufficientPrincipal, h)
      else if 2 ^ 127 \<le> sint princ * sint apy \<or> 2 ^ 127 \<le> product
        then Inr (Inl RebateOverflow, h)
      else Inr (Inr rebate, h\<lparr>event_log := event_log h @ [RebateCalculated princ apy secs rebate]\<rparr>))"
proof -
  let ?pr = "sint princ * sint apy"
  let ?product = "?pr * uint secs"
  have limits: "sint MAX_REBATE_RATE_BPS = 1000" "sint MIN_REBATE_THRESHOLD = 100"
    by (simp_all add: MAX_REBATE_RATE_BPS_def MIN_REBATE_THRESHOLD_def)
  show ?thesis
  proof (cases "sint apy < 0 \<or> 1000 < sint apy \<or> sint princ < 100")
    case True
    then show ?thesis
      by (auto simp: calculate_rebate_with_params_def limits tx_eval Let_def)
  next
    case False
    then have pr: "0 \<le> ?pr" and product: "0 \<le> ?product" by simp_all
    consider (rate) "2 ^ 127 \<le> ?pr" | (product) "?pr < 2 ^ 127" "2 ^ 127 \<le> ?product"
      | (fits) "?pr < 2 ^ 127" "?product < 2 ^ 127" by linarith
    then show ?thesis
    proof cases
      case rate
      then have "checked_mul_i128 princ apy = None"
        by (simp add: checked_mul_i128_def i128_of_def i128_fits_def)
      then show ?thesis using False rate
        by (simp add: calculate_rebate_with_params_def limits tx_eval Let_def)
    next
      case product
      then have "i128_fits ?pr" using pr by (simp add: i128_fits_def)
      from i128_exists [OF this] obtain pr :: i128 where sint_pr: "sint pr = ?pr" ..
      then have "checked_mul_i128 princ apy = Some pr"
        by (simp add: checked_mul_i128_def i128_of_Some_iff)
      moreover have "checked_mul_i128 pr (u64_as_i128 secs) = None"
        using product by (simp add: checked_mul_i128_def i128_of_def i128_fits_def sint_pr)
      ultimately show ?thesis using False product
        by (simp add: calculate_rebate_with_params_def limits tx_eval Let_def)
    next
      case fits
      then have "i128_fits ?pr" "i128_fits ?product"
        using pr product unfolding i128_fits_def by linarith+
      then obtain pr num :: i128 where sint_pr: "sint pr = ?pr" and sint_num: "sint num = ?product"
        using i128_exists by meson
      have "checked_mul_i128 princ apy = Some pr"
        by (simp add: checked_mul_i128_def i128_of_Some_iff sint_pr)
      moreover have "checked_mul_i128 pr (u64_as_i128 secs) = Some num"
        by (simp add: checked_mul_i128_def i128_of_Some_iff sint_pr sint_num)
      moreover have "div_i128 num 315576000000 = Some (word_of_int (?product div 315576000000))"
        using div_i128_nonneg(1) [of num 315576000000] product by (simp add: sint_num)
      ultimately show ?thesis using False fits
        by (simp add: calculate_rebate_with_params_def limits rebate_denominator tx_eval publish_def
            Let_def)
    qed
  qed
qed

text \<open>Property C37. The rebate calculation on every branch: a rate outside 0 to 1000 basis points,
  then a principal under 100, then a product over 128 bits is the error, with nothing published;
  otherwise the result is exactly principal times rate times seconds over ten thousand times the
  seconds of a year, rounded down, and one event reports it. It never panics.\<close>

theorem rebate_result:
  "calculate_rebate_with_params princ apy secs h =
     (let product = sint princ * sint apy * uint secs;
          rebate = word_of_int (product div (10000 * 31557600)) in
      if sint apy < 0 \<or> 1000 < sint apy then Inr (Inl InvalidRate, h)
      else if sint princ < 100 then Inr (Inl InsufficientPrincipal, h)
      else if 2 ^ 127 \<le> sint princ * sint apy \<or> 2 ^ 127 \<le> product
        then Inr (Inl RebateOverflow, h)
      else Inr (Inr rebate, h\<lparr>event_log := event_log h @ [RebateCalculated princ apy secs rebate]\<rparr>))"
  by (rule calculate_rebate_eval)

text \<open>A rebate is never more than ten percent of the principal per year, and never
  negative: the result times ten years' worth of seconds is at most the principal times the elapsed
  seconds.\<close>

theorem rebate_bounded:
  assumes "calculate_rebate_with_params princ apy secs h = Inr (Inr rebate, h')"
  shows "0 \<le> sint rebate \<and> sint rebate * (10 * 31557600) \<le> sint princ * uint secs"
proof -
  let ?product = "sint princ * sint apy * uint secs"
  have ok: "0 \<le> sint apy" "sint apy \<le> 1000" "100 \<le> sint princ" "?product < 2 ^ 127"
    and r: "rebate = word_of_int (?product div (10000 * 31557600))"
    using assms by (auto simp: calculate_rebate_eval Let_def split: if_splits)
  have "0 \<le> ?product" using ok by simp
  then have q: "0 \<le> ?product div (10000 * 31557600)" "?product div (10000 * 31557600) \<le> ?product"
    by (simp_all add: pos_imp_zdiv_nonneg_iff int_div_le)
  then have "i128_fits (?product div (10000 * 31557600))" using ok(4) by (simp add: i128_fits_def)
  then have s: "sint rebate = ?product div (10000 * 31557600)"
    unfolding r by (rule sint_word_of_int_fits)
  have "sint rebate * (10000 * 31557600) \<le> ?product"
    unfolding s by (simp add: div_times_less_eq_dividend)
  moreover have "sint princ * uint secs * sint apy \<le> sint princ * uint secs * 1000"
    using ok by (intro mult_left_mono) simp_all
  ultimately have "sint rebate * (10 * 31557600) \<le> sint princ * uint secs"
    by (simp add: algebra_simps)
  then show ?thesis using q(1) s by simp
qed

text \<open>The mock rebate is always 136: the calculation on its fixed parameters succeeds.\<close>

theorem mock_rebate_value:
  "calculate_rebate h = Inr (136, h\<lparr>event_log := event_log h @
     [RebateCalculated 1000000 500 86400 136, YieldCalculate]\<rparr>)"
  by (simp add: calculate_rebate_def calculate_rebate_eval tx_eval publish_def Let_def)

end
