(* ===== verification/Oracle.thy ===== *)
theory Oracle
  imports Soroban_Host Machine
begin

text \<open>
  \<open>src/src/oracle.rs\<close>: a price feed for streams in fiat money. The file is in no compiled target,
  and one expression of it has no type: in \<open>get_twap_price\<close> two versions of the body were joined, so
  that the older one ends in \<open>Ok(mock_price)\<close> on which the newer one calls \<open>.get\<close>. Here
  \<open>get_twap_price\<close> is the older body with what follows \<open>Ok(mock_price)\<close> as a parameter, and
  \<open>observed_price\<close> is the newer body on its own, its lost receiver read as the instance storage.
\<close>

section \<open>Data\<close>

type_synonym u128 = "128 word"

text \<open>The keys: the three of \<open>DataKey\<close>, and the symbols \<open>O_Lock\<close> and \<open>OracleCfg\<close> of
  \<open>get_twap_price\<close>, which are keys of their own.\<close>

datatype oracle_key = Admin | Config | Price | O_Lock | OracleCfg

record oracle_config =
  oracle_address :: address
  decimals :: u32
  asset_peg :: u32
  max_staleness :: u64

record price_data =
  price :: u64
  updated_at :: u64

datatype oracle_error =
    OracleStalePrice
  | OracleNotConfigured
  | InvalidPrice
  | OracleLocked
  | CalculationOverflow
  | NotAuthorized
  | AlreadyInitialized
  | NoPriceAvailable
  | ArithmeticOverflow
  | InvalidDecimals

fun oracle_error_code :: "oracle_error \<Rightarrow> nat" where
  "oracle_error_code OracleStalePrice = 1001"
| "oracle_error_code OracleNotConfigured = 1002"
| "oracle_error_code InvalidPrice = 1003"
| "oracle_error_code OracleLocked = 1004"
| "oracle_error_code CalculationOverflow = 1005"
| "oracle_error_code NotAuthorized = 1004"
| "oracle_error_code AlreadyInitialized = 1005"
| "oracle_error_code NoPriceAvailable = 1006"
| "oracle_error_code ArithmeticOverflow = 1007"
| "oracle_error_code InvalidDecimals = 1008"

text \<open>The contract stores two structs.\<close>

datatype oracle_struct = ConfigStruct oracle_config | PriceStruct price_data

type_synonym 'w oracle_host = "(oracle_key, oracle_struct stored, unit, 'w) host"

type_synonym ('w, 'a) oracle_tx = "('w oracle_host, oracle_error, 'a) tx"

fun as_config :: "oracle_struct stored \<Rightarrow> oracle_config option" where
  "as_config (VStruct (ConfigStruct c)) = Some c"
| "as_config _ = None"

fun as_price :: "oracle_struct stored \<Rightarrow> price_data option" where
  "as_price (VStruct (PriceStruct p)) = Some p"
| "as_price _ = None"

section \<open>Unsigned 128-bit arithmetic\<close>

definition checked_mul_u :: "'n::len word \<Rightarrow> 'n word \<Rightarrow> 'n word option" where
  "checked_mul_u a b = (if uint a * uint b < 2 ^ LENGTH('n) then Some (a * b) else None)"

definition checked_pow_u :: "'n::len word \<Rightarrow> u32 \<Rightarrow> 'n word option" where
  "checked_pow_u a k = (if uint a ^ unat k < 2 ^ LENGTH('n) then Some (a ^ unat k) else None)"

definition checked_div_u :: "'n::len word \<Rightarrow> 'n word \<Rightarrow> 'n word option" where
  "checked_div_u a b = (if b = 0 then None else Some (a div b))"

definition u64_as_u128 :: "u64 \<Rightarrow> u128" where
  "u64_as_u128 = ucast"

section \<open>Entry points\<close>

definition require_admin :: "('w, 'n) env_scheme \<Rightarrow> address \<Rightarrow> ('w, unit) oracle_tx" where
  "require_admin env caller =
     bind (instance_get as_address Admin) (\<lambda>a.
     bind (ok_or a OracleNotConfigured) (\<lambda>admin.
     bind (ensure (\<not> caller \<noteq> admin) NotAuthorized) (\<lambda>_.
     require_auth env caller)))"

definition oracle_initialize :: "address \<Rightarrow> ('w, unit) oracle_tx" where
  "oracle_initialize admin =
     bind (instance_has Admin) (\<lambda>initialized.
     bind (ensure (\<not> initialized) AlreadyInitialized) (\<lambda>_.
     instance_set Admin (VAddress admin)))"

definition configure_oracle ::
  "('w, 'n) env_scheme \<Rightarrow> address \<Rightarrow> oracle_config \<Rightarrow> ('w, unit) oracle_tx" where
  "configure_oracle env caller config =
     bind (require_admin env caller) (\<lambda>_.
     bind (ensure (\<not> 38 < decimals config) InvalidDecimals) (\<lambda>_.
     instance_set Config (VStruct (ConfigStruct config))))"

definition submit_price :: "('w, 'n) env_scheme \<Rightarrow> address \<Rightarrow> u64 \<Rightarrow> ('w, unit) oracle_tx" where
  "submit_price env caller p =
     bind (require_admin env caller) (\<lambda>_.
     bind (ensure (\<not> p = 0) InvalidPrice) (\<lambda>_.
     instance_set Price (VStruct (PriceStruct \<lparr>price = p, updated_at = ledger_timestamp env\<rparr>))))"

text \<open>
  The \<open>Result\<close> of \<open>get_twap_price\<close> is a value here, with the state the function leaves on each
  branch, as its caller in the contract sees it. \<open>rest\<close> is what comes of \<open>Ok(mock_price)\<close>.
\<close>

definition get_twap_price ::
  "(oracle_error + u64 \<Rightarrow> ('w, oracle_error + u64) oracle_tx) \<Rightarrow> ('w, 'n) env_scheme \<Rightarrow>
     ('w, oracle_error + u64) oracle_tx" where
  "get_twap_price rest env =
     bind (instance_get as_bool O_Lock) (\<lambda>l.
     if unwrap_or l False then return (Inl OracleLocked)
     else
       bind (instance_set O_Lock (VBool True)) (\<lambda>_.
       bind (instance_get as_config OracleCfg) (\<lambda>config_res.
       case config_res of
         None \<Rightarrow> bind (instance_set O_Lock (VBool False)) (\<lambda>_. return (Inl OracleNotConfigured))
       | Some config \<Rightarrow>
           let current_time = ledger_timestamp env;
               mock_price = 50000000;
               last_updated = saturating_sub_u current_time 30 in
           if max_staleness config < saturating_sub_u current_time last_updated then
             bind (instance_set O_Lock (VBool False)) (\<lambda>_. return (Inl OracleStalePrice))
           else if mock_price = 0 then
             bind (instance_set O_Lock (VBool False)) (\<lambda>_. return (Inl InvalidPrice))
           else
             bind (instance_set O_Lock (VBool False)) (\<lambda>_. rest (Inr mock_price)))))"

definition observed_price :: "('w, 'n) env_scheme \<Rightarrow> ('w, oracle_error + u64) oracle_tx" where
  "observed_price env =
     bind (instance_get as_config Config) (\<lambda>c.
     case c of
       None \<Rightarrow> return (Inl OracleNotConfigured)
     | Some config \<Rightarrow>
         bind (instance_get as_price Price) (\<lambda>d.
         case d of
           None \<Rightarrow> return (Inl NoPriceAvailable)
         | Some data \<Rightarrow>
             let age = saturating_sub_u (ledger_timestamp env) (updated_at data) in
             if max_staleness config < age then return (Inl OracleStalePrice)
             else if price data = 0 then return (Inl InvalidPrice)
             else return (Inr (price data))))"

text \<open>The conversion, over the price function that it calls; the second half repeats the first.\<close>

definition calculate_fiat_stream_payout ::
  "('w, oracle_error + u64) oracle_tx \<Rightarrow> u64 \<Rightarrow> ('w, u64) oracle_tx" where
  "calculate_fiat_stream_payout get_price token_amount =
     bind get_price (\<lambda>res.
     bind (lift_result res) (\<lambda>current_price.
     bind (instance_get as_config Config) (\<lambda>c.
     bind (ok_or c OracleNotConfigured) (\<lambda>config.
     bind (ok_or (checked_pow_u (10 :: u128) (decimals config)) InvalidDecimals) (\<lambda>precision.
     bind (ok_or (checked_mul_u (u64_as_u128 token_amount) (u64_as_u128 current_price))
             ArithmeticOverflow) (\<lambda>product.
     let val = product div precision in
     bind (ensure (\<not> u64_as_u128 (- 1) < val) ArithmeticOverflow) (\<lambda>_.
     bind (ok_or (checked_pow_u (10 :: u128) (decimals config)) CalculationOverflow) (\<lambda>precision2.
     bind (ok_or (checked_mul_u (u64_as_u128 token_amount) (u64_as_u128 current_price))
             CalculationOverflow) (\<lambda>token_val.
     bind (ok_or (checked_div_u token_val precision2) CalculationOverflow) (\<lambda>val2.
     return (ucast val2)))))))))))"

section \<open>The oracle as a state machine\<close>

text \<open>A call whose \<open>Result\<close> is an error is rolled back.\<close>

inductive oracle_init :: "'w oracle_host \<Rightarrow> bool" where
  oracle_initI: "instance_store h = Map.empty \<Longrightarrow> oracle_init h"

inductive oracle_move :: "'w oracle_host \<Rightarrow> 'w oracle_host \<Rightarrow> bool" where
  move_initialize: "oracle_initialize admin h = Inr ((), h') \<Longrightarrow> oracle_move h h'"
| move_configure: "configure_oracle (env :: 'w env) caller config h = Inr ((), h') \<Longrightarrow> oracle_move h h'"
| move_submit: "submit_price (env :: 'w env) caller p h = Inr ((), h') \<Longrightarrow> oracle_move h h'"
| move_quote: "get_twap_price rest (env :: 'w env) h = Inr (Inr p, h') \<Longrightarrow> oracle_move h h'"
| move_payout:
    "calculate_fiat_stream_payout (get_twap_price rest (env :: 'w env)) amount h = Inr (v, h') \<Longrightarrow>
     oracle_move h h'"

definition oracle_typed :: "'w oracle_host \<Rightarrow> bool" where
  "oracle_typed h \<longleftrightarrow>
     (instance_store h Admin = None \<or> (\<exists>a. instance_store h Admin = Some (VAddress a))) \<and>
     (instance_store h Config = None \<or>
      (\<exists>c. instance_store h Config = Some (VStruct (ConfigStruct c)) \<and> decimals c \<le> 38)) \<and>
     (instance_store h Price = None \<or>
      (\<exists>d. instance_store h Price = Some (VStruct (PriceStruct d)) \<and> price d \<noteq> 0)) \<and>
     instance_store h O_Lock = None \<and> instance_store h OracleCfg = None"

lemma get_twap_price_typed:
  assumes "oracle_typed h"
  shows "get_twap_price rest env h =
    Inr (Inl OracleNotConfigured, h\<lparr>instance_store := (instance_store h)(O_Lock \<mapsto> VBool False)\<rparr>)"
  using assms by (simp add: oracle_typed_def get_twap_price_def tx_eval host_eval unwrap_or_def)

lemma payout_typed:
  assumes "oracle_typed h"
  shows "calculate_fiat_stream_payout (get_twap_price rest env) amount h = Inl (Err OracleNotConfigured)"
  by (simp add: calculate_fiat_stream_payout_def tx_eval get_twap_price_typed [OF assms] lift_result_def)

lemma as_address_iff: "as_address v = Some a \<longleftrightarrow> v = VAddress a"
  by (cases v) auto

lemma require_admin_Inr_iff [tx_simps]:
  "require_admin env caller h = Inr r \<longleftrightarrow>
     instance_store h Admin = Some (VAddress caller) \<and> has_authorized env caller \<and> r = ((), h)"
  by (auto simp: require_admin_def tx_simps as_address_iff)

lemma oracle_move_typed: "oracle_move h h' \<Longrightarrow> oracle_typed h \<Longrightarrow> oracle_typed h'"
proof (induction rule: oracle_move.induct)
  case move_initialize
  then show ?case by (auto simp: oracle_initialize_def tx_simps oracle_typed_def)
next
  case move_configure
  then show ?case by (auto simp: configure_oracle_def tx_simps oracle_typed_def not_less)
next
  case move_submit
  then show ?case by (auto simp: submit_price_def tx_simps oracle_typed_def)
next
  case move_quote
  then show ?case by (simp add: get_twap_price_typed)
next
  case move_payout
  then show ?case by (simp add: payout_typed)
qed

lemma oracle_init_typed: "oracle_init h \<Longrightarrow> oracle_typed h"
  by (auto simp: oracle_typed_def elim!: oracle_init.cases)

interpretation oracle_machine: invariant oracle_init oracle_move oracle_typed
  by unfold_locales (auto intro: oracle_init_typed oracle_move_typed)

lemma oracle_move_admin:
  "oracle_move h h' \<Longrightarrow> oracle_typed h \<Longrightarrow> instance_store h Admin = Some (VAddress a) \<Longrightarrow>
   instance_store h' Admin = Some (VAddress a)"
  by (induction rule: oracle_move.induct)
    (auto simp: oracle_initialize_def configure_oracle_def submit_price_def tx_simps
      get_twap_price_typed payout_typed)

lemma oracle_later_admin:
  "later oracle_move h h' \<Longrightarrow> oracle_typed h \<Longrightarrow> instance_store h Admin = Some (VAddress a) \<Longrightarrow>
   instance_store h' Admin = Some (VAddress a)"
proof (induction rule: later.induct)
  case later_refl
  then show ?case by simp
next
  case (later_step h h' h'')
  then show ?case using oracle_machine.inv_later by (blast intro: oracle_move_admin)
qed

text \<open>Property C35. What the oracle stores has the type it is read with, in every reachable state: the
  administrator is an address that no later call replaces, the configuration is one whose power of
  ten fits in 128 bits, the price observation is not zero, and the lock and the symbol key that
  \<open>get_twap_price\<close> reads are never stored.\<close>

theorem oracle_entries_stay_typed:
  assumes "reaches oracle_init oracle_move h"
  shows "(instance_store h Admin = None \<or>
      (\<exists>a. instance_store h Admin = Some (VAddress a) \<and>
         (\<forall>h'. later oracle_move h h' \<longrightarrow> instance_store h' Admin = Some (VAddress a)))) \<and>
    (instance_store h Config = None \<or>
      (\<exists>c. instance_store h Config = Some (VStruct (ConfigStruct c)) \<and>
         (10 :: nat) ^ unat (decimals c) < 2 ^ 128)) \<and>
    (instance_store h Price = None \<or>
      (\<exists>d. instance_store h Price = Some (VStruct (PriceStruct d)) \<and> price d \<noteq> 0)) \<and>
    instance_store h O_Lock = None \<and> instance_store h OracleCfg = None"
proof -
  have typed: "oracle_typed h" using assms by (rule oracle_machine.inv_reaches)
  have "(10 :: nat) ^ unat d < 2 ^ 128" if "d \<le> 38" for d :: u32
  proof -
    have "unat d \<le> 38" using that by (simp add: word_le_nat_alt)
    then have "(10 :: nat) ^ unat d \<le> 10 ^ 38" by (rule power_increasing) simp
    then show ?thesis by simp
  qed
  then show ?thesis
    using typed oracle_later_admin [OF _ typed] unfolding oracle_typed_def by blast
qed

text \<open>Property C36. The feed never quotes: \<open>configure_oracle\<close> stores the configuration under the data key
  \<open>Config\<close> and \<open>get_twap_price\<close> looks for it under the symbol \<open>OracleCfg\<close>, which nothing writes. So in
  every reachable state, whatever was configured and submitted and whatever the unfinished end of
  the function does, a quote is \<open>OracleNotConfigured\<close> with the lock released, and a conversion fails
  with the same error.\<close>

theorem oracle_never_quotes:
  assumes "reaches oracle_init oracle_move h"
  shows "get_twap_price rest env h =
      Inr (Inl OracleNotConfigured, h\<lparr>instance_store := (instance_store h)(O_Lock \<mapsto> VBool False)\<rparr>) \<and>
    calculate_fiat_stream_payout (get_twap_price rest env) amount h = Inl (Err OracleNotConfigured)"
  using oracle_machine.inv_reaches [OF assms] get_twap_price_typed payout_typed by blast

section \<open>The conversion\<close>

lemma pow10_fits:
  assumes "d \<le> (38 :: u32)"
  shows "(10 :: int) ^ unat d < 2 ^ 128"
proof -
  have "unat d \<le> 38" using assms by (simp add: word_le_nat_alt)
  then have "(10 :: int) ^ unat d \<le> 10 ^ 38" by (rule power_increasing) simp
  then show ?thesis by simp
qed

lemma uint_power_fits:
  assumes "uint a ^ k < 2 ^ LENGTH('n)"
  shows "uint (a ^ k) = uint (a :: 'n::len word) ^ k"
proof -
  have "uint (a ^ k) = uint (word_of_int (uint a ^ k) :: 'n word)" by simp
  also have "\<dots> = uint a ^ k" using assms by (intro word_of_int_inverse [OF refl]) simp_all
  finally show ?thesis .
qed

lemma u64_product_fits: "uint (a :: u64) * uint (b :: u64) < 2 ^ 128"
proof -
  have "uint a * uint b \<le> (2 ^ 64 - 1) * (2 ^ 64 - 1)"
    using uint_u64_range [of a] uint_u64_range [of b] by (intro mult_mono) simp_all
  then show ?thesis by simp
qed

lemma conversion_eval:
  assumes "get_price h = Inr (Inr p, h1)"
    and "instance_store h1 Config = Some (VStruct (ConfigStruct c))" and "decimals c \<le> 38"
  shows "calculate_fiat_stream_payout get_price amount h =
    (let v = uint amount * uint p div 10 ^ unat (decimals c) in
     if 2 ^ 64 \<le> v then Inl (Err ArithmeticOverflow) else Inr (word_of_int v, h1))"
proof -
  let ?P = "(10 :: u128) ^ unat (decimals c)" and ?m = "u64_as_u128 amount * u64_as_u128 p"
  have wide: "uint (u64_as_u128 x) = uint x" for x
    by (simp add: u64_as_u128_def uint_up_ucast is_up)
  have ten: "uint (10 :: u128) = 10" by simp
  have P: "checked_pow_u (10 :: u128) (decimals c) = Some ?P" and uP: "uint ?P = 10 ^ unat (decimals c)"
    using pow10_fits [OF assms(3)] uint_power_fits [of "10 :: u128" "unat (decimals c)"]
    by (simp_all add: checked_pow_u_def)
  have m: "checked_mul_u (u64_as_u128 amount) (u64_as_u128 p) = Some ?m"
    and um: "uint ?m = uint amount * uint p"
    using u64_product_fits [of amount p] uint_mult_lem [of "u64_as_u128 amount" "u64_as_u128 p"]
    by (simp_all add: checked_mul_u_def wide)
  have nz: "?P \<noteq> 0"
  proof
    assume "?P = 0"
    then have "uint ?P = 0" by simp
    then show False using uP by simp
  qed
  have v: "uint (?m div ?P) = uint amount * uint p div 10 ^ unat (decimals c)"
    by (simp only: uint_div um uP)
  have top: "uint (u64_as_u128 (- 1)) = 2 ^ 64 - 1"
    using unsigned_minus_1_eq_mask [where 'a = int and 'b = 64] by (simp add: wide mask_eq_exp_minus_1)
  have big: "u64_as_u128 (- 1) < ?m div ?P \<longleftrightarrow> 2 ^ 64 \<le> uint amount * uint p div 10 ^ unat (decimals c)"
    by (auto simp: word_less_alt v top)
  have cast: "(ucast (?m div ?P) :: u64) = word_of_int (uint amount * uint p div 10 ^ unat (decimals c))"
    by (simp only: ucast_eq v)
  have d: "checked_div_u ?m ?P = Some (?m div ?P)" using nz by (simp add: checked_div_u_def)
  show ?thesis
    by (simp add: calculate_fiat_stream_payout_def tx_eval host_eval assms(1,2) P m d big cast Let_def
        lift_result_def del: mult.commute)
qed

lemma observed_price_eval:
  assumes "instance_store h Config = Some (VStruct (ConfigStruct c))"
    and "instance_store h Price = Some (VStruct (PriceStruct d))" and "price d \<noteq> 0"
  shows "observed_price env h =
    Inr (if uint (max_staleness c) < uint (ledger_timestamp env) - uint (updated_at d)
         then Inl OracleStalePrice else Inr (price d), h)"
proof -
  have "0 \<le> uint (max_staleness c)" by simp
  then have "\<not> uint (updated_at d) \<le> uint (ledger_timestamp env) \<Longrightarrow>
      \<not> uint (max_staleness c) < uint (ledger_timestamp env) - uint (updated_at d)"
    by linarith
  then have "max_staleness c < saturating_sub_u (ledger_timestamp env) (updated_at d) \<longleftrightarrow>
      uint (max_staleness c) < uint (ledger_timestamp env) - uint (updated_at d)"
    by (auto simp: saturating_sub_u_def word_less_alt uint_minus_le)
  then show ?thesis
    using assms by (simp add: observed_price_def tx_eval host_eval Let_def)
qed

text \<open>The conversion at the submitted price, in any reachable state with a configuration and an
  observation: a price older than the configured age is stale (one stamped ahead of the ledger time
  never is); otherwise the result is amount times price over ten to the decimals, rounded down, and
  an overflow error exactly when that does not fit in 64 bits. The other errors of the code cannot
  happen, and computing the value twice changes nothing.\<close>

theorem fiat_payout_exact:
  assumes "reaches oracle_init oracle_move h"
    and "instance_store h Config = Some (VStruct (ConfigStruct c))"
    and "instance_store h Price = Some (VStruct (PriceStruct d))"
  shows "calculate_fiat_stream_payout (observed_price env) amount h =
    (let v = uint amount * uint (price d) div 10 ^ unat (decimals c) in
     if uint (max_staleness c) < uint (ledger_timestamp env) - uint (updated_at d)
       then Inl (Err OracleStalePrice)
     else if 2 ^ 64 \<le> v then Inl (Err ArithmeticOverflow)
     else Inr (word_of_int v, h))"
proof -
  have "oracle_typed h" using assms(1) by (rule oracle_machine.inv_reaches)
  then have c: "decimals c \<le> 38" and d: "price d \<noteq> 0"
    using assms(2,3) by (auto simp: oracle_typed_def)
  note quote = observed_price_eval [OF assms(2,3) d, of env]
  show ?thesis
  proof (cases "uint (max_staleness c) < uint (ledger_timestamp env) - uint (updated_at d)")
    case True
    then show ?thesis
      by (simp add: calculate_fiat_stream_payout_def tx_eval lift_result_def quote Let_def)
  next
    case False
    then have "observed_price env h = Inr (Inr (price d), h)" using quote by simp
    with assms(2) c have "calculate_fiat_stream_payout (observed_price env) amount h =
        (let v = uint amount * uint (price d) div 10 ^ unat (decimals c) in
         if 2 ^ 64 \<le> v then Inl (Err ArithmeticOverflow) else Inr (word_of_int v, h))"
      by (intro conversion_eval)
    with False show ?thesis by (simp add: Let_def)
  qed
qed

section \<open>Witnesses\<close>

text \<open>An oracle after \<open>initialize(7)\<close>, a configuration with 2 decimals and a price of 250 at 1000.\<close>

definition wit_oracle_config :: oracle_config where
  "wit_oracle_config = \<lparr>oracle_address = 9, decimals = 2, asset_peg = 0, max_staleness = 60\<rparr>"

definition wit_oracle_env :: "u64 \<Rightarrow> unit env" where
  "wit_oracle_env now = \<lparr>ledger_timestamp = now, current_contract_address = 8, has_authorized = (\<lambda>a. a = 7),
     token_client = \<lparr>token_balance = (\<lambda>_ _ _. 0), token_transfer = (\<lambda>_ _ _ _ _. None)\<rparr>\<rparr>"

definition wit_oracle :: "unit oracle_host" where
  "wit_oracle = \<lparr>instance_store = [Admin \<mapsto> VAddress 7,
       Config \<mapsto> VStruct (ConfigStruct wit_oracle_config),
       Price \<mapsto> VStruct (PriceStruct \<lparr>price = 250, updated_at = 1000\<rparr>)],
     persistent_store = Map.empty, ttl_log = [], event_log = [], world = ()\<rparr>"

lemma wit_oracle_reached: "reaches oracle_init oracle_move wit_oracle"
proof -
  let ?s = "\<lambda>m. \<lparr>instance_store = m, persistent_store = Map.empty, ttl_log = [], event_log = [], world = ()\<rparr>
    :: unit oracle_host"
  have "reaches oracle_init oracle_move (?s Map.empty)"
    by (intro reaches_init oracle_initI) simp
  moreover have "oracle_initialize 7 (?s Map.empty) = Inr ((), ?s [Admin \<mapsto> VAddress 7])"
    by (simp add: oracle_initialize_def tx_eval host_eval)
  ultimately have "reaches oracle_init oracle_move (?s [Admin \<mapsto> VAddress 7])"
    by (blast intro: reaches_step move_initialize)
  moreover have "configure_oracle (wit_oracle_env 1000) 7 wit_oracle_config (?s [Admin \<mapsto> VAddress 7]) =
      Inr ((), ?s [Admin \<mapsto> VAddress 7, Config \<mapsto> VStruct (ConfigStruct wit_oracle_config)])"
    by (simp add: configure_oracle_def require_admin_def tx_eval host_eval wit_oracle_env_def
        wit_oracle_config_def)
  ultimately have "reaches oracle_init oracle_move
      (?s [Admin \<mapsto> VAddress 7, Config \<mapsto> VStruct (ConfigStruct wit_oracle_config)])"
    by (blast intro: reaches_step move_configure)
  moreover have "submit_price (wit_oracle_env 1000) 7 250
      (?s [Admin \<mapsto> VAddress 7, Config \<mapsto> VStruct (ConfigStruct wit_oracle_config)]) = Inr ((), wit_oracle)"
    by (simp add: submit_price_def require_admin_def tx_eval host_eval wit_oracle_env_def wit_oracle_def)
  ultimately show ?thesis by (blast intro: reaches_step move_submit)
qed

theorem oracle_entries_stay_typed_witness:
  "\<exists>c. instance_store wit_oracle Config = Some (VStruct (ConfigStruct c)) \<and>
     (10 :: nat) ^ unat (decimals c) < 2 ^ 128"
  using oracle_entries_stay_typed [OF wit_oracle_reached] by (simp add: wit_oracle_def)

theorem oracle_never_quotes_witness:
  "calculate_fiat_stream_payout (get_twap_price (\<lambda>r. return r) (wit_oracle_env 1010)) 300 wit_oracle =
     Inl (Err OracleNotConfigured)"
  using oracle_never_quotes [OF wit_oracle_reached] by blast

theorem fiat_payout_exact_witness:
  "calculate_fiat_stream_payout (observed_price (wit_oracle_env 1010)) 300 wit_oracle =
     Inr (750, wit_oracle)"
  using fiat_payout_exact [OF wit_oracle_reached, of wit_oracle_config "\<lparr>price = 250, updated_at = 1000\<rparr>"
      "wit_oracle_env 1010" 300]
  by (simp add: wit_oracle_def wit_oracle_config_def wit_oracle_env_def)

end
