(* ===== verification/Spec2Isabelle.thy ===== *)
theory Spec2Isabelle
  imports Stream_Layout Stream_Reference Stream_Withdrawals Signature_Codec Protocol_Creation Protocol_Batch
    Protocol_Books Protocol_Settlement Protocol_Traps Stream_Yield Oracle
begin

text \<open>
  Conduit: payment streams on Soroban, modelled and verified.

  The program. Three contracts. \<open>DripStream\<close> (\<open>contracts/stream\<close>) holds one stream: a sender has
  put tokens in escrow, which a recipient earns at a fixed rate from a start to an optional end;
  the recipient withdraws, the sender can pause, resume, cancel, top up, extend and (if agreed) claw
  back, and a recipient whose stream stays paused for thirty days can force a settlement.
  \<open>DripFactory\<close> (\<open>contracts/factory\<close>) checks the terms of a new stream, pulls the deposit,
  deploys and initializes the stream's contract, forwards the deposit and keeps a registry. It asks
  \<open>DripGovernor\<close> (\<open>contracts/governor\<close>) for the bounds on rate and length; the governor keeps the
  protocol's parameters behind three roles.

  How it is modelled. A contract function is a function from the state of the host to a failure or
  a value and the new state (\<open>tx\<close> in \<open>Prelude\<close>). A failure carries no state, since the host rolls a
  failed call back. \<open>Err e\<close> is a contract error (a returned \<open>Err\<close> or \<open>panic_with_error!\<close>), \<open>Trap\<close> a
  host trap; plain \<open>+\<close> and \<open>-\<close> trap on overflow (the release profile sets \<open>overflow-checks\<close>) and
  checked operations give the error the code names. Integers keep their widths: \<open>u32\<close>, \<open>u64\<close>,
  \<open>u128\<close> and \<open>i128\<close> are words, \<open>i128\<close> compared through \<open>sint\<close>. Three functions are the exception to
  the rollback rule: \<open>calculate_rebate_with_params\<close>, \<open>process_batch\<close> and \<open>get_twap_price\<close> return their
  \<open>Result\<close> as a value, so that what they leave behind on an error can be stated.

  Theories, and the code they model:
  \<^item> \<open>Prelude\<close>: machine integers, failures and the sequencing of calls. The collections \<open>tx_simps\<close>,
    \<open>tx_fails\<close> and \<open>tx_eval\<close> say when a call succeeds, when it fails and what it computes.
  \<^item> \<open>Soroban_Host\<close>: storage, authorization, events, time-to-live requests and the token client.
  \<^item> \<open>Machine\<close>: reachable and later states, the locales \<open>invariant\<close> and \<open>monotone_invariant\<close>, and
    \<open>simulation\<close>, by which a part of a system sees a run of its own machine.
  \<^item> \<open>Lockstep\<close>: calls that do the same on states that cannot be told apart, with rules that follow
    the structure of a call.
  \<^item> \<open>Bytes\<close>: \<open>to_be_bytes\<close>.
  \<^item> \<open>Stream_Types\<close> (\<open>errors.rs\<close>, \<open>storage.rs\<close>), \<open>Stream_State\<close> (\<open>state.rs\<close>, \<open>ttl.rs\<close>; locale
    \<open>struct_store\<close>, what the entry points rely on of loading and saving), \<open>Stream_Math\<close>
    (\<open>math.rs\<close>), \<open>Stream_Events\<close> (\<open>events.rs\<close>), \<open>Stream_Contract\<close> (the entry points of \<open>lib.rs\<close>),
    \<open>Stream_Yield\<close> (\<open>yield_integration.rs\<close>).
  \<^item> \<open>Stream_Step\<close>: the abstract step relation of a stream and the proof that each entry point
    implements it. \<open>Stream_Invariant\<close>: what holds of the struct and that every step keeps it.
    \<open>Stream_Machine\<close>: the stream with its host as a state machine, from initialization on.
    \<open>Stream_Payments\<close>: what settlement, withdrawal and clawback do to balances. \<open>Stream_Safety\<close>:
    refinement, authorization, who can lose tokens, finality. \<open>Stream_Solvency\<close>: a funded stream
    stays funded, its recipient can withdraw and is paid in full, and it can be settled. \<open>Stream_Timing\<close>: pausing,
    resuming, the order of the errors. \<open>Stream_History\<close>: what the published events tell of the stored
    struct and of the time the stream was active. \<open>Stream_Origin\<close>: initialization, reading
    the older storage layout, the views. \<open>Stream_Layout\<close>: a stream in the older layout is in lockstep
    with the same stream in the current one. \<open>Stream_Accounts\<close>: the books that the events keep, and
    the account of a whole life at its settlement. \<open>Stream_Reference\<close>: the accrual against a meter
    that counts seconds. \<open>Stream_Traps\<close>: the host traps of a call. \<open>Stream_Withdrawals\<close>: the outcome
    of a withdrawal on every branch, an escrow that is short included.
  \<^item> \<open>Governor_Contract\<close> (all of \<open>contracts/governor/src\<close>), \<open>Governor_Spec\<close> (the abstract governor and
    that the entry points compute its transitions), \<open>Governor_Machine\<close> (reachable governors).
  \<^item> \<open>Factory_Types\<close> (\<open>errors.rs\<close>, \<open>storage.rs\<close>, and the ledger), \<open>Factory_Contract\<close> (\<open>ttl.rs\<close>,
    \<open>query.rs\<close>, \<open>pause.rs\<close>, \<open>governance.rs\<close>, \<open>deploy.rs\<close>, \<open>lib.rs\<close>), \<open>Factory_Signature\<close>
    (\<open>signature.rs\<close>), \<open>Signature_Codec\<close> (a decoder for the signed bytes), \<open>Factory_Create\<close> (what a creation does), \<open>Factory_Walker\<close> (pagination and the
    walker), \<open>Factory_Registry\<close> (the registry of any reachable factory), \<open>Factory_Safety\<close> (pause,
    maintenance and that it completes, errors, the deposit), \<open>Factory_Interfaces\<close> (the locales \<open>config_provider\<close> and
    \<open>stream_provider\<close>: what the factory relies on of governor and stream, interpreted on their
    models).
  \<^item> \<open>Protocol_Machine\<close>: the factory, any governors and the streams it deployed as one machine on one
    ledger, with the rest of the network as a further component, and its invariant. \<open>Protocol\<close>: each
    contract sees a run of its own machine, and the whole is solvent. \<open>Protocol_Creation\<close> and
    \<open>Protocol_Batch\<close>: what comes of a valid creation, and what a batch that succeeds has done.
    \<open>Protocol_Books\<close>: every deposit is accounted for by the published events. \<open>Protocol_Safety\<close>: nobody loses tokens without having
    signed, and recipients are paid. \<open>Protocol_Settlement\<close>: both sides can have a stream settled.
    \<open>Protocol_Traps\<close>: no call traps but for the few reasons listed.
  \<^item> \<open>Batch_Processor\<close> (\<open>src/batch_transfer_processor.rs\<close>) and \<open>Oracle\<close> (\<open>src/oracle.rs\<close>, with
    the oracle as a state machine, the type of what it stores, and the exact conversion).
  \<^item> \<open>Stream_Witness\<close>, \<open>Governor_Witness\<close>, \<open>Factory_Witness\<close>: concrete states on which the hypotheses
    of the properties hold; the theories built on them end with witnesses of their own.
  This theory holds the properties that span the contracts.

  What is a parameter. Token contracts: the two functions of their client, with \<open>token_conserves\<close> (a
  transfer that succeeds moves a non-negative amount and nothing else, balances are not negative)
  and, for liveness only, \<open>token_live\<close> (a payable transfer succeeds); \<open>ledger_token\<close> satisfies both.
  \<open>sha256\<close>, \<open>ed25519_verify\<close>, the address of a deployed contract and the \<open>initialize\<close> of the code that a
  hash names (\<open>wasm_is_stream\<close>: it is that of \<open>contracts/stream\<close>). Who authorized a call is a
  predicate of the environment, which \<open>require_auth\<close> tests. It may be tested again in one call, as
  \<open>create_batch_streams\<close> does for its sender; whether the host grants that is not assumed, so the
  property on batches is about those that succeed. In the protocol machine
  nobody signs for the address of a stream contract (\<open>unsigned_streams\<close>), the hashes given to the
  factory name the stream contract, and the network (\<open>outside\<close>) may move any tokens but those of a
  stream. A time-to-live request is recorded, what the host does with it is not modelled; entries do not expire.

  Bounds. Loops are structural recursions on the lists the code iterates over, so no fuel is
  needed; the walker's eight rounds are the list \<open>[0 ..< 8]\<close>.

  Not modelled: the end of \<open>get_twap_price\<close> as it stands in \<open>src/oracle.rs\<close>. Two versions of its body
  were joined there by an expression that has no type, \<open>Ok(mock_price).get(..)\<close>; the older body is
  modelled with what follows as a parameter, the newer one on its own as \<open>observed_price\<close>. Also left
  out: the expiry of entries, the metering of the host, tests and scripts. \<open>oracle.rs\<close> and
  \<open>signature.rs\<close> are modelled although no \<open>mod\<close> declares them.
\<close>

section \<open>From creation to payment\<close>

text \<open>Every bounded stream that the factory creates without clawback is solvent from its
  creation on: its contract holds the agreed terms and the deposit, and in every state that any
  calls and any outside payments later lead to, until it is cancelled, what the recipient has earned
  and not withdrawn is in its own escrow.\<close>

theorem created_streams_stay_solvent:
  assumes "token_conserves (token_client env)"
    and "\<forall>hash. instance_store h StreamWasmHash = Some (VBytes hash) \<longrightarrow> wasm_is_stream env hash"
    and "factory_create_stream env sndr rcp tok deposit rate t0 t1 False h = Inr (n, h')"
    and "t1 \<noteq> 0" and "stream_contract env n \<noteq> sndr"
  shows "\<exists>sh. stream_at (world h') (stream_contract env n) = Some sh \<and>
    holds (initial_info sndr rcp tok rate t0 t1 False) 0 (instance_store sh) \<and>
    (\<forall>t k. later (stream_move (token_client env) (stream_contract env n))
        (ledger_timestamp env, on_ledger sh (tokens (world h'))) (t, k) \<longrightarrow>
      solvent (token_client env) (stream_contract env n) (t, k) \<and>
      (\<exists>i m. holds i m (instance_store k) \<and>
        (is_cancelled i \<or>
         earned t i - sint (withdrawn i) \<le>
           sint (token_balance (token_client env) (world k) (token i) (stream_contract env n)))))"
proof -
  have "creates env sndr rcp tok deposit rate t0 t1 False h n h'"
    using assms(3) by (simp add: factory_create_stream_iff)
  from created_solvent [OF assms(1) _ this assms(4,5), of "ledger_timestamp env"] assms(2)
  obtain sh where sh: "stream_at (world h') (stream_contract env n) = Some sh"
    and solv: "solvent (token_client env) (stream_contract env n)
      (ledger_timestamp env, on_ledger sh (tokens (world h')))"
    and holds: "holds (initial_info sndr rcp tok rate t0 t1 False) 0 (instance_store sh)"
    by blast
  have "solvent (token_client env) (stream_contract env n) (t, k) \<and>
      (\<exists>i m. holds i m (instance_store k) \<and> (is_cancelled i \<or> earned t i - sint (withdrawn i) \<le>
        sint (token_balance (token_client env) (world k) (token i) (stream_contract env n))))"
    if "later (stream_move (token_client env) (stream_contract env n))
      (ledger_timestamp env, on_ledger sh (tokens (world h'))) (t, k)" for t k
  proof -
    have s: "solvent (token_client env) (stream_contract env n) (t, k)"
      using that solv by (rule funded_machine.inv_later)
    then obtain i m where i: "holds i m (instance_store k)" "info_inv t i"
      "funded (token_client env) (stream_contract env n) i (world k)"
      by (auto simp: solvent_def)
    have "earned t i \<le> sint (rate_per_second i) * duration i"
      using earned_payable [OF i(2) order.refl] i(3) by (simp add: payable_def funded_def)
    with i s show ?thesis by (fastforce simp: funded_def remaining_due_def)
  qed
  with sh holds show ?thesis by blast
qed

section \<open>The factory and its governor\<close>

lemma check_stream_terms_not_governor:
  "check_stream_terms env deposit rate t0 t1 h \<noteq> Inl (Err factory_error.GovernorNotResponding)"
  by (simp add: check_stream_terms_eval)

lemma create_never_blames_live_governor:
  assumes "configured h" and "instance_store h GovernorAddress = Some (VAddress governor)"
    and "governance_config (world h) governor = Inr c"
  shows "factory_create_stream env sndr rcp tok deposit rate t0 t1 clawback h \<noteq>
    Inl (Err factory_error.GovernorNotResponding)"
  using assms check_stream_terms_not_governor [of env deposit rate t0 t1]
  by (auto simp: factory_create_stream_def tx_fails tx_simps Let_def bump_instance_def
      pause_is_paused_def enforce_bounds_def deploy_stream_def deploy_contract_def invoke_stream_def
      index_stream_def split: if_splits option.splits sum.splits)

text \<open>With a governor in use, the factory always gets an answer: a creation never fails
  with \<open>GovernorNotResponding\<close>, its rate and length respect the bounds the governor holds at that
  moment, and the protocol fee it reports is at most 100 percent.\<close>

theorem factory_obeys_live_governor:
  assumes "configured h" and "instance_store h GovernorAddress = Some (VAddress governor)"
    and "governor_at (world h) governor = Some gh" and "reaches governor_init governor_move gh"
  shows "\<exists>c. governor_get_config gh = Inr (c, gh) \<and>
    factory_create_stream env sndr rcp tok deposit rate t0 t1 clawback h \<noteq>
      Inl (Err factory_error.GovernorNotResponding) \<and>
    (\<forall>n h'. factory_create_stream env sndr rcp tok deposit rate t0 t1 clawback h = Inr (n, h') \<longrightarrow>
       sint rate \<le> sint (max_rate_per_second c) \<and>
       (t1 \<noteq> 0 \<longrightarrow> uint (min_duration_seconds c) \<le> uint t1 - uint t0 \<and>
          uint t1 - uint t0 \<le> uint (max_duration_seconds c))) \<and>
    factory_protocol_fee_bps h = Inr (fee_bps c, h) \<and> uint (fee_bps c) \<le> 10000"
proof -
  have inv: "governor_inv gh" using assms(4) by (rule governor_machine.inv_reaches)
  obtain g where g: "instance_store gh = governor_store g"
    using inv by (auto simp: governor_inv_def)
  define c where "c = config_of g"
  have c: "governor_get_config gh = Inr (c, gh)" unfolding c_def by (rule config_load_store [OF g])
  then have tried: "try_config gh = Some c" by (simp add: try_config_def)
  then have answer: "governance_config (world h) governor = Inr c"
    using governance_config_try [OF assms(3)] by simp
  have "factory_create_stream env sndr rcp tok deposit rate t0 t1 clawback h \<noteq>
      Inl (Err factory_error.GovernorNotResponding)"
    using assms(1,2) answer by (rule create_never_blames_live_governor)
  moreover have "bounds_ok c rate t0 t1"
    if "factory_create_stream env sndr rcp tok deposit rate t0 t1 clawback h = Inr (n, h')" for n h'
    using that assms(2) answer by (auto simp: factory_create_stream_iff creates_iff)
  moreover have "factory_protocol_fee_bps h = Inr (fee_bps c, h)"
    using assms(2,3) c by (simp add: factory_protocol_fee_bps_def governance_config_def tx_eval host_eval)
  moreover have "uint (fee_bps c) \<le> 10000" using inv tried by (rule live_governor.fee_at_most_everything)
  ultimately show ?thesis using c by (fastforce simp: bounds_ok_def)
qed

text \<open>A governor whose least duration is above its greatest blocks every bounded stream:
  no creation with an end time succeeds.\<close>

theorem crossed_bounds_block_bounded_streams:
  assumes "instance_store h GovernorAddress = Some (VAddress governor)"
    and "governor_at (world h) governor = Some gh"
    and "governor_get_config gh = Inr (c, gh)"
    and "max_duration_seconds c < min_duration_seconds c" and "t1 \<noteq> 0"
  shows "\<exists>e. factory_create_stream env sndr rcp tok deposit rate t0 t1 clawback h = Inl e"
proof (cases "factory_create_stream env sndr rcp tok deposit rate t0 t1 clawback h")
  case (Inr x)
  then have "bounds_ok c rate t0 t1"
    using assms by (cases x) (auto simp: factory_create_stream_iff creates_iff governance_config_def)
  then show ?thesis using assms(4,5) by (auto simp: bounds_ok_def word_less_alt)
qed simp

text \<open>Property C34. A rate manager can stop all bounded streams: setting the least duration above the greatest
  is accepted, as long as the product with the rate bound fits, and from then on the factory refuses
  every stream that has an end, whatever its terms.\<close>

theorem governor_can_block_bounded_streams:
  assumes "instance_store h GovernorAddress = Some (VAddress governor)"
    and "governor_at (world h) governor = Some gh"
    and "instance_store gh = governor_store g" and "governed g"
    and "has_authorized genv caller" and "caller \<in> holders g RateManager"
    and "max_duration_seconds g < s" and "i128_fits (sint (max_rate_per_second g) * uint s)"
  shows "\<exists>gh'. governor_set_min_duration genv caller s gh = Inr ((), gh') \<and>
    (\<forall>env sndr rcp tok deposit rate t0 t1 clawback. t1 \<noteq> 0 \<longrightarrow>
      (\<exists>e. factory_create_stream env sndr rcp tok deposit rate t0 t1 clawback
        (h\<lparr>world := (world h)\<lparr>governor_at := (governor_at (world h))(governor \<mapsto> gh')\<rparr>\<rparr>) = Inl e))"
proof -
  obtain c gh' where set: "governor_set_min_duration genv caller s gh = Inr ((), gh')"
    and c: "governor_get_config gh' = Inr (c, gh')" "max_duration_seconds c < min_duration_seconds c"
    using duration_bounds_can_cross [OF assms(3-8)] by blast
  have "\<exists>e. factory_create_stream env sndr rcp tok deposit rate t0 t1 clawback
      (h\<lparr>world := (world h)\<lparr>governor_at := (governor_at (world h))(governor \<mapsto> gh')\<rparr>\<rparr>) = Inl e"
    if "t1 \<noteq> 0" for env sndr rcp tok deposit rate t0 t1 clawback
    using assms(1) c that by (intro crossed_bounds_block_bounded_streams [of _ governor gh' c]) simp_all
  with set show ?thesis by blast
qed

section \<open>Witnesses\<close>

theorem created_streams_stay_solvent_witness:
  "\<exists>h' sh. factory_create_stream wit_factory_env 1 2 3 10000 1 10 10010 False wit_factory = Inr (0, h') \<and>
     stream_at (world h') 100 = Some sh \<and> solvent ledger_token 100 (10, on_ledger sh (tokens (world h')))"
proof -
  obtain h' where h': "factory_create_stream wit_factory_env 1 2 3 10000 1 10 10010 False wit_factory =
      Inr (0, h')"
    using wit_creates unfolding factory_create_stream_iff [symmetric] by blast
  have "\<forall>hash. instance_store wit_factory StreamWasmHash = Some (VBytes hash) \<longrightarrow>
      wasm_is_stream wit_factory_env hash"
    by (simp add: wasm_is_stream_def)
  from created_streams_stay_solvent [OF _ this h'] ledger_token_conserves
  obtain sh where sh: "stream_at (world h') 100 = Some sh"
    and later: "\<And>t k. later (stream_move ledger_token 100) (10, on_ledger sh (tokens (world h'))) (t, k) \<Longrightarrow>
      solvent ledger_token 100 (t, k)"
    by (auto simp: wit_contract)
  have "solvent ledger_token 100 (10, on_ledger sh (tokens (world h')))"
    by (rule later [OF later_refl])
  with h' sh show ?thesis by blast
qed

theorem factory_obeys_live_governor_witness:
  "\<exists>c :: governor_config. factory_protocol_fee_bps wit_factory = Inr (fee_bps c, wit_factory) \<and> uint (fee_bps c) \<le> 10000"
proof -
  have at: "instance_store wit_factory GovernorAddress = Some (VAddress 30)"
    "governor_at (world wit_factory) 30 = Some wit_governor_host"
    by (simp_all add: wit_factory_def wit_ledger_def)
  have "reaches governor_init governor_move wit_governor_host"
    using wit_governor_init by (rule reaches_init)
  from factory_obeys_live_governor [OF wit_configured at this, where env = wit_factory_env]
  show ?thesis by blast
qed

definition wit_crossed :: governor_state where
  "wit_crossed = wit_governor\<lparr>min_duration_seconds := 400000000\<rparr>"

definition wit_crossed_factory :: "balance_table factory_host" where
  "wit_crossed_factory = wit_factory\<lparr>world := wit_ledger\<lparr>governor_at :=
     [30 \<mapsto> wit_governor_host\<lparr>instance_store := governor_store wit_crossed\<rparr>]\<rparr>\<rparr>"

theorem crossed_bounds_block_bounded_streams_witness:
  "\<exists>e. factory_create_stream wit_factory_env 1 2 3 10000 1 10 10010 False wit_crossed_factory = Inl e"
proof -
  let ?gh = "wit_governor_host\<lparr>instance_store := governor_store wit_crossed\<rparr>"
  have c: "governor_get_config ?gh = Inr (config_of wit_crossed, ?gh)"
    by (rule config_load_store) simp
  have "max_duration_seconds (config_of wit_crossed) < min_duration_seconds (config_of wit_crossed)"
    by (simp add: config_of_def governor_config.truncate_def wit_crossed_def)
  moreover have "instance_store wit_crossed_factory GovernorAddress = Some (VAddress 30)"
    "governor_at (world wit_crossed_factory) 30 = Some ?gh"
    by (simp_all add: wit_crossed_factory_def wit_factory_def)
  ultimately show ?thesis
    using c by (intro crossed_bounds_block_bounded_streams) simp_all
qed

theorem governor_can_block_bounded_streams_witness:
  "\<exists>gh'. governor_set_min_duration wit_governor_env 1 400000000 wit_governor_host = Inr ((), gh')"
proof -
  have at: "instance_store wit_factory GovernorAddress = Some (VAddress 30)"
    "governor_at (world wit_factory) 30 = Some wit_governor_host"
    by (simp_all add: wit_factory_def wit_ledger_def)
  show ?thesis
    using governor_can_block_bounded_streams [OF at wit_governor_store wit_governed,
        of wit_governor_env 1 400000000] by (auto simp: i128_fits_def)
qed

end
